theory Spec2Isabelle
  imports Complex_Main
begin

section \<open>Common data: identifiers, users, errors\<close>

text \<open>
  Object ids are compared only for equality (\<open>includes\<close>, \<open>toString() === id\<close>), so
  they are natural numbers here. Dates are milliseconds since the epoch.
\<close>

type_synonym oid = nat
type_synonym date = int

datatype role = Admin | Teacher | Student

record user =
  uid :: oid
  urole :: role

text \<open>
  \<open>ErrorResponse message statusCode\<close> is the class of utils/errorResponse; the other
  constructors are the errors that the persistence layer or the runtime throws inside a
  handler, which the async wrapper of every handler passes on. \<open>statusCode\<close> is what the
  global \<open>errorHandler\<close> answers with. A message that embeds an id in the source is given
  here without it.
\<close>

datatype error =
    ErrorResponse string nat
  | ValidationError
  | DuplicateKey
  | PlainError string
  | ReferenceError string
  | TypeError

fun statusCode :: "error \<Rightarrow> nat" where
  "statusCode (ErrorResponse m c) = c"
| "statusCode ValidationError = 400"
| "statusCode DuplicateKey = 400"
| "statusCode (PlainError m) = 500"
| "statusCode (ReferenceError m) = 500"
| "statusCode TypeError = 500"

section \<open>The documents and the store\<close>

text \<open>
  Each record has the fields of its schema that the handlers below read or write. Batches
  (models/Batch.js): \<open>maxStudents\<close> is a Number of the schema with \<open>min\<close> 1 and no
  other validator, so it need not be whole. Numbers (fees, amounts, marks, \<open>maxStudents\<close>)
  are rationals.
\<close>

record batch =
  bid :: oid
  teacher :: oid
  students :: "oid list"
  fee :: rat
  maxStudents :: rat

text \<open>Attendance records (models/Attendance.js). The status is absent when unset.\<close>

record attendance =
  aid :: oid
  att_student :: oid
  att_batch :: oid
  att_date :: date
  att_status :: "string option"
  att_notes :: string
  markedBy :: oid

text \<open>Materials (models/Material.js): the fields that tie a material to its batch.\<close>

record material =
  mid :: oid
  mat_batch :: oid
  uploadedBy :: oid
  mat_isActive :: bool

text \<open>Assignments with their embedded submissions (the assignment schema).\<close>

datatype sub_status = Submitted | Graded | Late | Resubmitted

record submission =
  sub_student :: oid
  submittedAt :: date
  files :: "string list"
  sub_notes :: string
  marksObtained :: "rat option"
  feedback :: "string option"
  gradedBy :: "oid option"
  gradedAt :: "date option"
  sub_status :: sub_status

record assignment =
  asg_id :: oid
  asg_batch :: oid
  assignedBy :: oid
  dueDate :: date
  totalMarks :: rat
  submissions :: "submission list"
  asg_isActive :: bool

text \<open>Payments (the payment schema).\<close>

record payment =
  pid :: oid
  pay_student :: oid
  pay_batch :: oid
  amount :: rat
  paymentMethod :: string
  receiptNumber :: "string option"
  month :: string
  pay_status :: string
  pay_notes :: "string option"
  recordedBy :: oid

text \<open>The document store: one collection per model.\<close>

record db =
  users :: "user list"
  batches :: "batch list"
  attendances :: "attendance list"
  materials :: "material list"
  assignments :: "assignment list"
  payments :: "payment list"

section \<open>Batches (controllers/batchController.js, models/Batch.js)\<close>

definition User_findById :: "db \<Rightarrow> oid \<Rightarrow> user option" where
  "User_findById d i = find (\<lambda>u. uid u = i) (users d)"

definition Batch_findById :: "db \<Rightarrow> oid \<Rightarrow> batch option" where
  "Batch_findById d i = find (\<lambda>b. bid b = i) (batches d)"

text \<open>\<open>batch.save()\<close> of a loaded document: the stored document with that id is replaced.\<close>

definition Batch_save :: "batch \<Rightarrow> db \<Rightarrow> db" where
  "Batch_save b d = d\<lparr>batches := map (\<lambda>x. if bid x = bid b then b else x) (batches d)\<rparr>"

subsection \<open>addStudentToBatch, removeStudentFromBatch\<close>

text \<open>
  \<open>studentId\<close> of the request body may be missing (\<open>None\<close>). Each handler returns its
  outcome together with the store it leaves behind.
\<close>

definition addStudentToBatch :: "db \<Rightarrow> oid \<Rightarrow> oid option \<Rightarrow> (error + batch) \<times> db" where
  "addStudentToBatch d batchId body_studentId =
     (case body_studentId of
        None \<Rightarrow> (Inl (ErrorResponse ''Please provide a student ID'' 400), d)
      | Some studentId \<Rightarrow>
         (case (Batch_findById d batchId, User_findById d studentId) of
            (Some batch, Some student) \<Rightarrow>
              if studentId \<in> set (students batch)
              then (Inl (ErrorResponse ''Student already in this batch'' 400), d)
              else if of_nat (length (students batch)) \<ge> maxStudents batch
              then (Inl (ErrorResponse ''Batch is full'' 400), d)
              else let batch' = batch\<lparr>students := students batch @ [studentId]\<rparr>
                   in (Inr batch', Batch_save batch' d)
          | _ \<Rightarrow> (Inl (ErrorResponse ''Batch or student not found'' 404), d)))"

definition removeStudentFromBatch :: "db \<Rightarrow> oid \<Rightarrow> oid \<Rightarrow> (error + unit) \<times> db" where
  "removeStudentFromBatch d batchId studentId =
     (case Batch_findById d batchId of
        None \<Rightarrow> (Inl (ErrorResponse ''Batch not found'' 404), d)
      | Some batch \<Rightarrow>
          if studentId \<notin> set (students batch)
          then (Inl (ErrorResponse ''Student not in this batch'' 400), d)
          else let batch' = batch\<lparr>students := filter (\<lambda>i. i \<noteq> studentId) (students batch)\<rparr>
               in (Inr (), Batch_save batch' d))"

text \<open>A sequence of roster calls on one batch, each applied to the store the previous left.\<close>

datatype roster_call = AddStudent "oid option" | RemoveStudent oid

fun roster_step :: "oid \<Rightarrow> db \<Rightarrow> roster_call \<Rightarrow> db" where
  "roster_step batchId d (AddStudent s) = snd (addStudentToBatch d batchId s)"
| "roster_step batchId d (RemoveStudent s) = snd (removeStudentFromBatch d batchId s)"

definition roster_run :: "oid \<Rightarrow> db \<Rightarrow> roster_call list \<Rightarrow> db" where
  "roster_run batchId d cs = foldl (roster_step batchId) d cs"

text \<open>The roster invariant of the claim: no student twice, no more than \<open>maxStudents\<close>.\<close>

definition roster_ok :: "batch \<Rightarrow> bool" where
  "roster_ok b = (distinct (students b) \<and> of_nat (length (students b)) \<le> maxStudents b)"

subsection \<open>deleteBatch and the cascade of the \<open>pre('remove')\<close> hook\<close>

text \<open>The queries by batch reference: \<open>Model.find({ batch: batchId })\<close>.\<close>

definition Attendance_findByBatch :: "db \<Rightarrow> oid \<Rightarrow> attendance list" where
  "Attendance_findByBatch d i = filter (\<lambda>a. att_batch a = i) (attendances d)"

definition Material_findByBatch :: "db \<Rightarrow> oid \<Rightarrow> material list" where
  "Material_findByBatch d i = filter (\<lambda>m. mat_batch m = i) (materials d)"

definition Assignment_findByBatch :: "db \<Rightarrow> oid \<Rightarrow> assignment list" where
  "Assignment_findByBatch d i = filter (\<lambda>a. asg_batch a = i) (assignments d)"

text \<open>
  \<open>batch.remove()\<close>: the hook runs the three \<open>deleteMany({ batch: this._id })\<close> in
  order, then the batch document itself is deleted.
\<close>

definition Batch_pre_remove :: "batch \<Rightarrow> db \<Rightarrow> db" where
  "Batch_pre_remove b d =
     (let d1 = d\<lparr>attendances := filter (\<lambda>a. att_batch a \<noteq> bid b) (attendances d)\<rparr>;
          d2 = d1\<lparr>materials := filter (\<lambda>m. mat_batch m \<noteq> bid b) (materials d1)\<rparr>;
          d3 = d2\<lparr>assignments := filter (\<lambda>a. asg_batch a \<noteq> bid b) (assignments d2)\<rparr>
      in d3)"

definition Batch_remove :: "batch \<Rightarrow> db \<Rightarrow> db" where
  "Batch_remove b d =
     (let d' = Batch_pre_remove b d
      in d'\<lparr>batches := filter (\<lambda>x. bid x \<noteq> bid b) (batches d')\<rparr>)"

definition deleteBatch :: "db \<Rightarrow> user \<Rightarrow> oid \<Rightarrow> (error + unit) \<times> db" where
  "deleteBatch d req_user batchId =
     (case Batch_findById d batchId of
        None \<Rightarrow> (Inl (ErrorResponse ''Batch not found'' 404), d)
      | Some batch \<Rightarrow>
          if teacher batch \<noteq> uid req_user \<and> urole req_user \<noteq> Admin
          then (Inl (ErrorResponse ''Not authorized to delete this batch'' 403), d)
          else (Inr (), Batch_remove batch d))"

section \<open>Payments (the payment schema, createPayment)\<close>

text \<open>
  The body of a create request; every field may be missing. Values are taken as they are
  after the schema's casts.
\<close>

record payment_body =
  body_student :: "oid option"
  body_batch :: "oid option"
  body_month :: "string option"
  body_amount :: "rat option"
  body_paymentMethod :: "string option"
  body_status :: "string option"
  body_receiptNumber :: "string option"
  body_notes :: "string option"

definition paymentMethod_enum :: "string list" where
  "paymentMethod_enum = [''cash'', ''card'', ''bank_transfer'', ''upi'', ''cheque'', ''other'']"

definition payment_status_enum :: "string list" where
  "payment_status_enum = [''pending'', ''completed'', ''failed'', ''refunded'']"

definition isDigit :: "char \<Rightarrow> bool" where
  "isDigit c = (c \<in> set ''0123456789'')"

text \<open>The \<open>match\<close> of month: four digits, a dash, and 01 to 12.\<close>

definition validMonth :: "string \<Rightarrow> bool" where
  "validMonth s =
     (case s of
        [y1, y2, y3, y4, dash, m1, m2] \<Rightarrow>
          isDigit y1 \<and> isDigit y2 \<and> isDigit y3 \<and> isDigit y4 \<and> dash = CHR ''-''
          \<and> ((m1 = CHR ''0'' \<and> m2 \<in> set ''123456789'') \<or> (m1 = CHR ''1'' \<and> m2 \<in> set ''012''))
      | _ \<Rightarrow> False)"

text \<open>Decimal digits of a number, and \<open>padStart(6, '0')\<close>, for the receipt number.\<close>

function decimal :: "nat \<Rightarrow> string" where
  "decimal n = (if n < 10 then [''0123456789'' ! n] else decimal (n div 10) @ [''0123456789'' ! (n mod 10)])"
  by pat_completeness auto
termination
  by (relation "measure id") auto

definition padStart6 :: "string \<Rightarrow> string" where
  "padStart6 s = replicate (6 - length s) (CHR ''0'') @ s"

definition newReceiptNumber :: "nat \<Rightarrow> nat \<Rightarrow> string" where
  "newReceiptNumber year count = ''RCPT-'' @ decimal year @ ''-'' @ padStart6 (decimal (count + 1))"

text \<open>
  \<open>Payment.findOne({ student, batch, month })\<close> on the fields of the body; a field that the
  body lacks matches no record.
\<close>

definition Payment_findOne :: "db \<Rightarrow> oid option \<Rightarrow> oid option \<Rightarrow> string option \<Rightarrow> payment option" where
  "Payment_findOne d s b m =
     find (\<lambda>p. Some (pay_student p) = s \<and> Some (pay_batch p) = b \<and> Some (month p) = m) (payments d)"

definition fresh_pid :: "payment list \<Rightarrow> oid" where
  "fresh_pid ps = Suc (fold max (map pid ps) 0)"

text \<open>
  \<open>Payment.create(req.body)\<close>: the document is built from the body (status defaults to
  pending), the schema validators run (required fields, \<open>min\<close> of amount, the two enums,
  the month format, the length of notes), the pre-save hook gives a completed payment a
  receipt number when it has none, and the insert fails on either unique index:
  (student, batch, month) and the sparse one on receiptNumber. \<open>year\<close> is the year of the
  clock when the hook runs.
\<close>

definition Payment_create :: "db \<Rightarrow> oid \<Rightarrow> nat \<Rightarrow> payment_body \<Rightarrow> (error + payment) \<times> db" where
  "Payment_create d body_recordedBy year body =
     (case (body_student body, body_batch body, body_amount body, body_paymentMethod body,
            body_month body) of
        (Some s, Some b, Some a, Some pm, Some m) \<Rightarrow>
          (let st = (case body_status body of None \<Rightarrow> ''pending'' | Some x \<Rightarrow> x) in
           if \<not> (0 \<le> a \<and> pm \<in> set paymentMethod_enum \<and> validMonth m
                  \<and> st \<in> set payment_status_enum
                  \<and> (case body_notes body of None \<Rightarrow> True | Some n \<Rightarrow> length n \<le> 500))
           then (Inl ValidationError, d)
           else
             let rn = (if (body_receiptNumber body = None \<or> body_receiptNumber body = Some [])
                          \<and> st = ''completed''
                       then Some (newReceiptNumber year (length (payments d)))
                       else body_receiptNumber body);
                 doc = \<lparr>pid = fresh_pid (payments d), pay_student = s, pay_batch = b, amount = a,
                        paymentMethod = pm, receiptNumber = rn, month = m, pay_status = st,
                        pay_notes = body_notes body, recordedBy = body_recordedBy\<rparr>
             in if (\<exists>p \<in> set (payments d). pay_student p = s \<and> pay_batch p = b \<and> month p = m)
                   \<or> (rn \<noteq> None \<and> (\<exists>p \<in> set (payments d). receiptNumber p = rn))
                then (Inl DuplicateKey, d)
                else (Inr doc, d\<lparr>payments := payments d @ [doc]\<rparr>))
      | _ \<Rightarrow> (Inl ValidationError, d))"

text \<open>
  createPayment. \<open>batchDoc.students\<close> on a batch that was not found is a TypeError;
  \<open>!amount\<close> holds for a missing amount and for 0.
\<close>

definition createPayment :: "db \<Rightarrow> user \<Rightarrow> nat \<Rightarrow> payment_body \<Rightarrow> (error + payment) \<times> db" where
  "createPayment d req_user year body =
     (case Payment_findOne d (body_student body) (body_batch body) (body_month body) of
        Some existingPayment \<Rightarrow>
          (Inl (ErrorResponse ''Payment already recorded for this student, batch, and month'' 400), d)
      | None \<Rightarrow>
          (case (case body_batch body of None \<Rightarrow> None | Some b \<Rightarrow> Batch_findById d b) of
             None \<Rightarrow> (Inl TypeError, d)
           | Some batchDoc \<Rightarrow>
               if \<not> (case body_student body of None \<Rightarrow> False
                                               | Some s \<Rightarrow> s \<in> set (students batchDoc))
               then (Inl (ErrorResponse ''Student is not enrolled in this batch'' 400), d)
               else
                 let body1 = (if body_amount body = None \<or> body_amount body = Some 0
                              then body\<lparr>body_amount := Some (fee batchDoc)\<rparr> else body);
                     body2 = (if body_paymentMethod body \<noteq> Some ''online''
                              then body1\<lparr>body_status := Some ''completed''\<rparr> else body1)
                 in Payment_create d (uid req_user) year body2))"

text \<open>The uniqueness of the claim: no two payments with the same student, batch and month.\<close>

definition triple_unique :: "payment list \<Rightarrow> bool" where
  "triple_unique ps = distinct (map (\<lambda>p. (pay_student p, pay_batch p, month p)) ps)"

text \<open>A store with batch 7 (fee 100, student 1 enrolled) and no payment yet.\<close>

definition payment_example :: db where
  "payment_example =
     \<lparr>users = [\<lparr>uid = 1, urole = Student\<rparr>, \<lparr>uid = 9, urole = Teacher\<rparr>],
      batches = [\<lparr>bid = 7, teacher = 9, students = [1], fee = 100, maxStudents = 30\<rparr>],
      attendances = [], materials = [], assignments = [], payments = []\<rparr>"

definition payment_request :: payment_body where
  "payment_request =
     \<lparr>body_student = Some 1, body_batch = Some 7, body_month = Some ''2024-03'',
      body_amount = None, body_paymentMethod = Some ''cash'', body_status = None,
      body_receiptNumber = None, body_notes = None\<rparr>"

definition payment_example_doc :: payment where
  "payment_example_doc =
     \<lparr>pid = 1, pay_student = 1, pay_batch = 7, amount = 100, paymentMethod = ''cash'',
      receiptNumber = Some ''RCPT-2024-000001'', month = ''2024-03'',
      pay_status = ''completed'', pay_notes = None, recordedBy = 9\<rparr>"

section \<open>Assignments and submissions (the assignment schema, assignmentController.js)\<close>

definition Assignment_findById :: "db \<Rightarrow> oid \<Rightarrow> assignment option" where
  "Assignment_findById d i = find (\<lambda>a. asg_id a = i) (assignments d)"

text \<open>
  The assignment schema declares no path \<open>allowLateSubmission\<close>. Under the schema a
  document carries its declared paths only, a field of that name in a create or update body is
  dropped, and reading \<open>assignment.allowLateSubmission\<close> yields \<open>undefined\<close>, which is falsy.
\<close>

definition allowLateSubmission :: "assignment \<Rightarrow> bool" where
  "allowLateSubmission a = False"

text \<open>
  The validators of a submission sub-document: \<open>maxlength\<close> of notes and feedback, and
  \<open>min\<close> and \<open>max\<close> of marksObtained, each passing on a missing value. The schema gives
  \<open>max\<close> as a function, \<open>function() { return this.totalMarks; }\<close>, inside the submission
  sub-schema; what the persistence layer makes of a function there is not code of this
  repository, so its verdict on a mark is the parameter \<open>maxValidator\<close>.
\<close>

definition validSubmission :: "(rat \<Rightarrow> bool) \<Rightarrow> submission \<Rightarrow> bool" where
  "validSubmission maxValidator s =
     (length (sub_notes s) \<le> 1000
      \<and> (case feedback s of None \<Rightarrow> True | Some f \<Rightarrow> length f \<le> 1000)
      \<and> (case marksObtained s of None \<Rightarrow> True | Some m \<Rightarrow> 0 \<le> m \<and> maxValidator m))"

text \<open>
  \<open>assignment.save()\<close> after one submission was added or replaced: that sub-document is
  validated, and the stored assignment with the same id is replaced.
\<close>

definition Assignment_save :: "(rat \<Rightarrow> bool) \<Rightarrow> submission \<Rightarrow> assignment \<Rightarrow> db \<Rightarrow> (error + unit) \<times> db" where
  "Assignment_save maxValidator changed a d =
     (if validSubmission maxValidator changed
      then (Inr (), d\<lparr>assignments := map (\<lambda>x. if asg_id x = asg_id a then a else x) (assignments d)\<rparr>)
      else (Inl ValidationError, d))"

text \<open>\<open>findIndex\<close>, with \<open>None\<close> for -1.\<close>

fun findIndex :: "('a \<Rightarrow> bool) \<Rightarrow> 'a list \<Rightarrow> nat option" where
  "findIndex P [] = None"
| "findIndex P (x # xs) = (if P x then Some 0 else map_option Suc (findIndex P xs))"

subsection \<open>createAssignment\<close>

text \<open>
  The body of a create request, with the schema paths that the handlers below read and the
  field \<open>allowLateSubmission\<close> that a client may send.
\<close>

record assignment_body =
  ab_title :: "string option"
  ab_batch :: "oid option"
  ab_dueDate :: "date option"
  ab_totalMarks :: "rat option"
  ab_allowLateSubmission :: "bool option"

definition fresh_asg_id :: "assignment list \<Rightarrow> oid" where
  "fresh_asg_id xs = Suc (fold max (map asg_id xs) 0)"

definition createAssignment :: "db \<Rightarrow> user \<Rightarrow> assignment_body \<Rightarrow> (error + assignment) \<times> db" where
  "createAssignment d req_user body =
     (case (case ab_batch body of None \<Rightarrow> None | Some b \<Rightarrow> Batch_findById d b) of
        None \<Rightarrow> (Inl (ErrorResponse ''Batch not found'' 404), d)
      | Some batch \<Rightarrow>
          if teacher batch \<noteq> uid req_user \<and> urole req_user \<noteq> Admin
          then (Inl (ErrorResponse ''Not authorized to create assignments for this batch'' 403), d)
          else
            (case (ab_title body, ab_dueDate body, ab_totalMarks body) of
               (Some t, Some due, Some tm) \<Rightarrow>
                 if t = [] \<or> length t > 200 \<or> tm < 1 then (Inl ValidationError, d)
                 else
                   let doc = \<lparr>asg_id = fresh_asg_id (assignments d), asg_batch = bid batch,
                               assignedBy = uid req_user, dueDate = due, totalMarks = tm,
                               submissions = [], asg_isActive = True\<rparr>
                   in (Inr doc, d\<lparr>assignments := assignments d @ [doc]\<rparr>)
             | _ \<Rightarrow> (Inl ValidationError, d)))"

subsection \<open>submitAssignment and gradeSubmission (the controller)\<close>

definition submitAssignment ::
  "(rat \<Rightarrow> bool) \<Rightarrow> db \<Rightarrow> user \<Rightarrow> oid \<Rightarrow> string list \<Rightarrow> string option \<Rightarrow> date
     \<Rightarrow> (error + assignment) \<times> db" where
  "submitAssignment maxValidator d req_user asgId req_files req_notes now =
     (case Assignment_findById d asgId of
        None \<Rightarrow> (Inl (ErrorResponse ''Assignment not found'' 404), d)
      | Some assignment \<Rightarrow>
          if \<not> asg_isActive assignment
          then (Inl (ErrorResponse ''Assignment not found'' 404), d)
          else
            (case Batch_findById d (asg_batch assignment) of
               None \<Rightarrow> (Inl TypeError, d)
             | Some batch \<Rightarrow>
                 if uid req_user \<notin> set (students batch)
                 then (Inl (ErrorResponse ''You are not enrolled in this batch'' 403), d)
                 else
                   let isLate = (now > dueDate assignment) in
                   if isLate \<and> \<not> allowLateSubmission assignment
                   then (Inl (ErrorResponse ''Late submissions are not allowed for this assignment'' 400), d)
                   else
                     let notes = (case req_notes of None \<Rightarrow> [] | Some n \<Rightarrow> n);
                         submission =
                           \<lparr>sub_student = uid req_user, submittedAt = now, files = req_files,
                            sub_notes = notes, marksObtained = None, feedback = None,
                            gradedBy = None, gradedAt = None,
                            sub_status = (if isLate then Late else Submitted)\<rparr>;
                         changed =
                           (case findIndex (\<lambda>sub. sub_student sub = uid req_user) (submissions assignment) of
                              Some submissionIndex \<Rightarrow>
                                (submissions assignment ! submissionIndex)
                                  \<lparr>sub_student := uid req_user, submittedAt := now, files := req_files,
                                   sub_notes := notes, sub_status := Resubmitted\<rparr>
                            | None \<Rightarrow> submission);
                         assignment' =
                           (case findIndex (\<lambda>sub. sub_student sub = uid req_user) (submissions assignment) of
                              Some submissionIndex \<Rightarrow>
                                assignment\<lparr>submissions := (submissions assignment)[submissionIndex := changed]\<rparr>
                            | None \<Rightarrow> assignment\<lparr>submissions := submissions assignment @ [changed]\<rparr>)
                     in (case Assignment_save maxValidator changed assignment' d of
                           (Inl e, d') \<Rightarrow> (Inl e, d')
                         | (Inr u, d') \<Rightarrow> (Inr assignment', d'))))"

definition gradeSubmission ::
  "(rat \<Rightarrow> bool) \<Rightarrow> db \<Rightarrow> user \<Rightarrow> oid \<Rightarrow> oid \<Rightarrow> rat option \<Rightarrow> string option \<Rightarrow> date
     \<Rightarrow> (error + submission) \<times> db" where
  "gradeSubmission maxValidator d req_user assignmentId studentId body_marksObtained body_feedback now =
     (case Assignment_findById d assignmentId of
        None \<Rightarrow> (Inl (ErrorResponse ''Assignment not found'' 404), d)
      | Some assignment \<Rightarrow>
          if \<not> asg_isActive assignment
          then (Inl (ErrorResponse ''Assignment not found'' 404), d)
          else
            (case Batch_findById d (asg_batch assignment) of
               None \<Rightarrow> (Inl TypeError, d)
             | Some batch \<Rightarrow>
                 if teacher batch \<noteq> uid req_user \<and> urole req_user \<noteq> Admin
                 then (Inl (ErrorResponse ''Not authorized to grade this assignment'' 403), d)
                 else
                   (case findIndex (\<lambda>sub. sub_student sub = studentId) (submissions assignment) of
                      None \<Rightarrow> (Inl (ErrorResponse ''No submission found for student'' 404), d)
                    | Some submissionIndex \<Rightarrow>
                        let changed =
                              (submissions assignment ! submissionIndex)
                                \<lparr>marksObtained := body_marksObtained, feedback := body_feedback,
                                 gradedBy := Some (uid req_user), gradedAt := Some now,
                                 sub_status := Graded\<rparr>;
                            assignment' =
                              assignment\<lparr>submissions := (submissions assignment)[submissionIndex := changed]\<rparr>
                        in (case Assignment_save maxValidator changed assignment' d of
                              (Inl e, d') \<Rightarrow> (Inl e, d')
                            | (Inr u, d') \<Rightarrow> (Inr changed, d')))))"

subsection \<open>addSubmission and gradeSubmission (the methods of the assignment model)\<close>

text \<open>
  The methods act on a loaded document \<open>this\<close> and save it. The method \<open>addSubmission\<close> has
  no gate on lateness; \<open>gradeSubmission\<close> throws a plain Error when the student has no
  submission.
\<close>

definition addSubmission ::
  "(rat \<Rightarrow> bool) \<Rightarrow> db \<Rightarrow> assignment \<Rightarrow> oid \<Rightarrow> string list option \<Rightarrow> string option \<Rightarrow> date
     \<Rightarrow> (error + assignment) \<times> db" where
  "addSubmission maxValidator d this studentId arg_files arg_notes now =
     (let submission =
            \<lparr>sub_student = studentId, submittedAt = now,
             files = (case arg_files of None \<Rightarrow> [] | Some fs \<Rightarrow> fs),
             sub_notes = (case arg_notes of None \<Rightarrow> [] | Some n \<Rightarrow> n),
             marksObtained = None, feedback = None, gradedBy = None, gradedAt = None,
             sub_status = (if dueDate this < now then Late else Submitted)\<rparr>;
          changed =
            (case findIndex (\<lambda>sub. sub_student sub = studentId) (submissions this) of
               Some existingSubmissionIndex \<Rightarrow>
                 (submissions this ! existingSubmissionIndex)
                   \<lparr>sub_student := studentId, submittedAt := now, files := files submission,
                    sub_notes := sub_notes submission, sub_status := Resubmitted\<rparr>
             | None \<Rightarrow> submission);
          this' =
            (case findIndex (\<lambda>sub. sub_student sub = studentId) (submissions this) of
               Some existingSubmissionIndex \<Rightarrow>
                 this\<lparr>submissions := (submissions this)[existingSubmissionIndex := changed]\<rparr>
             | None \<Rightarrow> this\<lparr>submissions := submissions this @ [changed]\<rparr>)
      in (case Assignment_save maxValidator changed this' d of
            (Inl e, d') \<Rightarrow> (Inl e, d')
          | (Inr u, d') \<Rightarrow> (Inr this', d')))"

definition gradeSubmission_method ::
  "(rat \<Rightarrow> bool) \<Rightarrow> db \<Rightarrow> assignment \<Rightarrow> oid \<Rightarrow> rat option \<Rightarrow> string option \<Rightarrow> oid \<Rightarrow> date
     \<Rightarrow> (error + assignment) \<times> db" where
  "gradeSubmission_method maxValidator d this studentId marks arg_feedback arg_gradedBy now =
     (case findIndex (\<lambda>sub. sub_student sub = studentId) (submissions this) of
        None \<Rightarrow> (Inl (PlainError ''No submission found for this student''), d)
      | Some i \<Rightarrow>
          let changed =
                (submissions this ! i)
                  \<lparr>marksObtained := marks, feedback := arg_feedback,
                   gradedBy := Some arg_gradedBy, gradedAt := Some now, sub_status := Graded\<rparr>;
              this' = this\<lparr>submissions := (submissions this)[i := changed]\<rparr>
          in (case Assignment_save maxValidator changed this' d of
                (Inl e, d') \<Rightarrow> (Inl e, d')
              | (Inr u, d') \<Rightarrow> (Inr this', d')))"

subsection \<open>The status of a student's submission and its moves\<close>

definition statusOf :: "db \<Rightarrow> oid \<Rightarrow> oid \<Rightarrow> sub_status option" where
  "statusOf d asgId studentId =
     (case Assignment_findById d asgId of
        None \<Rightarrow> None
      | Some a \<Rightarrow> map_option sub_status (find (\<lambda>sub. sub_student sub = studentId) (submissions a)))"

text \<open>
  The submit and grade operations: the two handlers, and the two model methods called on the
  stored document with the given id (a call on a document that is not stored does nothing).
\<close>

datatype asg_call =
    Submit user oid "string list" "string option" date
  | Grade user oid oid "rat option" "string option" date
  | AddSubmission oid oid "string list option" "string option" date
  | GradeSubmission oid oid "rat option" "string option" oid date

fun asg_step :: "(rat \<Rightarrow> bool) \<Rightarrow> db \<Rightarrow> asg_call \<Rightarrow> db" where
  "asg_step mv d (Submit u a fs n t) = snd (submitAssignment mv d u a fs n t)"
| "asg_step mv d (Grade u a s m f t) = snd (gradeSubmission mv d u a s m f t)"
| "asg_step mv d (AddSubmission a s fs n t) =
     (case Assignment_findById d a of
        None \<Rightarrow> d
      | Some this \<Rightarrow> snd (addSubmission mv d this s fs n t))"
| "asg_step mv d (GradeSubmission a s m f g t) =
     (case Assignment_findById d a of
        None \<Rightarrow> d
      | Some this \<Rightarrow> snd (gradeSubmission_method mv d this s m f g t))"

text \<open>
  The moves as the specification lists them: none to submitted or late, submitted or late to
  resubmitted, and any existing state to graded.
\<close>

fun claimed_move :: "sub_status option \<Rightarrow> sub_status option \<Rightarrow> bool" where
  "claimed_move None (Some Submitted) = True"
| "claimed_move None (Some Late) = True"
| "claimed_move (Some Submitted) (Some Resubmitted) = True"
| "claimed_move (Some Late) (Some Resubmitted) = True"
| "claimed_move (Some s) (Some Graded) = True"
| "claimed_move s t = False"

text \<open>
  A persistence layer whose \<open>max\<close> validator lets every mark pass, and one that lets none
  pass, for the examples.
\<close>

definition max_passes :: "rat \<Rightarrow> bool" where
  "max_passes m = True"

definition max_fails :: "rat \<Rightarrow> bool" where
  "max_fails m = False"

text \<open>
  A store with batch 7 of teacher 9, student 1 enrolled, and assignment 1 due at time 1000.
\<close>

definition assignment_example :: db where
  "assignment_example =
     \<lparr>users = [\<lparr>uid = 1, urole = Student\<rparr>, \<lparr>uid = 9, urole = Teacher\<rparr>],
      batches = [\<lparr>bid = 7, teacher = 9, students = [1], fee = 100, maxStudents = 30\<rparr>],
      attendances = [], materials = [],
      assignments = [\<lparr>asg_id = 1, asg_batch = 7, assignedBy = 9, dueDate = 1000,
                       totalMarks = 10, submissions = [], asg_isActive = True\<rparr>],
      payments = []\<rparr>"

section \<open>Attendance (models/Attendance.js and the attendance handlers)\<close>

definition attendance_status_enum :: "string list" where
  "attendance_status_enum = [''present'', ''absent'', ''late'', ''excused'']"

definition Attendance_findById :: "db \<Rightarrow> oid \<Rightarrow> attendance option" where
  "Attendance_findById d i = find (\<lambda>a. aid a = i) (attendances d)"

text \<open>
  \<open>new Date(t).setHours(h, m, s)\<close>: hours, minutes and seconds of the day of \<open>t\<close> are
  replaced, the milliseconds are kept. The server's local time is taken to be UTC.
\<close>

definition setHours :: "date \<Rightarrow> int \<Rightarrow> int \<Rightarrow> int \<Rightarrow> date" where
  "setHours t h m s = t - t mod 86400000 + h * 3600000 + m * 60000 + s * 1000 + t mod 1000"

text \<open>The query of the bulk handler for a record of the student in the batch on that day.\<close>

definition Attendance_findOne :: "db \<Rightarrow> oid \<Rightarrow> oid \<Rightarrow> date \<Rightarrow> attendance option" where
  "Attendance_findOne d studentId batchId t =
     find (\<lambda>a. att_student a = studentId \<and> att_batch a = batchId
                \<and> setHours t 0 0 0 \<le> att_date a \<and> att_date a < setHours t 23 59 59)
          (attendances d)"

text \<open>The schema validators: the status enum (a missing status passes) and the length of notes.\<close>

definition validAttendance :: "attendance \<Rightarrow> bool" where
  "validAttendance a =
     ((case att_status a of None \<Rightarrow> True | Some s \<Rightarrow> s \<in> set attendance_status_enum)
      \<and> length (att_notes a) \<le> 500)"

text \<open>The pre-save hook: some batch with that id lists the student.\<close>

definition enrolledInBatch :: "db \<Rightarrow> oid \<Rightarrow> oid \<Rightarrow> bool" where
  "enrolledInBatch d batchId studentId =
     list_ex (\<lambda>b. bid b = batchId \<and> studentId \<in> set (students b)) (batches d)"

text \<open>\<open>save()\<close> of a loaded record: validation, the hook, then the stored record is replaced.\<close>

definition Attendance_save :: "db \<Rightarrow> attendance \<Rightarrow> (error + attendance) \<times> db" where
  "Attendance_save d a =
     (if \<not> validAttendance a then (Inl ValidationError, d)
      else if \<not> enrolledInBatch d (att_batch a) (att_student a)
      then (Inl (PlainError ''Student is not enrolled in this batch''), d)
      else (Inr a, d\<lparr>attendances := map (\<lambda>x. if aid x = aid a then a else x) (attendances d)\<rparr>))"

definition fresh_aid :: "attendance list \<Rightarrow> oid" where
  "fresh_aid xs = Suc (fold max (map aid xs) 0)"

text \<open>
  \<open>Attendance.create\<close>: the status defaults to present, then validation, the hook, and the
  unique index on (student, batch, date).
\<close>

definition Attendance_create ::
  "db \<Rightarrow> oid \<Rightarrow> oid \<Rightarrow> date \<Rightarrow> string option \<Rightarrow> string \<Rightarrow> oid \<Rightarrow> (error + attendance) \<times> db" where
  "Attendance_create d studentId batchId t st notes by =
     (let doc = \<lparr>aid = fresh_aid (attendances d), att_student = studentId, att_batch = batchId,
                 att_date = t,
                 att_status = (case st of None \<Rightarrow> Some ''present'' | Some s \<Rightarrow> Some s),
                 att_notes = notes, markedBy = by\<rparr>
      in if \<not> validAttendance doc then (Inl ValidationError, d)
         else if \<not> enrolledInBatch d batchId studentId
         then (Inl (PlainError ''Student is not enrolled in this batch''), d)
         else if list_ex (\<lambda>a. att_student a = studentId \<and> att_batch a = batchId \<and> att_date a = t)
                   (attendances d)
         then (Inl DuplicateKey, d)
         else (Inr doc, d\<lparr>attendances := attendances d @ [doc]\<rparr>))"

subsection \<open>markMultipleAttendances\<close>

text \<open>An element of the \<open>attendances\<close> array of the request.\<close>

record attendance_entry =
  entry_student :: oid
  entry_status :: "string option"
  entry_notes :: "string option"

text \<open>
  The two kinds of message pushed on \<open>errors\<close>: the student is not in the batch, or
  processing the entry threw.
\<close>

datatype bulk_error = NotInBatch oid | ProcessingError oid error

record bulk_response =
  resp_success :: bool
  resp_data :: "attendance list"
  resp_errors :: "bulk_error list option"

text \<open>
  The body of the loop, on the store and the two lists collected so far. The response's
  \<open>message\<close>, which only repeats the number of errors, is left out of \<open>bulk_response\<close>.
\<close>

definition markOne ::
  "user \<Rightarrow> batch \<Rightarrow> oid \<Rightarrow> date \<Rightarrow> attendance_entry
     \<Rightarrow> db \<times> attendance list \<times> bulk_error list \<Rightarrow> db \<times> attendance list \<times> bulk_error list" where
  "markOne req_user batch batchId t att acc =
     (case acc of (d, results, errors) \<Rightarrow>
        if entry_student att \<notin> set (students batch)
        then (d, results, errors @ [NotInBatch (entry_student att)])
        else
          let notes = (case entry_notes att of None \<Rightarrow> [] | Some n \<Rightarrow> n) in
          (case Attendance_findOne d (entry_student att) batchId t of
             Some existingAttendance \<Rightarrow>
               (case Attendance_save d (existingAttendance\<lparr>att_status := entry_status att,
                         att_notes := notes, markedBy := uid req_user\<rparr>) of
                  (Inl err, d') \<Rightarrow> (d, results, errors @ [ProcessingError (entry_student att) err])
                | (Inr saved, d') \<Rightarrow> (d', results @ [saved], errors))
           | None \<Rightarrow>
               (case Attendance_create d (entry_student att) batchId t (entry_status att) notes
                        (uid req_user) of
                  (Inl err, d') \<Rightarrow> (d, results, errors @ [ProcessingError (entry_student att) err])
                | (Inr newAttendance, d') \<Rightarrow> (d', results @ [newAttendance], errors))))"

text \<open>
  The handler. The date of the body is a number of milliseconds; the guard \<open>!date\<close> holds
  for a missing date and for the number 0, and both are answered with 400 before the batch is
  looked up. An id stands for the string of an ObjectId, which is never falsy, so \<open>!batchId\<close>
  holds for a missing id only; \<open>attendances\<close> is \<open>None\<close> when it is missing or not an array.
\<close>

definition markMultipleAttendances ::
  "db \<Rightarrow> user \<Rightarrow> oid option \<Rightarrow> date option \<Rightarrow> attendance_entry list option
     \<Rightarrow> (error + bulk_response) \<times> db" where
  "markMultipleAttendances d req_user body_batchId body_date body_attendances =
     (case (body_batchId, body_date, body_attendances) of
        (Some batchId, Some t, Some entries) \<Rightarrow>
          if t = 0
          then (Inl (ErrorResponse ''Please provide batchId, date, and an array of attendances'' 400), d)
          else
            (case Batch_findById d batchId of
               None \<Rightarrow> (Inl (ErrorResponse ''Batch not found'' 404), d)
             | Some batch \<Rightarrow>
                 if teacher batch \<noteq> uid req_user \<and> urole req_user \<noteq> Admin
                 then (Inl (ErrorResponse ''Not authorized to mark attendance for this batch'' 403), d)
                 else
                   (case foldl (\<lambda>acc att. markOne req_user batch batchId t att acc) (d, [], []) entries of
                      (d', results, errors) \<Rightarrow>
                        (Inr \<lparr>resp_success = (errors = []), resp_data = results,
                              resp_errors = (if errors \<noteq> [] then Some errors else None)\<rparr>, d')))
      | _ \<Rightarrow> (Inl (ErrorResponse ''Please provide batchId, date, and an array of attendances'' 400), d))"

definition errorsOf :: "bulk_response \<Rightarrow> bulk_error list" where
  "errorsOf r = (case resp_errors r of None \<Rightarrow> [] | Some es \<Rightarrow> es)"

text \<open>
  What it means for a record \<open>r\<close> to record an entry \<open>e\<close> of a bulk request of user \<open>u\<close> for
  batch \<open>b\<close> and date \<open>t\<close>: it is a record of the entry's student in that batch, dated within
  the handler's window for the day of \<open>t\<close>, with the entry's notes (empty when there are none),
  marked by \<open>u\<close>, and with the entry's status, or with present where an entry without status
  has led to a new record.
\<close>

definition entry_recorded :: "user \<Rightarrow> oid \<Rightarrow> date \<Rightarrow> attendance_entry \<Rightarrow> attendance \<Rightarrow> bool" where
  "entry_recorded u b t e r =
     (att_student r = entry_student e \<and> att_batch r = b
      \<and> setHours t 0 0 0 \<le> att_date r \<and> att_date r < setHours t 23 59 59
      \<and> (att_status r = entry_status e
           \<or> (entry_status e = None \<and> att_status r = Some ''present''))
      \<and> att_notes r = (case entry_notes e of None \<Rightarrow> [] | Some n \<Rightarrow> n)
      \<and> markedBy r = uid u)"

text \<open>
  The upsert of an entry \<open>e\<close> against a store \<open>d\<close>: when the query of the handler finds a record
  of the student in the batch on that day, \<open>r\<close> is that record with status and notes of the
  entry and \<open>markedBy\<close> set to the caller, all else (id and date included) as it was; when it
  finds none, \<open>r\<close> is a new record, under an id that no record of \<open>d\<close> has, of the student in
  the batch, dated \<open>t\<close>, with the entry's status (present when it has none), its notes and the
  caller as marker.
\<close>

definition upsert_of_entry :: "db \<Rightarrow> user \<Rightarrow> oid \<Rightarrow> date \<Rightarrow> attendance_entry \<Rightarrow> attendance \<Rightarrow> bool" where
  "upsert_of_entry d u b t e r =
     (case Attendance_findOne d (entry_student e) b t of
        Some existing \<Rightarrow>
          r = existing\<lparr>att_status := entry_status e,
                       att_notes := (case entry_notes e of None \<Rightarrow> [] | Some n \<Rightarrow> n),
                       markedBy := uid u\<rparr>
      | None \<Rightarrow>
          aid r \<notin> set (map aid (attendances d))
          \<and> r = \<lparr>aid = aid r, att_student = entry_student e, att_batch = b, att_date = t,
                  att_status = (case entry_status e of None \<Rightarrow> Some ''present'' | Some s \<Rightarrow> Some s),
                  att_notes = (case entry_notes e of None \<Rightarrow> [] | Some n \<Rightarrow> n),
                  markedBy = uid u\<rparr>)"

subsection \<open>updateAttendance, deleteAttendance\<close>

text \<open>
  The two fields of an update body that the schema validates; the access check of both
  handlers comes before the body is looked at.
\<close>

record attendance_update =
  upd_status :: "string option"
  upd_notes :: "string option"

definition updateAttendance :: "db \<Rightarrow> user \<Rightarrow> oid \<Rightarrow> attendance_update \<Rightarrow> (error + attendance) \<times> db" where
  "updateAttendance d req_user i body =
     (case Attendance_findById d i of
        None \<Rightarrow> (Inl (ErrorResponse ''Attendance not found'' 404), d)
      | Some attendance \<Rightarrow>
          if markedBy attendance \<noteq> uid req_user \<and> urole req_user \<noteq> Admin
          then (Inl (ErrorResponse ''Not authorized to update this attendance record'' 403), d)
          else
            let a' = attendance\<lparr>
                       att_status := (case upd_status body of None \<Rightarrow> att_status attendance
                                                             | Some s \<Rightarrow> Some s),
                       att_notes := (case upd_notes body of None \<Rightarrow> att_notes attendance
                                                           | Some n \<Rightarrow> n)\<rparr>
            in if \<not> validAttendance a' then (Inl ValidationError, d)
               else (Inr a', d\<lparr>attendances := map (\<lambda>x. if aid x = i then a' else x) (attendances d)\<rparr>))"

definition deleteAttendance :: "db \<Rightarrow> user \<Rightarrow> oid \<Rightarrow> (error + unit) \<times> db" where
  "deleteAttendance d req_user i =
     (case Attendance_findById d i of
        None \<Rightarrow> (Inl (ErrorResponse ''Attendance not found'' 404), d)
      | Some attendance \<Rightarrow>
          if markedBy attendance \<noteq> uid req_user \<and> urole req_user \<noteq> Admin
          then (Inl (ErrorResponse ''Not authorized to delete this attendance record'' 403), d)
          else (Inr (), d\<lparr>attendances := filter (\<lambda>x. aid x \<noteq> i) (attendances d)\<rparr>))"

subsection \<open>getStudentAttendanceSummary\<close>

record summary_response =
  sum_total :: nat
  sum_percentage :: int
  sum_student :: oid
  sum_batch :: oid

text \<open>
  After the batch lookup and the access check the handler evaluates
  \<open>mongoose.Types.ObjectId(studentId)\<close> to build its aggregation. The module of the attendance
  handlers requires the Attendance and Batch models, ErrorResponse and asyncHandler only: the
  identifier \<open>mongoose\<close> is not bound there, so evaluating it throws a ReferenceError, and the
  lines after it (the aggregation, the total, the percentage, the response) are never reached.
\<close>

definition getStudentAttendanceSummary :: "db \<Rightarrow> user \<Rightarrow> oid \<Rightarrow> oid \<Rightarrow> error + summary_response" where
  "getStudentAttendanceSummary d req_user studentId batchId =
     (case Batch_findById d batchId of
        None \<Rightarrow> Inl (ErrorResponse ''Batch not found'' 404)
      | Some batch \<Rightarrow>
          if urole req_user = Student \<and> uid req_user \<noteq> studentId \<and> uid req_user \<noteq> teacher batch
          then Inl (ErrorResponse ''Not authorized to view this attendance summary'' 403)
          else Inl (ReferenceError ''mongoose is not defined''))"

text \<open>
  A store with batch 7 of teacher 9, students 1 and 2 enrolled, and four attendance records
  of student 1 in batch 7 marked by teacher 9: three present, one absent.
\<close>

definition attendance_example :: db where
  "attendance_example =
     \<lparr>users = [\<lparr>uid = 1, urole = Student\<rparr>, \<lparr>uid = 2, urole = Student\<rparr>,
               \<lparr>uid = 8, urole = Teacher\<rparr>, \<lparr>uid = 9, urole = Teacher\<rparr>],
      batches = [\<lparr>bid = 7, teacher = 9, students = [1, 2], fee = 100, maxStudents = 30\<rparr>],
      attendances =
        [\<lparr>aid = 1, att_student = 1, att_batch = 7, att_date = 0,
           att_status = Some ''present'', att_notes = [], markedBy = 9\<rparr>,
         \<lparr>aid = 2, att_student = 1, att_batch = 7, att_date = 86400000,
           att_status = Some ''present'', att_notes = [], markedBy = 9\<rparr>,
         \<lparr>aid = 3, att_student = 1, att_batch = 7, att_date = 172800000,
           att_status = Some ''absent'', att_notes = [], markedBy = 9\<rparr>,
         \<lparr>aid = 4, att_student = 1, att_batch = 7, att_date = 259200000,
           att_status = Some ''present'', att_notes = [], markedBy = 9\<rparr>],
      materials = [], assignments = [], payments = []\<rparr>"

section \<open>Further example stores\<close>

text \<open>
  The example store after student 1 has submitted (at time 500) and teacher 9 has graded the
  submission without a mark (at time 600).
\<close>

definition graded_example :: db where
  "graded_example =
     asg_step max_fails
       (asg_step max_fails assignment_example (Submit \<lparr>uid = 1, urole = Student\<rparr> 1 [] None 500))
       (Grade \<lparr>uid = 9, urole = Teacher\<rparr> 1 1 None None 600)"

text \<open>
  The example store before assignment 1 exists, and a create request for it that asks for
  late submissions to be allowed.
\<close>

definition late_store :: db where
  "late_store = assignment_example\<lparr>assignments := []\<rparr>"

definition late_request :: assignment_body where
  "late_request =
     \<lparr>ab_title = Some ''Essay'', ab_batch = Some 7, ab_dueDate = Some 1000,
      ab_totalMarks = Some 10, ab_allowLateSubmission = Some True\<rparr>"

text \<open>
  An entry that the schema validators accept: a status of the enum or none, and notes of at
  most 500 characters.
\<close>

definition validEntry :: "attendance_entry \<Rightarrow> bool" where
  "validEntry e =
     ((case entry_status e of None \<Rightarrow> True | Some s \<Rightarrow> s \<in> set attendance_status_enum)
      \<and> (case entry_notes e of None \<Rightarrow> True | Some n \<Rightarrow> length n \<le> 500))"

text \<open>Users, the batch, a stored record and a request for the attendance examples.\<close>

definition example_admin :: user where
  "example_admin = \<lparr>uid = 50, urole = Admin\<rparr>"

definition example_teacher :: user where
  "example_teacher = \<lparr>uid = 9, urole = Teacher\<rparr>"

definition example_batch :: batch where
  "example_batch = \<lparr>bid = 7, teacher = 9, students = [1, 2], fee = 100, maxStudents = 30\<rparr>"

definition example_record :: attendance where
  "example_record =
     \<lparr>aid = 1, att_student = 1, att_batch = 7, att_date = 0,
      att_status = Some ''present'', att_notes = [], markedBy = 9\<rparr>"

definition example_entries :: "attendance_entry list" where
  "example_entries =
     [\<lparr>entry_student = 1, entry_status = Some ''late'', entry_notes = None\<rparr>,
      \<lparr>entry_student = 5, entry_status = Some ''present'', entry_notes = None\<rparr>,
      \<lparr>entry_student = 2, entry_status = None, entry_notes = None\<rparr>]"

text \<open>
  A store with two batches of teacher 9: batch 7 with two attendance records, a material and
  an assignment, and batch 8 with one attendance record and one material.
\<close>

definition cascade_example :: db where
  "cascade_example =
     \<lparr>users = [\<lparr>uid = 1, urole = Student\<rparr>, \<lparr>uid = 9, urole = Teacher\<rparr>],
      batches = [\<lparr>bid = 7, teacher = 9, students = [1], fee = 100, maxStudents = 30\<rparr>,
                 \<lparr>bid = 8, teacher = 9, students = [1], fee = 50, maxStudents = 30\<rparr>],
      attendances =
        [\<lparr>aid = 1, att_student = 1, att_batch = 7, att_date = 0,
           att_status = Some ''present'', att_notes = [], markedBy = 9\<rparr>,
         \<lparr>aid = 2, att_student = 1, att_batch = 8, att_date = 0,
           att_status = Some ''absent'', att_notes = [], markedBy = 9\<rparr>,
         \<lparr>aid = 3, att_student = 1, att_batch = 7, att_date = 86400000,
           att_status = Some ''late'', att_notes = [], markedBy = 9\<rparr>],
      materials = [\<lparr>mid = 1, mat_batch = 7, uploadedBy = 9, mat_isActive = True\<rparr>,
                   \<lparr>mid = 2, mat_batch = 8, uploadedBy = 9, mat_isActive = False\<rparr>],
      assignments = [\<lparr>asg_id = 1, asg_batch = 7, assignedBy = 9, dueDate = 1000,
                       totalMarks = 10, submissions = [], asg_isActive = True\<rparr>],
      payments = []\<rparr>"

text \<open>
  A store with batch 7 whose \<open>maxStudents\<close> is 3/2, a value that passes the schema's
  \<open>min\<close> of 1, and whose roster is empty.
\<close>

definition fractional_example :: db where
  "fractional_example =
     \<lparr>users = [\<lparr>uid = 1, urole = Student\<rparr>, \<lparr>uid = 2, urole = Student\<rparr>,
               \<lparr>uid = 9, urole = Teacher\<rparr>],
      batches = [\<lparr>bid = 7, teacher = 9, students = [], fee = 100, maxStudents = 3 / 2\<rparr>],
      attendances = [], materials = [], assignments = [], payments = []\<rparr>"

text \<open>
  A store for the end-to-end roster scenario: users 1 and 2, teacher 9, and batch 7 with one
  seat, already taken by user 1.
\<close>

definition roster_example :: db where
  "roster_example =
     \<lparr>users = [\<lparr>uid = 1, urole = Student\<rparr>, \<lparr>uid = 2, urole = Student\<rparr>,
               \<lparr>uid = 9, urole = Teacher\<rparr>],
      batches = [\<lparr>bid = 7, teacher = 9, students = [1], fee = 100, maxStudents = 1\<rparr>],
      attendances = [], materials = [], assignments = [], payments = []\<rparr>"

section \<open>Roster invariant\<close>

lemma find_map_replace:
  assumes "find (\<lambda>x. k x = i) xs = Some y" and "k b = i"
  shows "find (\<lambda>x. k x = i) (map (\<lambda>x. if k x = k b then b else x) xs) = Some b"
  using assms by (induction xs) (auto split: if_splits)

lemma find_map_replace_other:
  assumes "k b \<noteq> i"
  shows "find (\<lambda>x. k x = i) (map (\<lambda>x. if k x = k b then b else x) xs) = find (\<lambda>x. k x = i) xs"
  using assms by (induction xs) auto

lemma find_Some_key: "find (\<lambda>x. k x = i) xs = Some y \<Longrightarrow> k y = i"
  by (induction xs) (auto split: if_splits)

lemma Batch_findById_bid: "Batch_findById d i = Some b \<Longrightarrow> bid b = i"
  unfolding Batch_findById_def by (rule find_Some_key)

lemma Batch_findById_save:
  "Batch_findById d i = Some b \<Longrightarrow> bid b' = i \<Longrightarrow> Batch_findById (Batch_save b' d) i = Some b'"
  unfolding Batch_findById_def Batch_save_def
  using find_map_replace [of bid i "batches d" b b'] by simp

lemma Batch_save_users [simp]: "users (Batch_save b d) = users d"
  by (simp add: Batch_save_def)

lemma whole_capacity_room:
  assumes "m \<in> \<int>" and "(of_nat n :: rat) < m"
  shows "of_nat (Suc n) \<le> m"
proof -
  from assms(1) obtain k where k: "m = of_int k" by (rule Ints_cases)
  from assms(2) have "(of_int (int n) :: rat) < of_int k" unfolding k by simp
  then have "int n < k" by (simp only: of_int_less_iff)
  then have "int (Suc n) \<le> k" by simp
  then have "(of_int (int (Suc n)) :: rat) \<le> of_int k" by (simp only: of_int_le_iff)
  then show ?thesis unfolding k by simp
qed

lemma add_accepted:
  assumes "Batch_findById d i = Some b" "User_findById d s = Some u"
    and "s \<notin> set (students b)" "of_nat (length (students b)) < maxStudents b"
  shows "addStudentToBatch d i (Some s)
           = (Inr (b\<lparr>students := students b @ [s]\<rparr>), Batch_save (b\<lparr>students := students b @ [s]\<rparr>) d)"
    and "Batch_findById (Batch_save (b\<lparr>students := students b @ [s]\<rparr>) d) i
           = Some (b\<lparr>students := students b @ [s]\<rparr>)"
proof -
  have k: "bid b = i" using assms(1) by (rule Batch_findById_bid)
  show "addStudentToBatch d i (Some s)
           = (Inr (b\<lparr>students := students b @ [s]\<rparr>), Batch_save (b\<lparr>students := students b @ [s]\<rparr>) d)"
    using assms by (simp add: addStudentToBatch_def Let_def)
  show "Batch_findById (Batch_save (b\<lparr>students := students b @ [s]\<rparr>) d) i
           = Some (b\<lparr>students := students b @ [s]\<rparr>)"
    using assms(1) k by (simp add: Batch_findById_save)
qed

lemma add_rejected:
  assumes "Batch_findById d i = Some b" "User_findById d s = Some u"
    and "s \<in> set (students b) \<or> of_nat (length (students b)) \<ge> maxStudents b"
  shows "\<exists>m. addStudentToBatch d i (Some s) = (Inl (ErrorResponse m 400), d)"
  using assms by (auto simp: addStudentToBatch_def)

lemma remove_accepted:
  assumes "Batch_findById d i = Some b" "s \<in> set (students b)"
  shows "removeStudentFromBatch d i s
           = (Inr (), Batch_save (b\<lparr>students := filter (\<lambda>x. x \<noteq> s) (students b)\<rparr>) d)"
    and "Batch_findById (Batch_save (b\<lparr>students := filter (\<lambda>x. x \<noteq> s) (students b)\<rparr>) d) i
           = Some (b\<lparr>students := filter (\<lambda>x. x \<noteq> s) (students b)\<rparr>)"
proof -
  have k: "bid b = i" using assms(1) by (rule Batch_findById_bid)
  show "removeStudentFromBatch d i s
           = (Inr (), Batch_save (b\<lparr>students := filter (\<lambda>x. x \<noteq> s) (students b)\<rparr>) d)"
    using assms by (simp add: removeStudentFromBatch_def Let_def)
  show "Batch_findById (Batch_save (b\<lparr>students := filter (\<lambda>x. x \<noteq> s) (students b)\<rparr>) d) i
           = Some (b\<lparr>students := filter (\<lambda>x. x \<noteq> s) (students b)\<rparr>)"
    using assms(1) k by (simp add: Batch_findById_save)
qed

text \<open>
  What one roster call keeps: the batch stays stored with the same \<open>maxStudents\<close>; a roster
  without duplicates stays so; a roster within a whole \<open>maxStudents\<close> stays within it; a
  roster shorter than \<open>maxStudents + 1\<close> stays so.
\<close>

lemma roster_step_keeps:
  assumes "Batch_findById d i = Some b"
  shows "\<exists>b'. Batch_findById (roster_step i d c) i = Some b' \<and> maxStudents b' = maxStudents b
           \<and> (distinct (students b) \<longrightarrow> distinct (students b'))
           \<and> (maxStudents b \<in> \<int> \<and> of_nat (length (students b)) \<le> maxStudents b
                \<longrightarrow> of_nat (length (students b')) \<le> maxStudents b)
           \<and> (of_nat (length (students b)) < maxStudents b + 1
                \<longrightarrow> of_nat (length (students b')) < maxStudents b + 1)"
proof (cases c)
  case (AddStudent so)
  show ?thesis
  proof (cases "\<exists>s u. so = Some s \<and> User_findById d s = Some u \<and> s \<notin> set (students b)
                   \<and> of_nat (length (students b)) < maxStudents b")
    case True
    then obtain s u where s: "so = Some s" "User_findById d s = Some u" "s \<notin> set (students b)"
      "of_nat (length (students b)) < maxStudents b" by blast
    let ?b' = "b\<lparr>students := students b @ [s]\<rparr>"
    from add_accepted [OF assms s(2,3,4)] AddStudent s(1)
    have f: "Batch_findById (roster_step i d c) i = Some ?b'" by simp
    have w: "maxStudents b \<in> \<int> \<longrightarrow> of_nat (Suc (length (students b))) \<le> maxStudents b"
      using whole_capacity_room [of "maxStudents b" "length (students b)"] s(4) by blast
    have l: "of_nat (Suc (length (students b))) < maxStudents b + 1"
      using s(4) by simp
    show ?thesis
      by (rule exI [of _ ?b']) (use f s(3) w l in simp)
  next
    case False
    then have "snd (addStudentToBatch d i so) = d"
      using assms by (auto simp: addStudentToBatch_def split: option.splits)
    with AddStudent assms show ?thesis by simp
  qed
next
  case (RemoveStudent s)
  show ?thesis
  proof (cases "s \<in> set (students b)")
    case True
    let ?b' = "b\<lparr>students := filter (\<lambda>x. x \<noteq> s) (students b)\<rparr>"
    from remove_accepted [OF assms True] RemoveStudent
    have f: "Batch_findById (roster_step i d c) i = Some ?b'" by simp
    have "length (filter (\<lambda>x. x \<noteq> s) (students b)) \<le> length (students b)"
      by (rule length_filter_le)
    then have le: "(of_nat (length (filter (\<lambda>x. x \<noteq> s) (students b))) :: rat)
                     \<le> of_nat (length (students b))"
      by (simp only: of_nat_le_iff)
    have le2: "of_nat (length (students b)) \<le> maxStudents b
                 \<longrightarrow> of_nat (length (filter (\<lambda>x. x \<noteq> s) (students b))) \<le> maxStudents b"
      using le by (meson order_trans)
    have lt2: "of_nat (length (students b)) < maxStudents b + 1
                 \<longrightarrow> of_nat (length (filter (\<lambda>x. x \<noteq> s) (students b))) < maxStudents b + 1"
      using le by (meson le_less_trans)
    show ?thesis
      by (rule exI [of _ ?b']) (use f le2 lt2 in simp)
  next
    case False
    then have "snd (removeStudentFromBatch d i s) = d"
      using assms by (simp add: removeStudentFromBatch_def)
    with RemoveStudent assms show ?thesis by simp
  qed
qed

lemma roster_run_keeps:
  assumes "Batch_findById d i = Some b"
  shows "\<exists>b'. Batch_findById (roster_run i d cs) i = Some b' \<and> maxStudents b' = maxStudents b
           \<and> (distinct (students b) \<longrightarrow> distinct (students b'))
           \<and> (maxStudents b \<in> \<int> \<and> of_nat (length (students b)) \<le> maxStudents b
                \<longrightarrow> of_nat (length (students b')) \<le> maxStudents b)
           \<and> (of_nat (length (students b)) < maxStudents b + 1
                \<longrightarrow> of_nat (length (students b')) < maxStudents b + 1)"
  using assms unfolding roster_run_def
proof (induction cs arbitrary: d b)
  case Nil
  then show ?case by simp
next
  case (Cons c cs)
  from roster_step_keeps [OF Cons.prems, of c]
  obtain b1 where b1: "Batch_findById (roster_step i d c) i = Some b1"
    "maxStudents b1 = maxStudents b"
    "distinct (students b) \<longrightarrow> distinct (students b1)"
    "maxStudents b \<in> \<int> \<and> of_nat (length (students b)) \<le> maxStudents b
                \<longrightarrow> of_nat (length (students b1)) \<le> maxStudents b"
    "of_nat (length (students b)) < maxStudents b + 1
                \<longrightarrow> of_nat (length (students b1)) < maxStudents b + 1"
    by blast
  from Cons.IH [OF b1(1)]
  obtain b' where b': "Batch_findById (foldl (roster_step i) (roster_step i d c) cs) i = Some b'"
    "maxStudents b' = maxStudents b1"
    "distinct (students b1) \<longrightarrow> distinct (students b')"
    "maxStudents b1 \<in> \<int> \<and> of_nat (length (students b1)) \<le> maxStudents b1
                \<longrightarrow> of_nat (length (students b')) \<le> maxStudents b1"
    "of_nat (length (students b1)) < maxStudents b1 + 1
                \<longrightarrow> of_nat (length (students b')) < maxStudents b1 + 1"
    by blast
  show ?case
    by (rule exI [of _ b']) (use b1 b' in simp)
qed

lemma remove_then_add:
  assumes "Batch_findById d i = Some b" "of_nat (length (students b)) \<le> maxStudents b"
    and "s \<in> set (students b)" "User_findById d t = Some u" "t = s \<or> t \<notin> set (students b)"
  shows "addStudentToBatch (snd (removeStudentFromBatch d i s)) i (Some t)
            = (Inr (b\<lparr>students := filter (\<lambda>x. x \<noteq> s) (students b) @ [t]\<rparr>),
               Batch_save (b\<lparr>students := filter (\<lambda>x. x \<noteq> s) (students b) @ [t]\<rparr>)
                 (snd (removeStudentFromBatch d i s)))"
    and "Batch_findById
           (Batch_save (b\<lparr>students := filter (\<lambda>x. x \<noteq> s) (students b) @ [t]\<rparr>)
              (snd (removeStudentFromBatch d i s))) i
            = Some (b\<lparr>students := filter (\<lambda>x. x \<noteq> s) (students b) @ [t]\<rparr>)"
proof -
  let ?b1 = "b\<lparr>students := filter (\<lambda>x. x \<noteq> s) (students b)\<rparr>"
  let ?d1 = "snd (removeStudentFromBatch d i s)"
  from remove_accepted [OF assms(1,3)]
  have d1: "?d1 = Batch_save ?b1 d" and f1: "Batch_findById ?d1 i = Some ?b1" by simp_all
  have u1: "User_findById ?d1 t = Some u"
    using assms(4) by (simp add: d1 User_findById_def)
  have "length (filter (\<lambda>x. x \<noteq> s) (students b)) < length (students b)"
    using assms(3) by (simp add: length_filter_less)
  then have "(of_nat (length (filter (\<lambda>x. x \<noteq> s) (students b))) :: rat) < of_nat (length (students b))"
    by (simp only: of_nat_less_iff)
  with assms(2) have room: "of_nat (length (students ?b1)) < maxStudents ?b1" by simp
  have fresh: "t \<notin> set (students ?b1)" using assms(5) by auto
  from add_accepted [OF f1 u1 fresh room]
  show "addStudentToBatch ?d1 i (Some t)
            = (Inr (b\<lparr>students := filter (\<lambda>x. x \<noteq> s) (students b) @ [t]\<rparr>),
               Batch_save (b\<lparr>students := filter (\<lambda>x. x \<noteq> s) (students b) @ [t]\<rparr>) ?d1)"
    and "Batch_findById
           (Batch_save (b\<lparr>students := filter (\<lambda>x. x \<noteq> s) (students b) @ [t]\<rparr>) ?d1) i
            = Some (b\<lparr>students := filter (\<lambda>x. x \<noteq> s) (students b) @ [t]\<rparr>)"
    by simp_all
qed

text \<open>
  C4 (amended). For a stored batch whose roster has no duplicate: after every sequence of
  add-student and remove-student calls the batch is stored with the same \<open>maxStudents\<close> and a
  roster without duplicates; when \<open>maxStudents\<close> is a whole number and the roster started with
  at most \<open>maxStudents\<close> entries, it still has at most \<open>maxStudents\<close> entries; for any
  \<open>maxStudents\<close>, a roster that started with fewer than \<open>maxStudents + 1\<close> entries still has
  fewer than \<open>maxStudents + 1\<close>. Adding a known user is answered with status 400, the store
  left as it was, when that user is already enrolled or the roster has \<open>maxStudents\<close> entries
  or more; otherwise the user is appended to the roster and the batch is saved with it.
  Removing an enrolled student saves the batch without that student, and on a roster that
  was within \<open>maxStudents\<close> a following add of a known user who is not on the remaining
  roster is accepted and saved.
\<close>

theorem roster_no_duplicates_within_capacity:
  assumes "Batch_findById d i = Some b" and "distinct (students b)"
  shows "(\<exists>b'. Batch_findById (roster_run i d cs) i = Some b' \<and> maxStudents b' = maxStudents b
            \<and> distinct (students b')
            \<and> (maxStudents b \<in> \<int> \<and> of_nat (length (students b)) \<le> maxStudents b
                 \<longrightarrow> of_nat (length (students b')) \<le> maxStudents b')
            \<and> (of_nat (length (students b)) < maxStudents b + 1
                 \<longrightarrow> of_nat (length (students b')) < maxStudents b' + 1))
       \<and> (\<forall>s u. User_findById d s = Some u
                 \<and> (s \<in> set (students b) \<or> of_nat (length (students b)) \<ge> maxStudents b)
              \<longrightarrow> (\<exists>m. addStudentToBatch d i (Some s) = (Inl (ErrorResponse m 400), d)))
       \<and> (\<forall>s u. User_findById d s = Some u \<and> s \<notin> set (students b)
                 \<and> of_nat (length (students b)) < maxStudents b
              \<longrightarrow> addStudentToBatch d i (Some s)
                    = (Inr (b\<lparr>students := students b @ [s]\<rparr>),
                       Batch_save (b\<lparr>students := students b @ [s]\<rparr>) d)
                \<and> Batch_findById (Batch_save (b\<lparr>students := students b @ [s]\<rparr>) d) i
                    = Some (b\<lparr>students := students b @ [s]\<rparr>))
       \<and> (\<forall>s. s \<in> set (students b)
              \<longrightarrow> removeStudentFromBatch d i s
                    = (Inr (), Batch_save (b\<lparr>students := filter (\<lambda>x. x \<noteq> s) (students b)\<rparr>) d)
                \<and> Batch_findById
                      (Batch_save (b\<lparr>students := filter (\<lambda>x. x \<noteq> s) (students b)\<rparr>) d) i
                    = Some (b\<lparr>students := filter (\<lambda>x. x \<noteq> s) (students b)\<rparr>))
       \<and> (\<forall>s t u. of_nat (length (students b)) \<le> maxStudents b \<and> s \<in> set (students b)
                 \<and> User_findById d t = Some u \<and> (t = s \<or> t \<notin> set (students b))
              \<longrightarrow> addStudentToBatch (snd (removeStudentFromBatch d i s)) i (Some t)
                    = (Inr (b\<lparr>students := filter (\<lambda>x. x \<noteq> s) (students b) @ [t]\<rparr>),
                       Batch_save (b\<lparr>students := filter (\<lambda>x. x \<noteq> s) (students b) @ [t]\<rparr>)
                         (snd (removeStudentFromBatch d i s)))
                \<and> Batch_findById
                      (Batch_save (b\<lparr>students := filter (\<lambda>x. x \<noteq> s) (students b) @ [t]\<rparr>)
                         (snd (removeStudentFromBatch d i s))) i
                    = Some (b\<lparr>students := filter (\<lambda>x. x \<noteq> s) (students b) @ [t]\<rparr>))"
proof -
  from roster_run_keeps [OF assms(1), of cs] assms(2)
  obtain b0 where b0: "Batch_findById (roster_run i d cs) i = Some b0"
    "maxStudents b0 = maxStudents b" "distinct (students b0)"
    "maxStudents b \<in> \<int> \<and> of_nat (length (students b)) \<le> maxStudents b
                 \<longrightarrow> of_nat (length (students b0)) \<le> maxStudents b"
    "of_nat (length (students b)) < maxStudents b + 1
                 \<longrightarrow> of_nat (length (students b0)) < maxStudents b + 1"
    by blast
  have c1: "\<exists>b'. Batch_findById (roster_run i d cs) i = Some b' \<and> maxStudents b' = maxStudents b
            \<and> distinct (students b')
            \<and> (maxStudents b \<in> \<int> \<and> of_nat (length (students b)) \<le> maxStudents b
                 \<longrightarrow> of_nat (length (students b')) \<le> maxStudents b')
            \<and> (of_nat (length (students b)) < maxStudents b + 1
                 \<longrightarrow> of_nat (length (students b')) < maxStudents b' + 1)"
    by (rule exI [of _ b0]) (use b0 in simp)
  have c2: "\<forall>s u. User_findById d s = Some u
                 \<and> (s \<in> set (students b) \<or> of_nat (length (students b)) \<ge> maxStudents b)
              \<longrightarrow> (\<exists>m. addStudentToBatch d i (Some s) = (Inl (ErrorResponse m 400), d))"
    using add_rejected [OF assms(1)] by blast
  have c3: "\<forall>s u. User_findById d s = Some u \<and> s \<notin> set (students b)
                 \<and> of_nat (length (students b)) < maxStudents b
              \<longrightarrow> addStudentToBatch d i (Some s)
                    = (Inr (b\<lparr>students := students b @ [s]\<rparr>),
                       Batch_save (b\<lparr>students := students b @ [s]\<rparr>) d)
                \<and> Batch_findById (Batch_save (b\<lparr>students := students b @ [s]\<rparr>) d) i
                    = Some (b\<lparr>students := students b @ [s]\<rparr>)"
    using add_accepted [OF assms(1)] by blast
  have c4: "\<forall>s. s \<in> set (students b)
              \<longrightarrow> removeStudentFromBatch d i s
                    = (Inr (), Batch_save (b\<lparr>students := filter (\<lambda>x. x \<noteq> s) (students b)\<rparr>) d)
                \<and> Batch_findById
                      (Batch_save (b\<lparr>students := filter (\<lambda>x. x \<noteq> s) (students b)\<rparr>) d) i
                    = Some (b\<lparr>students := filter (\<lambda>x. x \<noteq> s) (students b)\<rparr>)"
    using remove_accepted [OF assms(1)] by blast
  have c5: "\<forall>s t u. of_nat (length (students b)) \<le> maxStudents b \<and> s \<in> set (students b)
                 \<and> User_findById d t = Some u \<and> (t = s \<or> t \<notin> set (students b))
              \<longrightarrow> addStudentToBatch (snd (removeStudentFromBatch d i s)) i (Some t)
                    = (Inr (b\<lparr>students := filter (\<lambda>x. x \<noteq> s) (students b) @ [t]\<rparr>),
                       Batch_save (b\<lparr>students := filter (\<lambda>x. x \<noteq> s) (students b) @ [t]\<rparr>)
                         (snd (removeStudentFromBatch d i s)))
                \<and> Batch_findById
                      (Batch_save (b\<lparr>students := filter (\<lambda>x. x \<noteq> s) (students b) @ [t]\<rparr>)
                         (snd (removeStudentFromBatch d i s))) i
                    = Some (b\<lparr>students := filter (\<lambda>x. x \<noteq> s) (students b) @ [t]\<rparr>)"
    using remove_then_add [OF assms(1)] by blast
  from c1 c2 c3 c4 c5 show ?thesis by (intro conjI)
qed

text \<open>
  The scenario of the specification on a batch with one seat held by user 1: adding user 2
  fails with "Batch is full"; after removing user 1, adding user 2 succeeds and the stored
  roster is user 2 alone.
\<close>

theorem roster_no_duplicates_within_capacity_witness:
  "Batch_findById roster_example 7
       = Some \<lparr>bid = 7, teacher = 9, students = [1], fee = 100, maxStudents = 1\<rparr>
   \<and> roster_ok \<lparr>bid = 7, teacher = 9, students = [1], fee = 100, maxStudents = 1\<rparr>
   \<and> (1 :: rat) \<in> \<int>
   \<and> User_findById roster_example 2 = Some \<lparr>uid = 2, urole = Student\<rparr>
   \<and> (\<exists>b'. Batch_findById
             (roster_run 7 roster_example [AddStudent (Some 2), RemoveStudent 1, AddStudent (Some 2)]) 7
             = Some b' \<and> roster_ok b')
   \<and> (\<exists>m. addStudentToBatch roster_example 7 (Some 2) = (Inl (ErrorResponse m 400), roster_example))
   \<and> fst (addStudentToBatch (snd (removeStudentFromBatch roster_example 7 1)) 7 (Some 2))
        = Inr \<lparr>bid = 7, teacher = 9, students = [2], fee = 100, maxStudents = 1\<rparr>
   \<and> Batch_findById
        (snd (addStudentToBatch (snd (removeStudentFromBatch roster_example 7 1)) 7 (Some 2))) 7
        = Some \<lparr>bid = 7, teacher = 9, students = [2], fee = 100, maxStudents = 1\<rparr>"
proof -
  let ?b = "\<lparr>bid = 7, teacher = 9, students = [1::nat], fee = 100, maxStudents = 1\<rparr>"
  let ?cs = "[AddStudent (Some 2), RemoveStudent 1, AddStudent (Some 2)]"
  have h1: "Batch_findById roster_example 7 = Some ?b"
    by (simp add: Batch_findById_def roster_example_def)
  have h2: "distinct (students ?b)" by simp
  have ok: "roster_ok ?b" by (simp add: roster_ok_def)
  have w: "(1 :: rat) \<in> \<int>" by simp
  have h3: "User_findById roster_example 2 = Some \<lparr>uid = 2, urole = Student\<rparr>"
    by (simp add: User_findById_def roster_example_def)
  note t = roster_no_duplicates_within_capacity [OF h1 h2, of ?cs]
  from t obtain b' where b': "Batch_findById (roster_run 7 roster_example ?cs) 7 = Some b'"
    "maxStudents b' = maxStudents ?b" "distinct (students b')"
    "maxStudents ?b \<in> \<int> \<and> of_nat (length (students ?b)) \<le> maxStudents ?b
                 \<longrightarrow> of_nat (length (students b')) \<le> maxStudents b'"
    by blast
  from b'(4) have "of_nat (length (students b')) \<le> maxStudents b'" by simp
  with b'(1,3) have a: "\<exists>b'. Batch_findById (roster_run 7 roster_example ?cs) 7 = Some b' \<and> roster_ok b'"
    by (auto simp: roster_ok_def)
  from t h3 have b: "\<exists>m. addStudentToBatch roster_example 7 (Some 2)
          = (Inl (ErrorResponse m 400), roster_example)"
    by simp
  from t have "\<forall>s t u. of_nat (length (students ?b)) \<le> maxStudents ?b \<and> s \<in> set (students ?b)
                 \<and> User_findById roster_example t = Some u \<and> (t = s \<or> t \<notin> set (students ?b))
              \<longrightarrow> addStudentToBatch (snd (removeStudentFromBatch roster_example 7 s)) 7 (Some t)
                    = (Inr (?b\<lparr>students := filter (\<lambda>x. x \<noteq> s) (students ?b) @ [t]\<rparr>),
                       Batch_save (?b\<lparr>students := filter (\<lambda>x. x \<noteq> s) (students ?b) @ [t]\<rparr>)
                         (snd (removeStudentFromBatch roster_example 7 s)))
                \<and> Batch_findById
                      (Batch_save (?b\<lparr>students := filter (\<lambda>x. x \<noteq> s) (students ?b) @ [t]\<rparr>)
                         (snd (removeStudentFromBatch roster_example 7 s))) 7
                    = Some (?b\<lparr>students := filter (\<lambda>x. x \<noteq> s) (students ?b) @ [t]\<rparr>)"
    by blast
  from this [rule_format, of 1 2 "\<lparr>uid = 2, urole = Student\<rparr>"] h3
  have c: "fst (addStudentToBatch (snd (removeStudentFromBatch roster_example 7 1)) 7 (Some 2))
        = Inr \<lparr>bid = 7, teacher = 9, students = [2], fee = 100, maxStudents = 1\<rparr>"
    and e: "Batch_findById
        (snd (addStudentToBatch (snd (removeStudentFromBatch roster_example 7 1)) 7 (Some 2))) 7
        = Some \<lparr>bid = 7, teacher = 9, students = [2], fee = 100, maxStudents = 1\<rparr>"
    by simp_all
  from h1 ok w h3 a b c e show ?thesis by blast
qed

text \<open>
  With \<open>maxStudents = 3/2\<close> both users are added, the second because a roster of one is not
  yet \<open>\<ge> 3/2\<close>: the stored roster has two entries, more than \<open>maxStudents\<close>.
\<close>

theorem fractional_capacity_counterexample:
  "Batch_findById fractional_example 7
       = Some \<lparr>bid = 7, teacher = 9, students = [], fee = 100, maxStudents = 3 / 2\<rparr>
   \<and> (1 :: rat) \<le> 3 / 2
   \<and> Batch_findById
        (roster_run 7 fractional_example [AddStudent (Some 1), AddStudent (Some 2)]) 7
       = Some \<lparr>bid = 7, teacher = 9, students = [1, 2], fee = 100, maxStudents = 3 / 2\<rparr>
   \<and> \<not> (of_nat (length [1 :: oid, 2]) \<le> (3 / 2 :: rat))"
  by (simp add: fractional_example_def roster_run_def addStudentToBatch_def Batch_findById_def
        User_findById_def Batch_save_def Let_def)

section \<open>Cascade on batch deletion\<close>

lemma filter_filter_neg: "filter (\<lambda>x. k x = i) (filter (\<lambda>x. k x \<noteq> i) xs) = []"
  by (induction xs) auto

lemma find_filter_neg: "find (\<lambda>x. k x = i) (filter (\<lambda>x. k x \<noteq> i) xs) = None"
  by (induction xs) auto

text \<open>
  C8. When deleteBatch succeeds for a batch, the store it leaves holds no attendance record,
  no material and no assignment whose batch reference is that batch, so each query by that
  batch id returns the empty list; the batch itself is gone, and the records of every other
  batch are kept as they were.
\<close>

theorem deleteBatch_cascades:
  assumes "deleteBatch d req_user i = (Inr (), d')"
  shows "Attendance_findByBatch d' i = [] \<and> Material_findByBatch d' i = []
       \<and> Assignment_findByBatch d' i = [] \<and> Batch_findById d' i = None
       \<and> attendances d' = filter (\<lambda>a. att_batch a \<noteq> i) (attendances d)
       \<and> materials d' = filter (\<lambda>m. mat_batch m \<noteq> i) (materials d)
       \<and> assignments d' = filter (\<lambda>a. asg_batch a \<noteq> i) (assignments d)"
proof -
  from assms obtain b where b: "Batch_findById d i = Some b" and d': "d' = Batch_remove b d"
    by (auto simp: deleteBatch_def split: option.splits if_splits)
  have k: "bid b = i" using b by (rule Batch_findById_bid)
  have a: "attendances d' = filter (\<lambda>a. att_batch a \<noteq> i) (attendances d)"
    and m: "materials d' = filter (\<lambda>m. mat_batch m \<noteq> i) (materials d)"
    and g: "assignments d' = filter (\<lambda>a. asg_batch a \<noteq> i) (assignments d)"
    and bs: "batches d' = filter (\<lambda>x. bid x \<noteq> i) (batches d)"
    using k by (simp_all add: d' Batch_remove_def Batch_pre_remove_def Let_def)
  have "Attendance_findByBatch d' i = []"
    unfolding Attendance_findByBatch_def a by (rule filter_filter_neg)
  moreover have "Material_findByBatch d' i = []"
    unfolding Material_findByBatch_def m by (rule filter_filter_neg)
  moreover have "Assignment_findByBatch d' i = []"
    unfolding Assignment_findByBatch_def g by (rule filter_filter_neg)
  moreover have "Batch_findById d' i = None"
    unfolding Batch_findById_def bs by (rule find_filter_neg)
  ultimately show ?thesis using a m g by simp
qed

text \<open>Teacher 9 deletes batch 7: its four dependent records go, those of batch 8 stay.\<close>

theorem deleteBatch_cascades_witness:
  "fst (deleteBatch cascade_example \<lparr>uid = 9, urole = Teacher\<rparr> 7) = Inr ()
   \<and> length (Attendance_findByBatch cascade_example 7) = 2
   \<and> Attendance_findByBatch (snd (deleteBatch cascade_example \<lparr>uid = 9, urole = Teacher\<rparr> 7)) 7 = []
   \<and> Material_findByBatch (snd (deleteBatch cascade_example \<lparr>uid = 9, urole = Teacher\<rparr> 7)) 7 = []
   \<and> Assignment_findByBatch (snd (deleteBatch cascade_example \<lparr>uid = 9, urole = Teacher\<rparr> 7)) 7 = []
   \<and> map aid (attendances (snd (deleteBatch cascade_example \<lparr>uid = 9, urole = Teacher\<rparr> 7))) = [2]"
proof -
  let ?r = "deleteBatch cascade_example \<lparr>uid = 9, urole = Teacher\<rparr> 7"
  have ok: "fst ?r = Inr ()"
    by (simp add: deleteBatch_def Batch_findById_def cascade_example_def)
  then have h: "?r = (Inr (), snd ?r)"
    by (metis prod.collapse)
  have n: "length (Attendance_findByBatch cascade_example 7) = 2"
    by (simp add: Attendance_findByBatch_def cascade_example_def)
  have keep: "map aid (filter (\<lambda>a. att_batch a \<noteq> 7) (attendances cascade_example)) = [2]"
    by (simp add: cascade_example_def)
  from deleteBatch_cascades [OF h] ok n keep show ?thesis by simp
qed

section \<open>Payments: one record per triple, completed on creation\<close>

lemma Payment_create_Inr:
  assumes "Payment_create d r y body = (Inr p, d')"
  shows "d' = d\<lparr>payments := payments d @ [p]\<rparr>
       \<and> body_student body = Some (pay_student p) \<and> body_batch body = Some (pay_batch p)
       \<and> body_month body = Some (month p) \<and> body_amount body = Some (amount p)
       \<and> body_paymentMethod body = Some (paymentMethod p)
       \<and> paymentMethod p \<in> set paymentMethod_enum
       \<and> pay_status p = (case body_status body of None \<Rightarrow> ''pending'' | Some x \<Rightarrow> x)
       \<and> \<not> (\<exists>q \<in> set (payments d). pay_student q = pay_student p \<and> pay_batch q = pay_batch p
                 \<and> month q = month p)"
  using assms unfolding Payment_create_def
  by (auto simp: Let_def split: option.splits if_splits)

lemma Payment_create_Inl:
  assumes "Payment_create d r y body = (Inl e, d')"
  shows "d' = d"
  using assms unfolding Payment_create_def
  by (auto simp: Let_def split: option.splits if_splits)

lemma createPayment_Inl:
  assumes "createPayment d u y body = (Inl e, d')"
  shows "d' = d"
  using assms unfolding createPayment_def
  by (auto simp: Let_def split: option.splits if_splits dest: Payment_create_Inl)

lemma online_not_in_enum: "''online'' \<notin> set paymentMethod_enum"
  by (simp add: paymentMethod_enum_def)

lemma createPayment_Inr:
  assumes "createPayment d u y body = (Inr p, d')"
  shows "\<exists>b. Batch_findById d (pay_batch p) = Some b \<and> pay_student p \<in> set (students b)
          \<and> body_student body = Some (pay_student p) \<and> body_batch body = Some (pay_batch p)
          \<and> body_month body = Some (month p)
          \<and> (body_amount body = None \<longrightarrow> amount p = fee b)
          \<and> pay_status p = ''completed''
          \<and> paymentMethod p \<in> set paymentMethod_enum
          \<and> body_paymentMethod body = Some (paymentMethod p)
          \<and> d' = d\<lparr>payments := payments d @ [p]\<rparr>
          \<and> \<not> (\<exists>q \<in> set (payments d). pay_student q = pay_student p \<and> pay_batch q = pay_batch p
                 \<and> month q = month p)"
proof -
  from assms obtain bb b where bb: "body_batch body = Some bb"
    and b: "Batch_findById d bb = Some b"
    by (auto simp: createPayment_def split: option.splits)
  from assms bb b obtain s where s: "body_student body = Some s" "s \<in> set (students b)"
    by (auto simp: createPayment_def split: option.splits if_splits)
  let ?body1 = "(if body_amount body = None \<or> body_amount body = Some 0
                 then body\<lparr>body_amount := Some (fee b)\<rparr> else body)"
  let ?body2 = "(if body_paymentMethod body \<noteq> Some ''online''
                 then ?body1\<lparr>body_status := Some ''completed''\<rparr> else ?body1)"
  from assms bb b s have pc: "Payment_create d (uid u) y ?body2 = (Inr p, d')"
    by (auto simp: createPayment_def Let_def split: option.splits if_splits)
  note r = Payment_create_Inr [OF pc]
  have pm: "body_paymentMethod ?body2 = body_paymentMethod body" by simp
  from r pm online_not_in_enum have notonline: "body_paymentMethod body \<noteq> Some ''online''"
    by auto
  from r notonline have st: "pay_status p = ''completed''" by simp
  from r have tr: "body_student body = Some (pay_student p)" "body_batch body = Some (pay_batch p)"
     "body_month body = Some (month p)"
    by (auto split: if_splits)
  from r have am: "body_amount body = None \<longrightarrow> amount p = fee b"
    by (auto split: if_splits)
  from tr bb b have b': "Batch_findById d (pay_batch p) = Some b" by simp
  from tr s have s': "pay_student p \<in> set (students b)" by simp
  from r have d': "d' = d\<lparr>payments := payments d @ [p]\<rparr>"
    and en: "paymentMethod p \<in> set paymentMethod_enum"
    and pmp: "body_paymentMethod body = Some (paymentMethod p)"
    and nq: "\<not> (\<exists>q \<in> set (payments d). pay_student q = pay_student p \<and> pay_batch q = pay_batch p
                 \<and> month q = month p)"
    by (auto split: if_splits)
  show ?thesis
    by (rule exI [of _ b]) (use b' s' tr am st d' en pmp nq in simp)
qed


lemma existing_triple_rejected:
  assumes "\<exists>q \<in> set (payments d). body_student body = Some (pay_student q)
             \<and> body_batch body = Some (pay_batch q) \<and> body_month body = Some (month q)"
  shows "\<exists>m. createPayment d u y body = (Inl (ErrorResponse m 400), d)"
proof -
  from assms have "Payment_findOne d (body_student body) (body_batch body) (body_month body) \<noteq> None"
    unfolding Payment_findOne_def find_None_iff by auto
  then show ?thesis
    by (auto simp: createPayment_def)
qed

text \<open>
  C6. Starting from a payment collection with at most one record per (student, batch, month),
  a create request leaves at most one record per triple. A create request whose triple
  already has a record is rejected with status 400 and the store is left as it was; in
  particular a second attempt after a successful create is rejected, since the created record
  carries the triple of its request. When the request omits the amount, the created record's
  amount is the fee of the batch as stored when the request is handled.
\<close>

theorem payment_unique_per_triple:
  assumes "triple_unique (payments d)" and "createPayment d u y body = (r, d')"
  shows "triple_unique (payments d')
    \<and> (\<forall>u2 y2 body2.
          (\<exists>q \<in> set (payments d'). body_student body2 = Some (pay_student q)
              \<and> body_batch body2 = Some (pay_batch q) \<and> body_month body2 = Some (month q))
          \<longrightarrow> (\<exists>m. createPayment d' u2 y2 body2 = (Inl (ErrorResponse m 400), d')))
    \<and> (\<forall>p. r = Inr p \<longrightarrow> p \<in> set (payments d') \<and> body_student body = Some (pay_student p)
              \<and> body_batch body = Some (pay_batch p) \<and> body_month body = Some (month p))
    \<and> (\<forall>p. r = Inr p \<and> body_amount body = None
          \<longrightarrow> (\<exists>b. Batch_findById d (pay_batch p) = Some b \<and> amount p = fee b))"
proof -
  have c1: "triple_unique (payments d')"
  proof (cases r)
    case (Inl e)
    with assms(2) have "d' = d" using createPayment_Inl by blast
    with assms(1) show ?thesis by simp
  next
    case (Inr p)
    with assms(2) createPayment_Inr [of d u y body p d']
    have d': "d' = d\<lparr>payments := payments d @ [p]\<rparr>"
      and nq: "\<not> (\<exists>q \<in> set (payments d). pay_student q = pay_student p
                 \<and> pay_batch q = pay_batch p \<and> month q = month p)"
      by auto
    from nq have "(pay_student p, pay_batch p, month p)
        \<notin> set (map (\<lambda>p. (pay_student p, pay_batch p, month p)) (payments d))"
      by auto
    with assms(1) show ?thesis
      by (simp add: d' triple_unique_def)
  qed
  have c2: "\<forall>u2 y2 body2.
          (\<exists>q \<in> set (payments d'). body_student body2 = Some (pay_student q)
              \<and> body_batch body2 = Some (pay_batch q) \<and> body_month body2 = Some (month q))
          \<longrightarrow> (\<exists>m. createPayment d' u2 y2 body2 = (Inl (ErrorResponse m 400), d'))"
    using existing_triple_rejected by blast
  have c3: "\<forall>p. r = Inr p \<longrightarrow> p \<in> set (payments d') \<and> body_student body = Some (pay_student p)
              \<and> body_batch body = Some (pay_batch p) \<and> body_month body = Some (month p)"
    using assms(2) createPayment_Inr [of d u y body _ d'] by auto
  have c4: "\<forall>p. r = Inr p \<and> body_amount body = None
          \<longrightarrow> (\<exists>b. Batch_findById d (pay_batch p) = Some b \<and> amount p = fee b)"
    using assms(2) createPayment_Inr [of d u y body _ d'] by auto
  from c1 c2 c3 c4 show ?thesis by (intro conjI)
qed

lemma payment_example_created:
  "createPayment payment_example \<lparr>uid = 9, urole = Teacher\<rparr> 2024 payment_request
     = (Inr payment_example_doc, payment_example\<lparr>payments := [payment_example_doc]\<rparr>)"
proof -
  have five: "replicate 5 (CHR ''0'') = ''00000''"
    by (simp add: numeral_eq_Suc)
  show ?thesis
    by (simp add: createPayment_def Payment_findOne_def payment_example_def payment_request_def
        Batch_findById_def Payment_create_def paymentMethod_enum_def payment_status_enum_def
        validMonth_def isDigit_def fresh_pid_def newReceiptNumber_def padStart6_def Let_def five
        payment_example_doc_def)
qed

text \<open>
  The example request (no amount, method cash) creates a payment of 100, the fee of batch 7;
  repeating the triple, whatever the amount and the year, is answered with status 400.
\<close>

theorem payment_unique_per_triple_witness:
  "triple_unique (payments payment_example)
   \<and> createPayment payment_example \<lparr>uid = 9, urole = Teacher\<rparr> 2024 payment_request
        = (Inr payment_example_doc, payment_example\<lparr>payments := [payment_example_doc]\<rparr>)
   \<and> body_amount payment_request = None \<and> amount payment_example_doc = 100
   \<and> triple_unique [payment_example_doc]
   \<and> (\<exists>m. createPayment (payment_example\<lparr>payments := [payment_example_doc]\<rparr>)
              \<lparr>uid = 9, urole = Teacher\<rparr> 2025 (payment_request\<lparr>body_amount := Some 5\<rparr>)
            = (Inl (ErrorResponse m 400), payment_example\<lparr>payments := [payment_example_doc]\<rparr>))"
proof -
  have h1: "triple_unique (payments payment_example)"
    by (simp add: triple_unique_def payment_example_def)
  note t = payment_unique_per_triple [OF h1 payment_example_created]
  from t have u: "triple_unique [payment_example_doc]" by simp
  have q: "\<exists>q \<in> set (payments (payment_example\<lparr>payments := [payment_example_doc]\<rparr>)).
             body_student (payment_request\<lparr>body_amount := Some 5\<rparr>) = Some (pay_student q)
           \<and> body_batch (payment_request\<lparr>body_amount := Some 5\<rparr>) = Some (pay_batch q)
           \<and> body_month (payment_request\<lparr>body_amount := Some 5\<rparr>) = Some (month q)"
    by (simp add: payment_request_def payment_example_doc_def)
  from t q have r: "\<exists>m. createPayment (payment_example\<lparr>payments := [payment_example_doc]\<rparr>)
              \<lparr>uid = 9, urole = Teacher\<rparr> 2025 (payment_request\<lparr>body_amount := Some 5\<rparr>)
            = (Inl (ErrorResponse m 400), payment_example\<lparr>payments := [payment_example_doc]\<rparr>)"
    by blast
  have a: "body_amount payment_request = None" "amount payment_example_doc = 100"
    by (simp_all add: payment_request_def payment_example_doc_def)
  from h1 payment_example_created a u r show ?thesis by blast
qed

text \<open>
  C9. Every payment that createPayment creates has status completed: a successful call
  appends exactly one record and that record is completed, so the only records of the
  resulting collection that may be in another status are those that were there before.
  The method online is not in the paymentMethod enum, and a request that names it is
  answered with an error and leaves the store as it was.
\<close>

theorem created_payment_completed:
  "(\<forall>p d'. createPayment d u y body = (Inr p, d')
        \<longrightarrow> pay_status p = ''completed'' \<and> payments d' = payments d @ [p])
   \<and> (\<forall>r d'. createPayment d u y body = (r, d')
        \<longrightarrow> (\<forall>q \<in> set (payments d'). q \<in> set (payments d) \<or> pay_status q = ''completed''))
   \<and> ''online'' \<notin> set paymentMethod_enum
   \<and> (body_paymentMethod body = Some ''online'' \<longrightarrow> (\<exists>e. createPayment d u y body = (Inl e, d)))"
proof -
  have c1: "\<forall>p d'. createPayment d u y body = (Inr p, d')
        \<longrightarrow> pay_status p = ''completed'' \<and> payments d' = payments d @ [p]"
    using createPayment_Inr [of d u y body] by auto
  have c2: "\<forall>r d'. createPayment d u y body = (r, d')
        \<longrightarrow> (\<forall>q \<in> set (payments d'). q \<in> set (payments d) \<or> pay_status q = ''completed'')"
  proof (intro allI impI)
    fix r d' assume a: "createPayment d u y body = (r, d')"
    show "\<forall>q \<in> set (payments d'). q \<in> set (payments d) \<or> pay_status q = ''completed''"
    proof (cases r)
      case (Inl e)
      with a have "d' = d" using createPayment_Inl by blast
      then show ?thesis by simp
    next
      case (Inr p)
      with a c1 show ?thesis by auto
    qed
  qed
  have c4: "body_paymentMethod body = Some ''online'' \<longrightarrow> (\<exists>e. createPayment d u y body = (Inl e, d))"
  proof
    assume on: "body_paymentMethod body = Some ''online''"
    obtain r d' where rd: "createPayment d u y body = (r, d')" by (cases "createPayment d u y body")
    show "\<exists>e. createPayment d u y body = (Inl e, d)"
    proof (cases r)
      case (Inl e)
      with rd createPayment_Inl [of d u y body e d'] show ?thesis by auto
    next
      case (Inr p)
      with rd have a: "createPayment d u y body = (Inr p, d')" by simp
      from createPayment_Inr [OF a] on online_not_in_enum
      show ?thesis by auto
    qed
  qed
  from c1 c2 c4 online_not_in_enum show ?thesis by (intro conjI)
qed

text \<open>
  The example request creates a completed payment; the same request with method online
  fails validation and creates nothing.
\<close>

theorem created_payment_completed_witness:
  "createPayment payment_example \<lparr>uid = 9, urole = Teacher\<rparr> 2024 payment_request
        = (Inr payment_example_doc, payment_example\<lparr>payments := [payment_example_doc]\<rparr>)
   \<and> pay_status payment_example_doc = ''completed''
   \<and> body_paymentMethod (payment_request\<lparr>body_paymentMethod := Some ''online''\<rparr>) = Some ''online''
   \<and> createPayment payment_example \<lparr>uid = 9, urole = Teacher\<rparr> 2024
         (payment_request\<lparr>body_paymentMethod := Some ''online''\<rparr>)
        = (Inl ValidationError, payment_example)"
proof -
  from created_payment_completed [of payment_example "\<lparr>uid = 9, urole = Teacher\<rparr>" 2024
      payment_request] payment_example_created
  have s: "pay_status payment_example_doc = ''completed''" by blast
  have on: "body_paymentMethod (payment_request\<lparr>body_paymentMethod := Some ''online''\<rparr>)
      = Some ''online''" by simp
  from created_payment_completed [of payment_example "\<lparr>uid = 9, urole = Teacher\<rparr>" 2024
      "payment_request\<lparr>body_paymentMethod := Some ''online''\<rparr>"] on
  obtain e where e: "createPayment payment_example \<lparr>uid = 9, urole = Teacher\<rparr> 2024
         (payment_request\<lparr>body_paymentMethod := Some ''online''\<rparr>) = (Inl e, payment_example)"
    by blast
  have "fst (createPayment payment_example \<lparr>uid = 9, urole = Teacher\<rparr> 2024
         (payment_request\<lparr>body_paymentMethod := Some ''online''\<rparr>)) = Inl ValidationError"
    by (simp add: createPayment_def Payment_findOne_def payment_example_def payment_request_def
        Batch_findById_def Payment_create_def paymentMethod_enum_def Let_def)
  with e have "e = ValidationError" by simp
  with e s on payment_example_created show ?thesis by simp
qed


section \<open>Submission status moves\<close>

lemma findIndex_None: "findIndex P xs = None \<Longrightarrow> find P xs = None"
  by (induction xs) (auto split: if_splits)

lemma findIndex_Some: "findIndex P xs = Some i \<Longrightarrow> \<exists>x. find P xs = Some x"
  by (induction xs arbitrary: i) (auto split: if_splits)

lemma find_list_update:
  "findIndex (\<lambda>x. k x = s) xs = Some i \<Longrightarrow> k c = s \<Longrightarrow>
     find (\<lambda>x. k x = t) (xs[i := c]) = (if t = s then Some c else find (\<lambda>x. k x = t) xs)"
proof (induction xs arbitrary: i)
  case Nil
  then show ?case by simp
next
  case (Cons x xs)
  show ?case
  proof (cases "k x = s")
    case True
    with Cons.prems show ?thesis by auto
  next
    case False
    with Cons.prems obtain j where j: "findIndex (\<lambda>x. k x = s) xs = Some j" "i = Suc j"
      by auto
    from Cons.IH [OF j(1) Cons.prems(2)] False j(2) show ?thesis by auto
  qed
qed

lemma find_append_new:
  "findIndex (\<lambda>x. k x = s) xs = None \<Longrightarrow> k c = s \<Longrightarrow>
     find (\<lambda>x. k x = t) (xs @ [c]) = (if t = s then Some c else find (\<lambda>x. k x = t) xs)"
  by (induction xs) (auto split: if_splits)

lemma Assignment_findById_replace:
  assumes "Assignment_findById d i = Some a" and "asg_id a' = i"
  shows "Assignment_findById (d\<lparr>assignments := map (\<lambda>x. if asg_id x = i then a' else x) (assignments d)\<rparr>) x
       = (if x = i then Some a' else Assignment_findById d x)"
proof (cases "x = i")
  case True
  with assms find_map_replace [of asg_id i "assignments d" a a'] show ?thesis
    by (simp add: Assignment_findById_def)
next
  case False
  with assms find_map_replace_other [of asg_id a' x "assignments d"] show ?thesis
    by (simp add: Assignment_findById_def)
qed

lemma statusOf_find:
  assumes "Assignment_findById d i = Some a"
  shows "statusOf d i s = map_option sub_status (find (\<lambda>sub. sub_student sub = s) (submissions a))"
  using assms by (simp add: statusOf_def)

lemma save_result:
  assumes a: "Assignment_findById d i = Some a" and c: "sub_student c = s"
    and S: "(findIndex (\<lambda>sub. sub_student sub = s) (submissions a) = None \<and> S = submissions a @ [c])
           \<or> (\<exists>j. findIndex (\<lambda>sub. sub_student sub = s) (submissions a) = Some j
                 \<and> S = (submissions a)[j := c])"
    and r: "Assignment_save mv c (a\<lparr>submissions := S\<rparr>) d = (r, d')"
  shows "(\<forall>x y. \<not> (x = i \<and> y = s) \<longrightarrow> statusOf d' x y = statusOf d x y)
       \<and> (\<forall>e. r = Inl e \<longrightarrow> d' = d)
       \<and> (\<forall>v. r = Inr v \<longrightarrow> statusOf d' i s = Some (sub_status c))"
proof (cases "validSubmission mv c")
  case False
  with r show ?thesis by (auto simp: Assignment_save_def)
next
  case True
  have ai: "asg_id a = i" using a unfolding Assignment_findById_def by (rule find_Some_key)
  from True r ai have d': "d' = d\<lparr>assignments := map (\<lambda>x. if asg_id x = i then a\<lparr>submissions := S\<rparr> else x) (assignments d)\<rparr>"
    and rr: "r = Inr ()"
    by (auto simp: Assignment_save_def)
  have f: "Assignment_findById d' x = (if x = i then Some (a\<lparr>submissions := S\<rparr>) else Assignment_findById d x)" for x
    unfolding d' using Assignment_findById_replace [OF a, of "a\<lparr>submissions := S\<rparr>" x] ai by simp
  have fs: "find (\<lambda>sub. sub_student sub = y) S
      = (if y = s then Some c else find (\<lambda>sub. sub_student sub = y) (submissions a))" for y
    using S c find_append_new [of sub_student s "submissions a" c y]
      find_list_update [of sub_student s "submissions a" _ c y] by auto
  have other: "\<forall>x y. \<not> (x = i \<and> y = s) \<longrightarrow> statusOf d' x y = statusOf d x y"
    using f fs a by (auto simp: statusOf_def)
  have this_one: "statusOf d' i s = Some (sub_status c)"
    using f fs by (simp add: statusOf_def)
  from other this_one rr show ?thesis by simp
qed

lemma case_save_eq:
  assumes "(case p of (Inl e, d') \<Rightarrow> (Inl e, d') | (Inr u, d') \<Rightarrow> (Inr z, d')) = (r, d1)"
  obtains r0 where "p = (r0, d1)" and "\<forall>e. r = Inl e \<longrightarrow> r0 = Inl e"
    and "\<forall>v. r = Inr v \<longrightarrow> (\<exists>w. r0 = Inr w)"
  using assms by (cases p; cases "fst p") auto

lemma submit_exact:
  assumes "submitAssignment mv d u i fs n t = (r, d')"
  shows "(\<forall>x y. \<not> (x = i \<and> y = uid u) \<longrightarrow> statusOf d' x y = statusOf d x y)
       \<and> (\<forall>e. r = Inl e \<longrightarrow> d' = d)
       \<and> (\<forall>v. r = Inr v \<longrightarrow> (\<exists>a. Assignment_findById d i = Some a
              \<and> statusOf d' i (uid u)
                  = (case statusOf d i (uid u) of
                       None \<Rightarrow> Some (if t > dueDate a then Late else Submitted)
                     | Some st \<Rightarrow> Some Resubmitted)))"
proof (cases "\<exists>a b. Assignment_findById d i = Some a \<and> asg_isActive a
                \<and> Batch_findById d (asg_batch a) = Some b \<and> uid u \<in> set (students b)
                \<and> \<not> (t > dueDate a \<and> \<not> allowLateSubmission a)")
  case False
  then have "\<exists>e. submitAssignment mv d u i fs n t = (Inl e, d)"
    by (auto simp: submitAssignment_def Let_def split: option.splits)
  with assms show ?thesis by auto
next
  case True
  then obtain a b where a: "Assignment_findById d i = Some a" "asg_isActive a"
    "Batch_findById d (asg_batch a) = Some b" "uid u \<in> set (students b)"
    "\<not> (t > dueDate a \<and> \<not> allowLateSubmission a)" by blast
  let ?P = "\<lambda>sub. sub_student sub = uid u"
  let ?notes = "(case n of None \<Rightarrow> [] | Some n \<Rightarrow> n)"
  show ?thesis
  proof (cases "findIndex ?P (submissions a)")
    case None
    let ?c = "\<lparr>sub_student = uid u, submittedAt = t, files = fs,
                            sub_notes = ?notes, marksObtained = None, feedback = None,
                            gradedBy = None, gradedAt = None,
                            sub_status = (if t > dueDate a then Late else Submitted)\<rparr>"
    let ?S = "submissions a @ [?c]"
    from assms a None
    have "(case Assignment_save mv ?c (a\<lparr>submissions := ?S\<rparr>) d of
             (Inl e, d') \<Rightarrow> (Inl e, d') | (Inr u, d') \<Rightarrow> (Inr (a\<lparr>submissions := ?S\<rparr>), d')) = (r, d')"
      by (simp add: submitAssignment_def Let_def)
    then obtain r0 where r0:
      "Assignment_save mv ?c (a\<lparr>submissions := ?S\<rparr>) d = (r0, d')"
      "\<forall>e. r = Inl e \<longrightarrow> r0 = Inl e" "\<forall>v. r = Inr v \<longrightarrow> (\<exists>w. r0 = Inr w)"
      by (rule case_save_eq)
    have S: "(findIndex ?P (submissions a) = None \<and> ?S = submissions a @ [?c])
           \<or> (\<exists>j. findIndex ?P (submissions a) = Some j \<and> ?S = (submissions a)[j := ?c])"
      using None by simp
    have cs: "sub_student ?c = uid u" by simp
    note sr = save_result [OF a(1) cs S r0(1)]
    have old: "statusOf d i (uid u) = None"
      using statusOf_find [OF a(1)] findIndex_None [OF None] by simp
    from sr r0 old a(1) show ?thesis by auto
  next
    case (Some j)
    let ?c = "(submissions a ! j)\<lparr>sub_student := uid u, submittedAt := t, files := fs,
                                   sub_notes := ?notes, sub_status := Resubmitted\<rparr>"
    let ?S = "(submissions a)[j := ?c]"
    from assms a Some
    have "(case Assignment_save mv ?c (a\<lparr>submissions := ?S\<rparr>) d of
             (Inl e, d') \<Rightarrow> (Inl e, d') | (Inr u, d') \<Rightarrow> (Inr (a\<lparr>submissions := ?S\<rparr>), d')) = (r, d')"
      by (simp add: submitAssignment_def Let_def)
    then obtain r0 where r0:
      "Assignment_save mv ?c (a\<lparr>submissions := ?S\<rparr>) d = (r0, d')"
      "\<forall>e. r = Inl e \<longrightarrow> r0 = Inl e" "\<forall>v. r = Inr v \<longrightarrow> (\<exists>w. r0 = Inr w)"
      by (rule case_save_eq)
    have S: "(findIndex ?P (submissions a) = None \<and> ?S = submissions a @ [?c])
           \<or> (\<exists>j. findIndex ?P (submissions a) = Some j \<and> ?S = (submissions a)[j := ?c])"
      using Some by simp
    have cs: "sub_student ?c = uid u" by simp
    note sr = save_result [OF a(1) cs S r0(1)]
    from findIndex_Some [OF Some] obtain y where "find ?P (submissions a) = Some y" by blast
    then have old: "\<exists>st. statusOf d i (uid u) = Some st"
      using statusOf_find [OF a(1)] by simp
    from sr r0 old a(1) show ?thesis by auto
  qed
qed


lemma findIndex_nth: "findIndex P xs = Some i \<Longrightarrow> i < length xs \<and> P (xs ! i)"
  by (induction xs arbitrary: i) (auto split: if_splits)

lemma grade_exact:
  assumes "gradeSubmission mv d u i s m f t = (r, d')"
  shows "(\<forall>x y. \<not> (x = i \<and> y = s) \<longrightarrow> statusOf d' x y = statusOf d x y)
       \<and> (\<forall>e. r = Inl e \<longrightarrow> d' = d)
       \<and> (\<forall>v. r = Inr v \<longrightarrow> (\<exists>st. statusOf d i s = Some st) \<and> statusOf d' i s = Some Graded)"
proof (cases "\<exists>a b j. Assignment_findById d i = Some a \<and> asg_isActive a
                \<and> Batch_findById d (asg_batch a) = Some b
                \<and> \<not> (teacher b \<noteq> uid u \<and> urole u \<noteq> Admin)
                \<and> findIndex (\<lambda>sub. sub_student sub = s) (submissions a) = Some j")
  case False
  then have "\<exists>e. gradeSubmission mv d u i s m f t = (Inl e, d)"
    by (auto simp: gradeSubmission_def Let_def split: option.splits)
  with assms show ?thesis by auto
next
  case True
  let ?P = "\<lambda>sub. sub_student sub = s"
  from True obtain a b j where a: "Assignment_findById d i = Some a" "asg_isActive a"
    "Batch_findById d (asg_batch a) = Some b" "\<not> (teacher b \<noteq> uid u \<and> urole u \<noteq> Admin)"
    and j: "findIndex ?P (submissions a) = Some j" by blast
  let ?c = "(submissions a ! j)\<lparr>marksObtained := m, feedback := f,
                                 gradedBy := Some (uid u), gradedAt := Some t,
                                 sub_status := Graded\<rparr>"
  let ?S = "(submissions a)[j := ?c]"
  from assms a j
  have "(case Assignment_save mv ?c (a\<lparr>submissions := ?S\<rparr>) d of
           (Inl e, d') \<Rightarrow> (Inl e, d') | (Inr u, d') \<Rightarrow> (Inr ?c, d')) = (r, d')"
    by (simp add: gradeSubmission_def Let_def)
  then obtain r0 where r0:
    "Assignment_save mv ?c (a\<lparr>submissions := ?S\<rparr>) d = (r0, d')"
    "\<forall>e. r = Inl e \<longrightarrow> r0 = Inl e" "\<forall>v. r = Inr v \<longrightarrow> (\<exists>w. r0 = Inr w)"
    by (rule case_save_eq)
  have S: "(findIndex ?P (submissions a) = None \<and> ?S = submissions a @ [?c])
         \<or> (\<exists>j. findIndex ?P (submissions a) = Some j \<and> ?S = (submissions a)[j := ?c])"
    using j by simp
  from findIndex_nth [OF j] have cs: "sub_student ?c = s" by simp
  note sr = save_result [OF a(1) cs S r0(1)]
  from findIndex_Some [OF j] obtain y where "find ?P (submissions a) = Some y" by blast
  then have old: "\<exists>st. statusOf d i s = Some st"
    using statusOf_find [OF a(1)] by simp
  from sr r0 old show ?thesis by auto
qed

lemma addSubmission_exact:
  assumes a: "Assignment_findById d i = Some a"
    and r: "addSubmission mv d a s fo n t = (r, d')"
  shows "(\<forall>x y. \<not> (x = i \<and> y = s) \<longrightarrow> statusOf d' x y = statusOf d x y)
       \<and> (\<forall>e. r = Inl e \<longrightarrow> d' = d)
       \<and> (\<forall>v. r = Inr v \<longrightarrow>
              statusOf d' i s
                = (case statusOf d i s of
                     None \<Rightarrow> Some (if dueDate a < t then Late else Submitted)
                   | Some st \<Rightarrow> Some Resubmitted))"
proof (cases "findIndex (\<lambda>sub. sub_student sub = s) (submissions a)")
  case None
  let ?P = "\<lambda>sub. sub_student sub = s"
  let ?c = "\<lparr>sub_student = s, submittedAt = t,
             files = (case fo of None \<Rightarrow> [] | Some fs \<Rightarrow> fs),
             sub_notes = (case n of None \<Rightarrow> [] | Some n \<Rightarrow> n),
             marksObtained = None, feedback = None, gradedBy = None, gradedAt = None,
             sub_status = (if dueDate a < t then Late else Submitted)\<rparr>"
  let ?S = "submissions a @ [?c]"
  from r None
  have "(case Assignment_save mv ?c (a\<lparr>submissions := ?S\<rparr>) d of
           (Inl e, d') \<Rightarrow> (Inl e, d') | (Inr u, d') \<Rightarrow> (Inr (a\<lparr>submissions := ?S\<rparr>), d')) = (r, d')"
    by (simp add: addSubmission_def Let_def)
  then obtain r0 where r0:
    "Assignment_save mv ?c (a\<lparr>submissions := ?S\<rparr>) d = (r0, d')"
    "\<forall>e. r = Inl e \<longrightarrow> r0 = Inl e" "\<forall>v. r = Inr v \<longrightarrow> (\<exists>w. r0 = Inr w)"
    by (rule case_save_eq)
  have S: "(findIndex ?P (submissions a) = None \<and> ?S = submissions a @ [?c])
         \<or> (\<exists>j. findIndex ?P (submissions a) = Some j \<and> ?S = (submissions a)[j := ?c])"
    using None by simp
  have cs: "sub_student ?c = s" by simp
  note sr = save_result [OF a cs S r0(1)]
  have old: "statusOf d i s = None"
    using statusOf_find [OF a] findIndex_None [OF None] by simp
  from sr r0 old show ?thesis by auto
next
  case (Some j)
  let ?P = "\<lambda>sub. sub_student sub = s"
  let ?c = "(submissions a ! j)\<lparr>sub_student := s, submittedAt := t,
              files := (case fo of None \<Rightarrow> [] | Some fs \<Rightarrow> fs),
              sub_notes := (case n of None \<Rightarrow> [] | Some n \<Rightarrow> n), sub_status := Resubmitted\<rparr>"
  let ?S = "(submissions a)[j := ?c]"
  from r Some
  have "\<exists>z. (case Assignment_save mv ?c (a\<lparr>submissions := ?S\<rparr>) d of
           (Inl e, d') \<Rightarrow> (Inl e, d') | (Inr u, d') \<Rightarrow> (Inr z, d')) = (r, d')"
    by (simp add: addSubmission_def Let_def) (rule exI, assumption)
  then obtain z where "(case Assignment_save mv ?c (a\<lparr>submissions := ?S\<rparr>) d of
           (Inl e, d') \<Rightarrow> (Inl e, d') | (Inr u, d') \<Rightarrow> (Inr z, d')) = (r, d')" ..
  then obtain r0 where r0:
    "Assignment_save mv ?c (a\<lparr>submissions := ?S\<rparr>) d = (r0, d')"
    "\<forall>e. r = Inl e \<longrightarrow> r0 = Inl e" "\<forall>v. r = Inr v \<longrightarrow> (\<exists>w. r0 = Inr w)"
    by (rule case_save_eq)
  have S: "(findIndex ?P (submissions a) = None \<and> ?S = submissions a @ [?c])
         \<or> (\<exists>j. findIndex ?P (submissions a) = Some j \<and> ?S = (submissions a)[j := ?c])"
    using Some by simp
  have cs: "sub_student ?c = s" by simp
  note sr = save_result [OF a cs S r0(1)]
  from findIndex_Some [OF Some] obtain y where "find ?P (submissions a) = Some y" by blast
  then have old: "\<exists>st. statusOf d i s = Some st"
    using statusOf_find [OF a] by simp
  from sr r0 old show ?thesis by auto
qed

lemma gradeSubmission_method_exact:
  assumes a: "Assignment_findById d i = Some a"
    and r: "gradeSubmission_method mv d a s m f g t = (r, d')"
  shows "(\<forall>x y. \<not> (x = i \<and> y = s) \<longrightarrow> statusOf d' x y = statusOf d x y)
       \<and> (\<forall>e. r = Inl e \<longrightarrow> d' = d)
       \<and> (\<forall>v. r = Inr v \<longrightarrow> (\<exists>st. statusOf d i s = Some st) \<and> statusOf d' i s = Some Graded)"
proof (cases "findIndex (\<lambda>sub. sub_student sub = s) (submissions a)")
  case None
  with r show ?thesis by (auto simp: gradeSubmission_method_def)
next
  case (Some j)
  let ?P = "\<lambda>sub. sub_student sub = s"
  let ?c = "(submissions a ! j)\<lparr>marksObtained := m, feedback := f,
                   gradedBy := Some g, gradedAt := Some t, sub_status := Graded\<rparr>"
  let ?S = "(submissions a)[j := ?c]"
  from r Some
  have "(case Assignment_save mv ?c (a\<lparr>submissions := ?S\<rparr>) d of
           (Inl e, d') \<Rightarrow> (Inl e, d') | (Inr u, d') \<Rightarrow> (Inr (a\<lparr>submissions := ?S\<rparr>), d')) = (r, d')"
    by (simp add: gradeSubmission_method_def Let_def)
  then obtain r0 where r0:
    "Assignment_save mv ?c (a\<lparr>submissions := ?S\<rparr>) d = (r0, d')"
    "\<forall>e. r = Inl e \<longrightarrow> r0 = Inl e" "\<forall>v. r = Inr v \<longrightarrow> (\<exists>w. r0 = Inr w)"
    by (rule case_save_eq)
  have S: "(findIndex ?P (submissions a) = None \<and> ?S = submissions a @ [?c])
         \<or> (\<exists>j. findIndex ?P (submissions a) = Some j \<and> ?S = (submissions a)[j := ?c])"
    using Some by simp
  from findIndex_nth [OF Some] have cs: "sub_student ?c = s" by simp
  note sr = save_result [OF a cs S r0(1)]
  from findIndex_Some [OF Some] obtain y where "find ?P (submissions a) = Some y" by blast
  then have old: "\<exists>st. statusOf d i s = Some st"
    using statusOf_find [OF a] by simp
  from sr r0 old show ?thesis by auto
qed

text \<open>
  C1 (amended). Each submit or grade operation (the handlers \<open>submitAssignment\<close> and
  \<open>gradeSubmission\<close>, and the model methods \<open>addSubmission\<close> and \<open>gradeSubmission\<close>
  called on a stored assignment) leaves the status of every other student's submission, and
  of every submission on another assignment, as it was; an operation that fails leaves the
  whole store as it was. After a successful submission the student's status is late or
  submitted when the student had no submission (late when the time is after the due date,
  submitted otherwise), and resubmitted when the student had one, whatever its state was,
  graded included. A grading succeeds only for a student who has a submission, and makes its
  status graded, whatever its state was.
\<close>

theorem submission_status_moves:
  "(\<forall>r d'. submitAssignment mv d u i fs n t = (r, d') \<longrightarrow>
       (\<forall>x y. \<not> (x = i \<and> y = uid u) \<longrightarrow> statusOf d' x y = statusOf d x y)
     \<and> (\<forall>e. r = Inl e \<longrightarrow> d' = d)
     \<and> (\<forall>v. r = Inr v \<longrightarrow> (\<exists>a. Assignment_findById d i = Some a
            \<and> statusOf d' i (uid u)
                = (case statusOf d i (uid u) of
                     None \<Rightarrow> Some (if t > dueDate a then Late else Submitted)
                   | Some st \<Rightarrow> Some Resubmitted))))
   \<and> (\<forall>r d'. gradeSubmission mv d u i s m f t = (r, d') \<longrightarrow>
       (\<forall>x y. \<not> (x = i \<and> y = s) \<longrightarrow> statusOf d' x y = statusOf d x y)
     \<and> (\<forall>e. r = Inl e \<longrightarrow> d' = d)
     \<and> (\<forall>v. r = Inr v \<longrightarrow> (\<exists>st. statusOf d i s = Some st) \<and> statusOf d' i s = Some Graded))
   \<and> (\<forall>this r d'. Assignment_findById d i = Some this \<and> addSubmission mv d this s fo n t = (r, d') \<longrightarrow>
       (\<forall>x y. \<not> (x = i \<and> y = s) \<longrightarrow> statusOf d' x y = statusOf d x y)
     \<and> (\<forall>e. r = Inl e \<longrightarrow> d' = d)
     \<and> (\<forall>v. r = Inr v \<longrightarrow>
            statusOf d' i s
              = (case statusOf d i s of
                   None \<Rightarrow> Some (if dueDate this < t then Late else Submitted)
                 | Some st \<Rightarrow> Some Resubmitted)))
   \<and> (\<forall>this r d'. Assignment_findById d i = Some this
          \<and> gradeSubmission_method mv d this s m f g t = (r, d') \<longrightarrow>
       (\<forall>x y. \<not> (x = i \<and> y = s) \<longrightarrow> statusOf d' x y = statusOf d x y)
     \<and> (\<forall>e. r = Inl e \<longrightarrow> d' = d)
     \<and> (\<forall>v. r = Inr v \<longrightarrow> (\<exists>st. statusOf d i s = Some st) \<and> statusOf d' i s = Some Graded))"
proof -
  have c1: "\<forall>r d'. submitAssignment mv d u i fs n t = (r, d') \<longrightarrow>
       (\<forall>x y. \<not> (x = i \<and> y = uid u) \<longrightarrow> statusOf d' x y = statusOf d x y)
     \<and> (\<forall>e. r = Inl e \<longrightarrow> d' = d)
     \<and> (\<forall>v. r = Inr v \<longrightarrow> (\<exists>a. Assignment_findById d i = Some a
            \<and> statusOf d' i (uid u)
                = (case statusOf d i (uid u) of
                     None \<Rightarrow> Some (if t > dueDate a then Late else Submitted)
                   | Some st \<Rightarrow> Some Resubmitted)))"
    using submit_exact by blast
  have c2: "\<forall>r d'. gradeSubmission mv d u i s m f t = (r, d') \<longrightarrow>
       (\<forall>x y. \<not> (x = i \<and> y = s) \<longrightarrow> statusOf d' x y = statusOf d x y)
     \<and> (\<forall>e. r = Inl e \<longrightarrow> d' = d)
     \<and> (\<forall>v. r = Inr v \<longrightarrow> (\<exists>st. statusOf d i s = Some st) \<and> statusOf d' i s = Some Graded)"
    using grade_exact by blast
  have c3: "\<forall>this r d'. Assignment_findById d i = Some this \<and> addSubmission mv d this s fo n t = (r, d') \<longrightarrow>
       (\<forall>x y. \<not> (x = i \<and> y = s) \<longrightarrow> statusOf d' x y = statusOf d x y)
     \<and> (\<forall>e. r = Inl e \<longrightarrow> d' = d)
     \<and> (\<forall>v. r = Inr v \<longrightarrow>
            statusOf d' i s
              = (case statusOf d i s of
                   None \<Rightarrow> Some (if dueDate this < t then Late else Submitted)
                 | Some st \<Rightarrow> Some Resubmitted))"
    using addSubmission_exact by blast
  have c4: "\<forall>this r d'. Assignment_findById d i = Some this
          \<and> gradeSubmission_method mv d this s m f g t = (r, d') \<longrightarrow>
       (\<forall>x y. \<not> (x = i \<and> y = s) \<longrightarrow> statusOf d' x y = statusOf d x y)
     \<and> (\<forall>e. r = Inl e \<longrightarrow> d' = d)
     \<and> (\<forall>v. r = Inr v \<longrightarrow> (\<exists>st. statusOf d i s = Some st) \<and> statusOf d' i s = Some Graded)"
    using gradeSubmission_method_exact by blast
  from c1 c2 c3 c4 show ?thesis by (intro conjI)
qed

lemmas asg_eval = graded_example_def assignment_example_def submitAssignment_def
        gradeSubmission_def Assignment_findById_def Batch_findById_def allowLateSubmission_def
        Assignment_save_def validSubmission_def statusOf_def Let_def max_passes_def max_fails_def

text \<open>
  Instances: the first submission of student 1 is recorded as submitted; on the store where
  that submission has been graded, a further submission of student 1 succeeds and makes it
  resubmitted, and a further grading by teacher 9 succeeds and leaves it graded; the method
  \<open>addSubmission\<close>, called on assignment 1 for student 1 after the due date, records a first
  submission as late.
\<close>

theorem submission_status_moves_witness:
  "statusOf assignment_example 1 1 = None
   \<and> (\<exists>asg d'. submitAssignment max_passes assignment_example \<lparr>uid = 1, urole = Student\<rparr> 1
                   [''essay.pdf''] None 500 = (Inr asg, d')
        \<and> statusOf d' 1 1 = Some Submitted)
   \<and> statusOf graded_example 1 1 = Some Graded
   \<and> (\<exists>asg d'. submitAssignment max_passes graded_example \<lparr>uid = 1, urole = Student\<rparr> 1
                   [''essay.pdf''] (Some ''second try'') 800 = (Inr asg, d')
        \<and> statusOf d' 1 1 = Some Resubmitted)
   \<and> (\<exists>sub d'. gradeSubmission max_passes graded_example \<lparr>uid = 9, urole = Teacher\<rparr> 1 1
                   (Some 8) None 900 = (Inr sub, d')
        \<and> statusOf d' 1 1 = Some Graded)
   \<and> (\<exists>this asg d'. Assignment_findById assignment_example 1 = Some this
        \<and> dueDate this = 1000
        \<and> addSubmission max_passes assignment_example this 1 None None 1001 = (Inr asg, d')
        \<and> statusOf d' 1 1 = Some Late)"
proof -
  let ?u = "\<lparr>uid = 1, urole = Student\<rparr>"
  let ?v = "\<lparr>uid = 9, urole = Teacher\<rparr>"
  have s0: "statusOf assignment_example 1 1 = None" by (simp add: asg_eval)
  have due: "Assignment_findById assignment_example 1
      = Some \<lparr>asg_id = 1, asg_batch = 7, assignedBy = 9, dueDate = 1000,
                       totalMarks = 10, submissions = [], asg_isActive = True\<rparr>"
    by (simp add: asg_eval)
  have s1: "statusOf graded_example 1 1 = Some Graded" by (simp add: asg_eval)
  have "\<exists>asg d'. submitAssignment max_passes assignment_example ?u 1 [''essay.pdf''] None 500 = (Inr asg, d')"
    by (simp add: asg_eval)
  then obtain asg1 d1 where r1:
    "submitAssignment max_passes assignment_example ?u 1 [''essay.pdf''] None 500 = (Inr asg1, d1)"
    by blast
  have "\<exists>asg d'. submitAssignment max_passes graded_example ?u 1 [''essay.pdf''] (Some ''second try'') 800 = (Inr asg, d')"
    by (simp add: asg_eval)
  then obtain asg2 d2 where r2:
    "submitAssignment max_passes graded_example ?u 1 [''essay.pdf''] (Some ''second try'') 800 = (Inr asg2, d2)"
    by blast
  have "\<exists>sub d'. gradeSubmission max_passes graded_example ?v 1 1 (Some 8) None 900 = (Inr sub, d')"
    by (simp add: asg_eval)
  then obtain sub3 d3 where r3:
    "gradeSubmission max_passes graded_example ?v 1 1 (Some 8) None 900 = (Inr sub3, d3)"
    by blast
  from submission_status_moves [of max_passes assignment_example ?u 1 "[''essay.pdf'']" None 500] r1 s0 due
  have t1: "statusOf d1 1 1 = Some Submitted" by auto
  from submission_status_moves [of max_passes graded_example ?u 1 "[''essay.pdf'']" "Some ''second try''" 800] r2 s1
  have t2: "statusOf d2 1 1 = Some Resubmitted" by auto
  from submission_status_moves [where mv = max_passes and d = graded_example and u = "?v"
      and i = 1 and s = 1 and m = "Some 8" and f = None and t = 900] r3
  have t3: "statusOf d3 1 1 = Some Graded" by auto
  let ?doc = "\<lparr>asg_id = 1, asg_batch = 7, assignedBy = 9, dueDate = 1000,
                       totalMarks = 10, submissions = [], asg_isActive = True\<rparr>"
  have "\<exists>asg d'. addSubmission max_passes assignment_example ?doc 1 None None 1001 = (Inr asg, d')"
    by (simp add: asg_eval addSubmission_def)
  then obtain asg4 d4 where r4:
    "addSubmission max_passes assignment_example ?doc 1 None None 1001 = (Inr asg4, d4)"
    by blast
  from submission_status_moves [where mv = max_passes and d = assignment_example and i = 1
      and s = 1 and fo = None and n = None and t = 1001] r4 s0 due
  have t4: "statusOf d4 1 1 = Some Late" by auto
  have c1: "\<exists>asg d'. submitAssignment max_passes assignment_example ?u 1 [''essay.pdf''] None 500
        = (Inr asg, d') \<and> statusOf d' 1 1 = Some Submitted"
    using r1 t1 by (intro exI [of _ asg1] exI [of _ d1] conjI)
  have c2: "\<exists>asg d'. submitAssignment max_passes graded_example ?u 1 [''essay.pdf'']
        (Some ''second try'') 800 = (Inr asg, d') \<and> statusOf d' 1 1 = Some Resubmitted"
    using r2 t2 by (intro exI [of _ asg2] exI [of _ d2] conjI)
  have c3: "\<exists>sub d'. gradeSubmission max_passes graded_example ?v 1 1 (Some 8) None 900
        = (Inr sub, d') \<and> statusOf d' 1 1 = Some Graded"
    using r3 t3 by (intro exI [of _ sub3] exI [of _ d3] conjI)
  have c4: "\<exists>this asg d'. Assignment_findById assignment_example 1 = Some this
        \<and> dueDate this = 1000
        \<and> addSubmission max_passes assignment_example this 1 None None 1001 = (Inr asg, d')
        \<and> statusOf d' 1 1 = Some Late"
    using due r4 t4 by (intro exI [of _ ?doc] exI [of _ asg4] exI [of _ d4] conjI) simp_all
  from s0 c1 s1 c2 c3 c4 show ?thesis by (intro conjI)
qed

text \<open>
  The move from graded back to resubmitted is reachable: student 1 submits, teacher 9 grades,
  student 1 submits again. The specification's list of moves does not contain it.
\<close>

theorem graded_to_resubmitted_counterexample:
  "statusOf graded_example 1 1 = Some Graded
   \<and> statusOf (asg_step max_fails graded_example
                  (Submit \<lparr>uid = 1, urole = Student\<rparr> 1 [] None 700)) 1 1 = Some Resubmitted
   \<and> \<not> claimed_move (Some Graded) (Some Resubmitted)"
  by (simp add: graded_example_def assignment_example_def submitAssignment_def
        gradeSubmission_def Assignment_findById_def Batch_findById_def allowLateSubmission_def
        Assignment_save_def validSubmission_def statusOf_def Let_def)

section \<open>Late submissions\<close>

lemma late_submission_always_rejected:
  assumes "Assignment_findById d i = Some a" "asg_isActive a"
    and "Batch_findById d (asg_batch a) = Some b" "uid u \<in> set (students b)"
    and "now > dueDate a"
  shows "submitAssignment mv d u i fs n now
       = (Inl (ErrorResponse ''Late submissions are not allowed for this assignment'' 400), d)"
  using assms by (simp add: submitAssignment_def allowLateSubmission_def)

text \<open>
  C2 (what the code does). An assignment is created from a request that sets
  \<open>allowLateSubmission\<close> to true; the stored assignment is assignment 1 of the example store,
  with no such field. Student 1, enrolled in the batch, submits at time 1001, after the due
  date 1000: the handler answers 400 "Late submissions are not allowed for this assignment"
  and the store is left as it was, with no submission recorded.
\<close>

theorem late_submission_rejected_despite_flag:
  "fst (createAssignment late_store \<lparr>uid = 9, urole = Teacher\<rparr> late_request)
      = Inr \<lparr>asg_id = 1, asg_batch = 7, assignedBy = 9, dueDate = 1000, totalMarks = 10,
              submissions = [], asg_isActive = True\<rparr>
   \<and> snd (createAssignment late_store \<lparr>uid = 9, urole = Teacher\<rparr> late_request) = assignment_example
   \<and> submitAssignment max_passes assignment_example \<lparr>uid = 1, urole = Student\<rparr> 1 [] None 1001
      = (Inl (ErrorResponse ''Late submissions are not allowed for this assignment'' 400),
         assignment_example)
   \<and> statusOf assignment_example 1 1 = None"
  by (simp add: createAssignment_def late_store_def late_request_def assignment_example_def
        fresh_asg_id_def submitAssignment_def Assignment_findById_def Batch_findById_def
        allowLateSubmission_def statusOf_def Let_def)

section \<open>Bulk attendance marking\<close>

lemma setHours_window:
  assumes "t < setHours t 23 59 59"
  shows "setHours t 0 0 0 \<le> t \<and> t < setHours t 23 59 59"
proof -
  have "(t mod 86400000) mod 1000 = t mod 1000"
    by (rule mod_mod_cancel) simp
  moreover have "(t mod 86400000) mod 1000 \<le> t mod 86400000"
    by (rule zmod_le_nonneg_dividend) simp
  ultimately have "t mod 1000 \<le> t mod 86400000" by simp
  then have "setHours t 0 0 0 \<le> t" by (simp add: setHours_def)
  with assms show ?thesis by simp
qed

lemma Attendance_save_cases:
  "(\<exists>e. Attendance_save d a = (Inl e, d))
   \<or> (Attendance_save d a = (Inr a, d\<lparr>attendances := map (\<lambda>x. if aid x = aid a then a else x) (attendances d)\<rparr>)
        \<and> validAttendance a \<and> enrolledInBatch d (att_batch a) (att_student a))"
  by (simp add: Attendance_save_def)

lemma Attendance_create_cases:
  "(\<exists>e. Attendance_create d s b t st n by = (Inl e, d))
   \<or> (\<exists>doc. Attendance_create d s b t st n by = (Inr doc, d\<lparr>attendances := attendances d @ [doc]\<rparr>)
         \<and> aid doc = fresh_aid (attendances d) \<and> markedBy doc = by)"
  by (simp add: Attendance_create_def Let_def)

lemma map_key_replace: "map k (map (\<lambda>x. if k x = k a then a else x) xs) = map k xs"
  by (induction xs) auto

lemma markOne_not_enrolled:
  assumes "entry_student att \<notin> set (students batch)"
  shows "markOne u batch b t att (d, rs, es) = (d, rs, es @ [NotInBatch (entry_student att)])"
  using assms by (simp add: markOne_def)

lemma markOne_enrolled:
  assumes "entry_student att \<in> set (students batch)"
  shows "(\<exists>e. markOne u batch b t att (d, rs, es) = (d, rs, es @ [ProcessingError (entry_student att) e]))
       \<or> (\<exists>d' r. markOne u batch b t att (d, rs, es) = (d', rs @ [r], es)
             \<and> batches d' = batches d \<and> r \<in> set (attendances d')
             \<and> aid ` set (attendances d) \<subseteq> aid ` set (attendances d'))"
proof (cases "Attendance_findOne d (entry_student att) b t")
  case None
  let ?n = "(case entry_notes att of None \<Rightarrow> [] | Some n \<Rightarrow> n)"
  from Attendance_create_cases [of d "entry_student att" b t "entry_status att" ?n "uid u"]
  show ?thesis
    using assms None by (auto simp: markOne_def Let_def)
next
  case (Some ex)
  let ?n = "(case entry_notes att of None \<Rightarrow> [] | Some n \<Rightarrow> n)"
  let ?a = "ex\<lparr>att_status := entry_status att, att_notes := ?n, markedBy := uid u\<rparr>"
  from Some have "ex \<in> set (attendances d)"
    unfolding Attendance_findOne_def by (auto simp: find_Some_iff)
  then have "?a \<in> set (map (\<lambda>x. if aid x = aid ?a then ?a else x) (attendances d))"
    by force
  moreover have "aid ` set (attendances d) \<subseteq> aid ` set (map (\<lambda>x. if aid x = aid ?a then ?a else x) (attendances d))"
    using map_key_replace [of aid ?a "attendances d"] by (metis set_map subset_refl)
  ultimately show ?thesis
    using Attendance_save_cases [of d ?a] assms Some by (auto simp: markOne_def Let_def)
qed


lemma findById_enrolled:
  assumes "Batch_findById d b = Some batch" "s \<in> set (students batch)"
  shows "enrolledInBatch d b s"
proof -
  from assms(1) have "batch \<in> set (batches d)" "bid batch = b"
    unfolding Batch_findById_def by (auto simp: find_Some_iff)
  with assms(2) show ?thesis
    unfolding enrolledInBatch_def list_ex_iff by blast
qed

lemma markOne_valid:
  assumes "Batch_findById d b = Some batch" "entry_student att \<in> set (students batch)"
    and "validEntry att" "t < setHours t 23 59 59"
  shows "\<exists>d' r. markOne u batch b t att (d, rs, es) = (d', rs @ [r], es)"
proof -
  let ?n = "(case entry_notes att of None \<Rightarrow> [] | Some n \<Rightarrow> n)"
  let ?s = "entry_student att"
  have en: "enrolledInBatch d b ?s" using assms(1,2) by (rule findById_enrolled)
  have nl: "length ?n \<le> 500" using assms(3) by (auto simp: validEntry_def split: option.splits)
  have w: "setHours t 0 0 0 \<le> t \<and> t < setHours t 23 59 59"
    using assms(4) by (rule setHours_window)
  show ?thesis
  proof (cases "Attendance_findOne d ?s b t")
    case None
    then have "\<forall>a \<in> set (attendances d). \<not> (att_student a = ?s \<and> att_batch a = b
                \<and> setHours t 0 0 0 \<le> att_date a \<and> att_date a < setHours t 23 59 59)"
      unfolding Attendance_findOne_def by (simp add: find_None_iff)
    with w have nodup: "\<not> list_ex (\<lambda>a. att_student a = ?s \<and> att_batch a = b \<and> att_date a = t) (attendances d)"
      unfolding list_ex_iff by auto
    have v: "(case entry_status att of None \<Rightarrow> True | Some s \<Rightarrow> s \<in> set attendance_status_enum)"
      using assms(3) by (simp add: validEntry_def)
    have "\<exists>doc. Attendance_create d ?s b t (entry_status att) ?n (uid u)
              = (Inr doc, d\<lparr>attendances := attendances d @ [doc]\<rparr>)"
      using en nl nodup v
      by (auto simp: Attendance_create_def Let_def validAttendance_def attendance_status_enum_def
               split: option.splits)
    with None assms(2) show ?thesis
      by (auto simp: markOne_def Let_def)
  next
    case (Some ex)
    let ?a = "ex\<lparr>att_status := entry_status att, att_notes := ?n, markedBy := uid u\<rparr>"
    from Some have ex: "att_student ex = ?s" "att_batch ex = b"
      unfolding Attendance_findOne_def by (auto simp: find_Some_iff)
    have "validAttendance ?a"
      using assms(3) nl by (simp add: validAttendance_def validEntry_def)
    with en ex have "\<exists>d'. Attendance_save d ?a = (Inr ?a, d')"
      by (simp add: Attendance_save_def)
    with Some assms(2) show ?thesis
      by (auto simp: markOne_def Let_def)
  qed
qed

lemma markOne_fst:
  "fst (markOne u batch b t att (d, rs, es)) = fst (markOne u batch b t att (d, rs0, es0))"
  by (auto simp: markOne_def Let_def split: option.splits prod.splits sum.splits)

lemma bulk_fold:
  "\<exists>d' rs2 es2. foldl (\<lambda>acc att. markOne u batch b t att acc) (d, rs, es) atts = (d', rs @ rs2, es @ es2)
      \<and> length rs2 + length es2 = length atts
      \<and> length (filter (\<lambda>e. entry_student e \<notin> set (students batch)) atts) \<le> length es2
      \<and> batches d' = batches d
      \<and> aid ` set (attendances d) \<subseteq> aid ` set (attendances d')
      \<and> aid ` set rs2 \<subseteq> aid ` set (attendances d')"
proof (induction atts arbitrary: d rs es)
  case Nil
  show ?case by simp
next
  case (Cons att atts)
  let ?F = "\<lambda>acc att. markOne u batch b t att acc"
  show ?case
  proof (cases "entry_student att \<in> set (students batch)")
    case False
    from Cons.IH [of d rs "es @ [NotInBatch (entry_student att)]"]
    obtain d' rs2 es2 where h: "foldl ?F (d, rs, es @ [NotInBatch (entry_student att)]) atts
          = (d', rs @ rs2, (es @ [NotInBatch (entry_student att)]) @ es2)"
      "length rs2 + length es2 = length atts"
      "length (filter (\<lambda>e. entry_student e \<notin> set (students batch)) atts) \<le> length es2"
      "batches d' = batches d" "aid ` set (attendances d) \<subseteq> aid ` set (attendances d')"
      "aid ` set rs2 \<subseteq> aid ` set (attendances d')"
      by blast
    have "foldl ?F (d, rs, es) (att # atts) = (d', rs @ rs2, es @ (NotInBatch (entry_student att) # es2))"
      using h(1) False by (simp add: markOne_not_enrolled)
    with h False show ?thesis
      by (intro exI [of _ d'] exI [of _ rs2] exI [of _ "NotInBatch (entry_student att) # es2"]) simp
  next
    case True
    from markOne_enrolled [OF True, of u b t d rs es]
    show ?thesis
    proof
      assume "\<exists>e. markOne u batch b t att (d, rs, es) = (d, rs, es @ [ProcessingError (entry_student att) e])"
      then obtain e where e: "markOne u batch b t att (d, rs, es) = (d, rs, es @ [ProcessingError (entry_student att) e])"
        by blast
      from Cons.IH [of d rs "es @ [ProcessingError (entry_student att) e]"]
      obtain d' rs2 es2 where h: "foldl ?F (d, rs, es @ [ProcessingError (entry_student att) e]) atts
          = (d', rs @ rs2, (es @ [ProcessingError (entry_student att) e]) @ es2)"
        "length rs2 + length es2 = length atts"
        "length (filter (\<lambda>e. entry_student e \<notin> set (students batch)) atts) \<le> length es2"
        "batches d' = batches d" "aid ` set (attendances d) \<subseteq> aid ` set (attendances d')"
        "aid ` set rs2 \<subseteq> aid ` set (attendances d')"
        by blast
      have "foldl ?F (d, rs, es) (att # atts)
          = (d', rs @ rs2, es @ (ProcessingError (entry_student att) e # es2))"
        using h(1) e by simp
      with h True show ?thesis
        by (intro exI [of _ d'] exI [of _ rs2] exI [of _ "ProcessingError (entry_student att) e # es2"]) simp
    next
      assume "\<exists>d' r. markOne u batch b t att (d, rs, es) = (d', rs @ [r], es)
             \<and> batches d' = batches d \<and> r \<in> set (attendances d')
             \<and> aid ` set (attendances d) \<subseteq> aid ` set (attendances d')"
      then obtain d1 r where r: "markOne u batch b t att (d, rs, es) = (d1, rs @ [r], es)"
        "batches d1 = batches d" "r \<in> set (attendances d1)"
        "aid ` set (attendances d) \<subseteq> aid ` set (attendances d1)"
        by blast
      from Cons.IH [of d1 "rs @ [r]" es]
      obtain d' rs2 es2 where h: "foldl ?F (d1, rs @ [r], es) atts = (d', (rs @ [r]) @ rs2, es @ es2)"
        "length rs2 + length es2 = length atts"
        "length (filter (\<lambda>e. entry_student e \<notin> set (students batch)) atts) \<le> length es2"
        "batches d' = batches d1" "aid ` set (attendances d1) \<subseteq> aid ` set (attendances d')"
        "aid ` set rs2 \<subseteq> aid ` set (attendances d')"
        by blast
      have "foldl ?F (d, rs, es) (att # atts) = (d', rs @ (r # rs2), es @ es2)"
        using h(1) r(1) by simp
      moreover have "aid r \<in> aid ` set (attendances d')"
        using r(3) h(5) by blast
      ultimately show ?thesis using h r True
        by (intro exI [of _ d'] exI [of _ "r # rs2"] exI [of _ es2]) auto
    qed
  qed
qed


lemma markOne_valid_batches:
  assumes "Batch_findById d b = Some batch" "entry_student att \<in> set (students batch)"
    and "validEntry att" "t < setHours t 23 59 59"
  shows "\<exists>d' r. markOne u batch b t att (d, rs, es) = (d', rs @ [r], es)
            \<and> Batch_findById d' b = Some batch"
proof -
  from markOne_valid [OF assms, of u rs es] obtain d' r
    where r: "markOne u batch b t att (d, rs, es) = (d', rs @ [r], es)" by blast
  with markOne_enrolled [OF assms(2), of u b t d rs es] have "batches d' = batches d" by auto
  with assms(1) have "Batch_findById d' b = Some batch" by (simp add: Batch_findById_def)
  with r show ?thesis by blast
qed

lemma bulk_fold_fst:
  "fst (foldl (\<lambda>acc att. markOne u batch b t att acc) (d, rs, es) atts)
     = fst (foldl (\<lambda>acc att. markOne u batch b t att acc) (d, rs0, es0) atts)"
proof (induction atts arbitrary: d rs es rs0 es0)
  case Nil
  show ?case by simp
next
  case (Cons att atts)
  obtain d1 rs1 es1 where a: "markOne u batch b t att (d, rs, es) = (d1, rs1, es1)"
    by (cases "markOne u batch b t att (d, rs, es)") auto
  obtain d2 rs2 es2 where b: "markOne u batch b t att (d, rs0, es0) = (d2, rs2, es2)"
    by (cases "markOne u batch b t att (d, rs0, es0)") auto
  from a b markOne_fst [of u batch b t att d rs es rs0 es0] have "d1 = d2" by simp
  with a b Cons.IH [of d1 rs1 es1 rs2 es2] show ?case by simp
qed

lemma bulk_fold_filter:
  "fst (foldl (\<lambda>acc att. markOne u batch b t att acc) (d, rs, es) atts)
     = fst (foldl (\<lambda>acc att. markOne u batch b t att acc) (d, rs, es)
              (filter (\<lambda>e. entry_student e \<in> set (students batch)) atts))"
proof (induction atts arbitrary: d rs es)
  case Nil
  show ?case by simp
next
  case (Cons att atts)
  let ?F = "\<lambda>acc att. markOne u batch b t att acc"
  show ?case
  proof (cases "entry_student att \<in> set (students batch)")
    case False
    then have "fst (foldl ?F (d, rs, es) (att # atts))
        = fst (foldl ?F (d, rs, es @ [NotInBatch (entry_student att)]) atts)"
      by (simp add: markOne_not_enrolled)
    also have "\<dots> = fst (foldl ?F (d, rs, es) atts)"
      by (rule bulk_fold_fst)
    also have "\<dots> = fst (foldl ?F (d, rs, es) (filter (\<lambda>e. entry_student e \<in> set (students batch)) atts))"
      by (rule Cons.IH)
    finally show ?thesis using False by simp
  next
    case True
    obtain d1 rs1 es1 where a: "markOne u batch b t att (d, rs, es) = (d1, rs1, es1)"
      by (cases "markOne u batch b t att (d, rs, es)") auto
    with True Cons.IH [of d1 rs1 es1] show ?thesis by simp
  qed
qed

lemma fold_max_ge: "(a :: nat) \<le> fold max ys a"
proof (induction ys arbitrary: a)
  case Nil
  show ?case by simp
next
  case (Cons y ys)
  have "a \<le> max y a" by simp
  also have "\<dots> \<le> fold max ys (max y a)" by (rule Cons.IH)
  finally show ?case by simp
qed

lemma fold_max_mem: "y \<in> set ys \<Longrightarrow> (y :: nat) \<le> fold max ys a"
proof (induction ys arbitrary: a)
  case Nil
  then show ?case by simp
next
  case (Cons x xs)
  show ?case
  proof (cases "y = x")
    case True
    have "y \<le> max x a" using True by simp
    also have "\<dots> \<le> fold max xs (max x a)" by (rule fold_max_ge)
    finally show ?thesis by simp
  next
    case False
    with Cons.prems have "y \<in> set xs" by simp
    from Cons.IH [OF this, of "max x a"] show ?thesis by simp
  qed
qed

lemma fresh_aid_new: "fresh_aid xs \<notin> set (map aid xs)"
proof
  assume "fresh_aid xs \<in> set (map aid xs)"
  from fold_max_mem [OF this, of 0] show False by (simp add: fresh_aid_def)
qed

lemma markOne_cases:
  assumes "entry_student e \<in> set (students batch)"
  shows "(\<exists>err. markOne u batch b t e (d, rs, es)
              = (d, rs, es @ [ProcessingError (entry_student e) err]))
       \<or> (\<exists>ex. Attendance_findOne d (entry_student e) b t = Some ex
             \<and> markOne u batch b t e (d, rs, es)
                = (d\<lparr>attendances :=
                       map (\<lambda>x. if aid x = aid ex
                                then ex\<lparr>att_status := entry_status e,
                                        att_notes := (case entry_notes e of None \<Rightarrow> [] | Some n \<Rightarrow> n),
                                        markedBy := uid u\<rparr>
                                else x) (attendances d)\<rparr>,
                   rs @ [ex\<lparr>att_status := entry_status e,
                            att_notes := (case entry_notes e of None \<Rightarrow> [] | Some n \<Rightarrow> n),
                            markedBy := uid u\<rparr>], es))
       \<or> (Attendance_findOne d (entry_student e) b t = None
             \<and> markOne u batch b t e (d, rs, es)
                = (d\<lparr>attendances := attendances d @
                       [\<lparr>aid = fresh_aid (attendances d), att_student = entry_student e,
                         att_batch = b, att_date = t,
                         att_status = (case entry_status e of None \<Rightarrow> Some ''present'' | Some s \<Rightarrow> Some s),
                         att_notes = (case entry_notes e of None \<Rightarrow> [] | Some n \<Rightarrow> n),
                         markedBy = uid u\<rparr>]\<rparr>,
                   rs @ [\<lparr>aid = fresh_aid (attendances d), att_student = entry_student e,
                         att_batch = b, att_date = t,
                         att_status = (case entry_status e of None \<Rightarrow> Some ''present'' | Some s \<Rightarrow> Some s),
                         att_notes = (case entry_notes e of None \<Rightarrow> [] | Some n \<Rightarrow> n),
                         markedBy = uid u\<rparr>], es))"
proof (cases "Attendance_findOne d (entry_student e) b t")
  case None
  with assms show ?thesis
    by (simp add: markOne_def Let_def Attendance_create_def)
next
  case (Some ex)
  with assms show ?thesis
    by (simp add: markOne_def Let_def Attendance_save_def)
qed


lemma find_map_same:
  "(\<forall>x \<in> set xs. f x = x \<or> (\<not> P x \<and> \<not> P (f x))) \<Longrightarrow> find P (map f xs) = find P xs"
  by (induction xs) auto

lemma find_append_no: "\<not> P r \<Longrightarrow> find P (xs @ [r]) = find P xs"
  by (induction xs) auto

lemma distinct_key_eq:
  "distinct (map k xs) \<Longrightarrow> x \<in> set xs \<Longrightarrow> y \<in> set xs \<Longrightarrow> k x = k y \<Longrightarrow> x = y"
  by (auto simp: distinct_map dest: inj_onD)

lemma findOne_mem:
  assumes "Attendance_findOne d s b t = Some ex"
  shows "ex \<in> set (attendances d) \<and> att_student ex = s \<and> att_batch ex = b
       \<and> setHours t 0 0 0 \<le> att_date ex \<and> att_date ex < setHours t 23 59 59"
  using assms unfolding Attendance_findOne_def by (auto simp: find_Some_iff)

lemma update_store:
  assumes dist: "distinct (map aid (attendances d))"
    and ex: "Attendance_findOne d s b t = Some ex"
    and r: "aid r = aid ex" "att_student r = s"
    and d1: "d1 = d\<lparr>attendances := map (\<lambda>x. if aid x = aid ex then r else x) (attendances d)\<rparr>"
  shows "distinct (map aid (attendances d1))"
    and "batches d1 = batches d"
    and "\<forall>x\<in>set (attendances d). att_student x \<noteq> s \<longrightarrow> x \<in> set (attendances d1)"
    and "\<forall>s'. s' \<noteq> s \<longrightarrow> Attendance_findOne d1 s' b t = Attendance_findOne d s' b t"
    and "set (map aid (attendances d)) \<subseteq> set (map aid (attendances d1))"
    and "r \<in> set (attendances d1)"
proof -
  from findOne_mem [OF ex] have mem: "ex \<in> set (attendances d)" and st: "att_student ex = s"
    by simp_all
  have ids: "map aid (attendances d1) = map aid (attendances d)"
    unfolding d1 using r(1) by (induction "attendances d") auto
  have ids': "map aid (map (\<lambda>x. if aid x = aid ex then r else x) xs) = map aid xs" for xs
    using r(1) by (induction xs) auto
  have ids: "map aid (attendances d1) = map aid (attendances d)"
    unfolding d1 using ids' by simp
  show "distinct (map aid (attendances d1))" using ids dist by simp
  show "batches d1 = batches d" by (simp add: d1)
  have only: "x = ex" if "x \<in> set (attendances d)" "aid x = aid ex" for x
    using dist that(1) mem that(2) by (rule distinct_key_eq)
  show "\<forall>x\<in>set (attendances d). att_student x \<noteq> s \<longrightarrow> x \<in> set (attendances d1)"
  proof (intro ballI impI)
    fix x assume x: "x \<in> set (attendances d)" "att_student x \<noteq> s"
    with only st have "aid x \<noteq> aid ex" by auto
    with x(1) show "x \<in> set (attendances d1)" unfolding d1 by force
  qed
  show "\<forall>s'. s' \<noteq> s \<longrightarrow> Attendance_findOne d1 s' b t = Attendance_findOne d s' b t"
  proof (intro allI impI)
    fix s' assume ne: "s' \<noteq> s"
    let ?P = "\<lambda>a. att_student a = s' \<and> att_batch a = b
                \<and> setHours t 0 0 0 \<le> att_date a \<and> att_date a < setHours t 23 59 59"
    let ?f = "\<lambda>x. if aid x = aid ex then r else x"
    have "\<forall>x \<in> set (attendances d). ?f x = x \<or> (\<not> ?P x \<and> \<not> ?P (?f x))"
    proof
      fix x assume x: "x \<in> set (attendances d)"
      show "?f x = x \<or> (\<not> ?P x \<and> \<not> ?P (?f x))"
      proof (cases "aid x = aid ex")
        case False
        then show ?thesis by simp
      next
        case True
        with only x have "x = ex" by simp
        with True st r(2) ne show ?thesis by simp
      qed
    qed
    then have "find ?P (map ?f (attendances d)) = find ?P (attendances d)"
      by (rule find_map_same)
    then show "Attendance_findOne d1 s' b t = Attendance_findOne d s' b t"
      by (simp add: Attendance_findOne_def d1)
  qed
  show "set (map aid (attendances d)) \<subseteq> set (map aid (attendances d1))"
    using ids by simp
  from mem show "r \<in> set (attendances d1)" unfolding d1 by force
qed

lemma create_store:
  assumes dist: "distinct (map aid (attendances d))"
    and r: "aid r = fresh_aid (attendances d)" "att_student r = s"
    and d1: "d1 = d\<lparr>attendances := attendances d @ [r]\<rparr>"
  shows "distinct (map aid (attendances d1))"
    and "batches d1 = batches d"
    and "\<forall>x\<in>set (attendances d). att_student x \<noteq> s \<longrightarrow> x \<in> set (attendances d1)"
    and "\<forall>s'. s' \<noteq> s \<longrightarrow> Attendance_findOne d1 s' b t = Attendance_findOne d s' b t"
    and "set (map aid (attendances d)) \<subseteq> set (map aid (attendances d1))"
    and "r \<in> set (attendances d1)"
proof -
  from fresh_aid_new [of "attendances d"] r(1) dist
  show "distinct (map aid (attendances d1))" by (simp add: d1)
  show "batches d1 = batches d" by (simp add: d1)
  show "\<forall>x\<in>set (attendances d). att_student x \<noteq> s \<longrightarrow> x \<in> set (attendances d1)"
    by (simp add: d1)
  show "\<forall>s'. s' \<noteq> s \<longrightarrow> Attendance_findOne d1 s' b t = Attendance_findOne d s' b t"
    using r(2) by (simp add: Attendance_findOne_def d1 find_append_no)
  show "set (map aid (attendances d)) \<subseteq> set (map aid (attendances d1))"
    by (auto simp: d1)
  show "r \<in> set (attendances d1)" by (simp add: d1)
qed

lemma markOne_store:
  assumes en: "entry_student e \<in> set (students batch)"
    and dist: "distinct (map aid (attendances d))"
    and m: "markOne u batch b t e (d, rs, es) = (d1, rs1, es1)"
  shows "distinct (map aid (attendances d1))
       \<and> batches d1 = batches d
       \<and> (\<forall>x\<in>set (attendances d). att_student x \<noteq> entry_student e \<longrightarrow> x \<in> set (attendances d1))
       \<and> (\<forall>s'. s' \<noteq> entry_student e \<longrightarrow> Attendance_findOne d1 s' b t = Attendance_findOne d s' b t)
       \<and> set (map aid (attendances d)) \<subseteq> set (map aid (attendances d1))
       \<and> ((rs1 = rs \<and> (\<exists>err. es1 = es @ [err]))
            \<or> (\<exists>r. rs1 = rs @ [r] \<and> es1 = es \<and> r \<in> set (attendances d1)
                  \<and> att_student r = entry_student e))"
proof -
  let ?s = "entry_student e"
  let ?n = "(case entry_notes e of None \<Rightarrow> [] | Some n \<Rightarrow> n)"
  from markOne_cases [OF en, of u b t d rs es] show ?thesis
  proof (elim disjE exE conjE)
    fix err
    assume "markOne u batch b t e (d, rs, es) = (d, rs, es @ [ProcessingError ?s err])"
    with m dist show ?thesis by auto
  next
    fix ex :: attendance
    let ?r = "ex\<lparr>att_status := entry_status e, att_notes := ?n, markedBy := uid u\<rparr>"
    assume upd: "Attendance_findOne d ?s b t = Some ex"
      "markOne u batch b t e (d, rs, es)
           = (d\<lparr>attendances := map (\<lambda>x. if aid x = aid ex then ?r else x) (attendances d)\<rparr>,
              rs @ [?r], es)"
    from findOne_mem [OF upd(1)] have rs: "aid ?r = aid ex" "att_student ?r = ?s" by simp_all
    from upd(2) m have d1: "d1 = d\<lparr>attendances := map (\<lambda>x. if aid x = aid ex then ?r else x) (attendances d)\<rparr>"
      and res: "rs1 = rs @ [?r]" "es1 = es" by simp_all
    note us = update_store [OF dist upd(1) rs d1]
    from us res rs(2) show ?thesis by (intro conjI disjI2 exI [of _ ?r]) simp_all
  next
    let ?r = "\<lparr>aid = fresh_aid (attendances d), att_student = ?s,
                         att_batch = b, att_date = t,
                         att_status = (case entry_status e of None \<Rightarrow> Some ''present'' | Some s \<Rightarrow> Some s),
                         att_notes = ?n, markedBy = uid u\<rparr>"
    assume new: "Attendance_findOne d ?s b t = None"
        "markOne u batch b t e (d, rs, es)
           = (d\<lparr>attendances := attendances d @ [?r]\<rparr>, rs @ [?r], es)"
    have rs: "aid ?r = fresh_aid (attendances d)" "att_student ?r = ?s" by simp_all
    from new(2) m have d1: "d1 = d\<lparr>attendances := attendances d @ [?r]\<rparr>"
      and res: "rs1 = rs @ [?r]" "es1 = es" by simp_all
    note cs = create_store [OF dist rs d1]
    from cs res rs(2) show ?thesis by (intro conjI disjI2 exI [of _ ?r]) simp_all
  qed
qed


lemma markOne_valid_upsert:
  assumes "Batch_findById d b = Some batch" "entry_student e \<in> set (students batch)"
    and "validEntry e" "t < setHours t 23 59 59"
  shows "\<exists>d1 r. markOne u batch b t e (d, rs, es) = (d1, rs @ [r], es)
           \<and> Batch_findById d1 b = Some batch
           \<and> upsert_of_entry d u b t e r \<and> entry_recorded u b t e r"
proof -
  let ?s = "entry_student e"
  let ?n = "(case entry_notes e of None \<Rightarrow> [] | Some n \<Rightarrow> n)"
  from markOne_valid_batches [OF assms, of u rs es] obtain d1 r
    where m: "markOne u batch b t e (d, rs, es) = (d1, rs @ [r], es)"
      and bf: "Batch_findById d1 b = Some batch" by blast
  have w: "setHours t 0 0 0 \<le> t \<and> t < setHours t 23 59 59"
    using assms(4) by (rule setHours_window)
  from markOne_cases [OF assms(2), of u b t d rs es]
  have "upsert_of_entry d u b t e r \<and> entry_recorded u b t e r"
  proof (elim disjE exE conjE)
    fix err
    assume "markOne u batch b t e (d, rs, es) = (d, rs, es @ [ProcessingError ?s err])"
    with m show ?thesis by simp
  next
    fix ex :: attendance
    let ?r = "ex\<lparr>att_status := entry_status e, att_notes := ?n, markedBy := uid u\<rparr>"
    assume upd: "Attendance_findOne d ?s b t = Some ex"
      "markOne u batch b t e (d, rs, es)
           = (d\<lparr>attendances := map (\<lambda>x. if aid x = aid ex then ?r else x) (attendances d)\<rparr>,
              rs @ [?r], es)"
    from upd(2) m have r: "r = ?r" by simp
    from findOne_mem [OF upd(1)] upd(1) show ?thesis
      by (simp add: r upsert_of_entry_def entry_recorded_def)
  next
    let ?r = "\<lparr>aid = fresh_aid (attendances d), att_student = ?s,
                         att_batch = b, att_date = t,
                         att_status = (case entry_status e of None \<Rightarrow> Some ''present'' | Some s \<Rightarrow> Some s),
                         att_notes = ?n, markedBy = uid u\<rparr>"
    assume new: "Attendance_findOne d ?s b t = None"
        "markOne u batch b t e (d, rs, es)
           = (d\<lparr>attendances := attendances d @ [?r]\<rparr>, rs @ [?r], es)"
    from new(2) m have r: "r = ?r" by simp
    have u1: "upsert_of_entry d u b t e r"
      using new(1) fresh_aid_new [of "attendances d"] by (simp add: r upsert_of_entry_def)
    have u2: "entry_recorded u b t e r"
      using w by (cases "entry_status e") (simp_all add: r entry_recorded_def)
    from u1 u2 show ?thesis ..
  qed
  with m bf show ?thesis by blast
qed

lemma bulk_fold_recorded:
  assumes "Batch_findById d b = Some batch" "t < setHours t 23 59 59"
    and "\<forall>att \<in> set atts. entry_student att \<in> set (students batch) \<longrightarrow> validEntry att"
  shows "\<exists>d' rs2 es2. foldl (\<lambda>acc att. markOne u batch b t att acc) (d, rs, es) atts = (d', rs @ rs2, es @ es2)
      \<and> list_all2 (entry_recorded u b t)
           (filter (\<lambda>e. entry_student e \<in> set (students batch)) atts) rs2
      \<and> es2 = map (\<lambda>e. NotInBatch (entry_student e))
                (filter (\<lambda>e. entry_student e \<notin> set (students batch)) atts)"
  using assms
proof (induction atts arbitrary: d rs es)
  case Nil
  show ?case by simp
next
  case (Cons att atts)
  let ?F = "\<lambda>acc att. markOne u batch b t att acc"
  let ?en = "\<lambda>e. entry_student e \<in> set (students batch)"
  from Cons.prems(3) have rest: "\<forall>att \<in> set atts. entry_student att \<in> set (students batch) \<longrightarrow> validEntry att"
    by simp
  show ?case
  proof (cases "entry_student att \<in> set (students batch)")
    case False
    from Cons.IH [OF Cons.prems(1,2) rest, of rs "es @ [NotInBatch (entry_student att)]"]
    obtain d' rs2 es2 where h: "foldl ?F (d, rs, es @ [NotInBatch (entry_student att)]) atts
          = (d', rs @ rs2, (es @ [NotInBatch (entry_student att)]) @ es2)"
      "list_all2 (entry_recorded u b t) (filter ?en atts) rs2"
      "es2 = map (\<lambda>e. NotInBatch (entry_student e))
                (filter (\<lambda>e. entry_student e \<notin> set (students batch)) atts)"
      by blast
    have "foldl ?F (d, rs, es) (att # atts) = (d', rs @ rs2, es @ (NotInBatch (entry_student att) # es2))"
      using h(1) False by (simp add: markOne_not_enrolled)
    with h False show ?thesis
      by (intro exI [of _ d'] exI [of _ rs2] exI [of _ "NotInBatch (entry_student att) # es2"]) simp
  next
    case True
    with Cons.prems(3) have v: "validEntry att" by simp
    from markOne_valid_upsert [OF Cons.prems(1) True v Cons.prems(2), of u rs es]
    obtain d1 r where r: "markOne u batch b t att (d, rs, es) = (d1, rs @ [r], es)"
      "Batch_findById d1 b = Some batch" "entry_recorded u b t att r" by blast
    from Cons.IH [OF r(2) Cons.prems(2) rest, of "rs @ [r]" es]
    obtain d' rs2 es2 where h: "foldl ?F (d1, rs @ [r], es) atts = (d', (rs @ [r]) @ rs2, es @ es2)"
      "list_all2 (entry_recorded u b t) (filter ?en atts) rs2"
      "es2 = map (\<lambda>e. NotInBatch (entry_student e))
                (filter (\<lambda>e. entry_student e \<notin> set (students batch)) atts)"
      by blast
    have "foldl ?F (d, rs, es) (att # atts) = (d', rs @ (r # rs2), es @ es2)"
      using h(1) r(1) by simp
    with h r(3) True show ?thesis
      by (intro exI [of _ d'] exI [of _ "r # rs2"] exI [of _ es2]) simp
  qed
qed

lemma upsert_of_entry_earlier:
  assumes "upsert_of_entry d1 u b t e r"
    and "Attendance_findOne d1 (entry_student e) b t = Attendance_findOne d (entry_student e) b t"
    and "set (map aid (attendances d)) \<subseteq> set (map aid (attendances d1))"
  shows "upsert_of_entry d u b t e r"
proof (cases "Attendance_findOne d (entry_student e) b t")
  case None
  with assms(1,2) have "aid r \<notin> set (map aid (attendances d1))"
    and r: "r = \<lparr>aid = aid r, att_student = entry_student e, att_batch = b, att_date = t,
                  att_status = (case entry_status e of None \<Rightarrow> Some ''present'' | Some s \<Rightarrow> Some s),
                  att_notes = (case entry_notes e of None \<Rightarrow> [] | Some n \<Rightarrow> n),
                  markedBy = uid u\<rparr>"
    by (simp_all add: upsert_of_entry_def)
  with assms(3) have "aid r \<notin> set (map aid (attendances d))" by blast
  with None r show ?thesis unfolding upsert_of_entry_def by simp
next
  case (Some ex)
  with assms(1,2) show ?thesis by (simp add: upsert_of_entry_def)
qed

lemma bulk_fold_upsert:
  assumes "Batch_findById d b = Some batch" "t < setHours t 23 59 59"
    and "\<forall>att \<in> set atts. entry_student att \<in> set (students batch) \<longrightarrow> validEntry att"
    and "distinct (map aid (attendances d))" "distinct (map entry_student atts)"
  shows "\<exists>d' rs2 es2. foldl (\<lambda>acc att. markOne u batch b t att acc) (d, rs, es) atts = (d', rs @ rs2, es @ es2)
      \<and> list_all2 (upsert_of_entry d u b t)
           (filter (\<lambda>e. entry_student e \<in> set (students batch)) atts) rs2"
  using assms
proof (induction atts arbitrary: d rs es)
  case Nil
  show ?case by simp
next
  case (Cons att atts)
  let ?F = "\<lambda>acc att. markOne u batch b t att acc"
  let ?en = "\<lambda>e. entry_student e \<in> set (students batch)"
  from Cons.prems(3) have rest: "\<forall>att \<in> set atts. entry_student att \<in> set (students batch) \<longrightarrow> validEntry att"
    by simp
  from Cons.prems(5) have dt: "distinct (map entry_student atts)"
    and fresh: "entry_student att \<notin> entry_student ` set atts" by simp_all
  show ?case
  proof (cases "entry_student att \<in> set (students batch)")
    case False
    from Cons.IH [OF Cons.prems(1,2) rest Cons.prems(4) dt, of rs "es @ [NotInBatch (entry_student att)]"]
    obtain d' rs2 es2 where h: "foldl ?F (d, rs, es @ [NotInBatch (entry_student att)]) atts
          = (d', rs @ rs2, (es @ [NotInBatch (entry_student att)]) @ es2)"
      "list_all2 (upsert_of_entry d u b t) (filter ?en atts) rs2"
      by blast
    have "foldl ?F (d, rs, es) (att # atts) = (d', rs @ rs2, es @ (NotInBatch (entry_student att) # es2))"
      using h(1) False by (simp add: markOne_not_enrolled)
    with h False show ?thesis
      by (intro exI [of _ d'] exI [of _ rs2] exI [of _ "NotInBatch (entry_student att) # es2"]) simp
  next
    case True
    with Cons.prems(3) have v: "validEntry att" by simp
    from markOne_valid_upsert [OF Cons.prems(1) True v Cons.prems(2), of u rs es]
    obtain d1 r where r: "markOne u batch b t att (d, rs, es) = (d1, rs @ [r], es)"
      "Batch_findById d1 b = Some batch" "upsert_of_entry d u b t att r" by blast
    from markOne_store [OF True Cons.prems(4) r(1)]
    have st: "distinct (map aid (attendances d1))"
      "\<forall>s'. s' \<noteq> entry_student att \<longrightarrow> Attendance_findOne d1 s' b t = Attendance_findOne d s' b t"
      "set (map aid (attendances d)) \<subseteq> set (map aid (attendances d1))"
      by simp_all
    from Cons.IH [OF r(2) Cons.prems(2) rest st(1) dt, of "rs @ [r]" es]
    obtain d' rs2 es2 where h: "foldl ?F (d1, rs @ [r], es) atts = (d', (rs @ [r]) @ rs2, es @ es2)"
      "list_all2 (upsert_of_entry d1 u b t) (filter ?en atts) rs2"
      by blast
    from h(2) have "list_all2 (upsert_of_entry d u b t) (filter ?en atts) rs2"
    proof (rule list.rel_mono_strong)
      fix e x
      assume e: "e \<in> set (filter ?en atts)" and up: "upsert_of_entry d1 u b t e x"
      from e have "entry_student e \<in> entry_student ` set atts" by simp
      with fresh have "entry_student e \<noteq> entry_student att" by metis
      with st(2) have "Attendance_findOne d1 (entry_student e) b t = Attendance_findOne d (entry_student e) b t"
        by simp
      with up show "upsert_of_entry d u b t e x" using st(3) by (rule upsert_of_entry_earlier)
    qed
    moreover have "foldl ?F (d, rs, es) (att # atts) = (d', rs @ (r # rs2), es @ es2)"
      using h(1) r(1) by simp
    ultimately show ?thesis using r(3) True
      by (intro exI [of _ d'] exI [of _ "r # rs2"] exI [of _ es2]) simp
  qed
qed

lemma bulk_fold_kept:
  assumes "distinct (map aid (attendances d))" "distinct (map entry_student atts)"
  shows "\<exists>d' rs2 es2. foldl (\<lambda>acc att. markOne u batch b t att acc) (d, rs, es) atts = (d', rs @ rs2, es @ es2)
      \<and> distinct (map aid (attendances d'))
      \<and> set rs2 \<subseteq> set (attendances d')
      \<and> (\<forall>x\<in>set (attendances d). att_student x \<notin> entry_student ` set atts \<longrightarrow> x \<in> set (attendances d'))"
  using assms
proof (induction atts arbitrary: d rs es)
  case Nil
  then show ?case by simp
next
  case (Cons att atts)
  let ?F = "\<lambda>acc att. markOne u batch b t att acc"
  from Cons.prems(2) have dt: "distinct (map entry_student atts)"
    and fresh: "entry_student att \<notin> entry_student ` set atts" by simp_all
  show ?case
  proof (cases "entry_student att \<in> set (students batch)")
    case False
    from Cons.IH [OF Cons.prems(1) dt, of rs "es @ [NotInBatch (entry_student att)]"]
    obtain d' rs2 es2 where h: "foldl ?F (d, rs, es @ [NotInBatch (entry_student att)]) atts
          = (d', rs @ rs2, (es @ [NotInBatch (entry_student att)]) @ es2)"
      "distinct (map aid (attendances d'))" "set rs2 \<subseteq> set (attendances d')"
      "\<forall>x\<in>set (attendances d). att_student x \<notin> entry_student ` set atts \<longrightarrow> x \<in> set (attendances d')"
      by blast
    have "foldl ?F (d, rs, es) (att # atts) = (d', rs @ rs2, es @ (NotInBatch (entry_student att) # es2))"
      using h(1) False by (simp add: markOne_not_enrolled)
    with h show ?thesis
      by (intro exI [of _ d'] exI [of _ rs2] exI [of _ "NotInBatch (entry_student att) # es2"]) simp
  next
    case True
    obtain d1 rs1 es1 where m: "markOne u batch b t att (d, rs, es) = (d1, rs1, es1)"
      by (cases "markOne u batch b t att (d, rs, es)") auto
    from markOne_store [OF True Cons.prems(1) m]
    have st: "distinct (map aid (attendances d1))"
      "\<forall>x\<in>set (attendances d). att_student x \<noteq> entry_student att \<longrightarrow> x \<in> set (attendances d1)"
      and res: "(rs1 = rs \<and> (\<exists>err. es1 = es @ [err]))
            \<or> (\<exists>r. rs1 = rs @ [r] \<and> es1 = es \<and> r \<in> set (attendances d1)
                  \<and> att_student r = entry_student att)"
      by simp_all
    from res show ?thesis
    proof (elim disjE exE conjE)
      fix err assume e: "rs1 = rs" "es1 = es @ [err]"
      from Cons.IH [OF st(1) dt, of rs "es @ [err]"]
      obtain d' rs2 es2 where h: "foldl ?F (d1, rs, es @ [err]) atts
          = (d', rs @ rs2, (es @ [err]) @ es2)"
        "distinct (map aid (attendances d'))" "set rs2 \<subseteq> set (attendances d')"
        "\<forall>x\<in>set (attendances d1). att_student x \<notin> entry_student ` set atts \<longrightarrow> x \<in> set (attendances d')"
        by blast
      have f: "foldl ?F (d, rs, es) (att # atts) = (d', rs @ rs2, es @ (err # es2))"
        using h(1) m e by simp
      have k: "\<forall>x\<in>set (attendances d). att_student x \<notin> entry_student ` set (att # atts) \<longrightarrow> x \<in> set (attendances d')"
        using st(2) h(4) by auto
      from f h(2,3) k show ?thesis
        by (intro exI [of _ d'] exI [of _ rs2] exI [of _ "err # es2"]) simp
    next
      fix r assume e: "rs1 = rs @ [r]" "es1 = es" "r \<in> set (attendances d1)"
        "att_student r = entry_student att"
      from Cons.IH [OF st(1) dt, of "rs @ [r]" es]
      obtain d' rs2 es2 where h: "foldl ?F (d1, rs @ [r], es) atts
          = (d', (rs @ [r]) @ rs2, es @ es2)"
        "distinct (map aid (attendances d'))" "set rs2 \<subseteq> set (attendances d')"
        "\<forall>x\<in>set (attendances d1). att_student x \<notin> entry_student ` set atts \<longrightarrow> x \<in> set (attendances d')"
        by blast
      have f: "foldl ?F (d, rs, es) (att # atts) = (d', rs @ (r # rs2), es @ es2)"
        using h(1) m e by simp
      have k: "\<forall>x\<in>set (attendances d). att_student x \<notin> entry_student ` set (att # atts) \<longrightarrow> x \<in> set (attendances d')"
        using st(2) h(4) by auto
      have "r \<in> set (attendances d')" using e(3,4) fresh h(4) by auto
      with f h(2,3) k show ?thesis
        by (intro exI [of _ d'] exI [of _ "r # rs2"] exI [of _ es2]) simp
    qed
  qed
qed

lemma markOne_acc:
  assumes "markOne u batch b t e (d, rs, es) = (d1, rs1, es1)"
  shows "markOne u batch b t e (d, rs0 @ rs, es0 @ es) = (d1, rs0 @ rs1, es0 @ es1)"
  using assms
  by (auto simp: markOne_def Let_def split: if_splits option.splits prod.splits sum.splits)

lemma bulk_fold_acc:
  assumes "foldl (\<lambda>acc att. markOne u batch b t att acc) (d, rs, es) atts = (d', rs', es')"
  shows "foldl (\<lambda>acc att. markOne u batch b t att acc) (d, rs0 @ rs, es0 @ es) atts
           = (d', rs0 @ rs', es0 @ es')"
  using assms
proof (induction atts arbitrary: d rs es)
  case Nil
  then show ?case by simp
next
  case (Cons e atts)
  obtain d1 rs1 es1 where m: "markOne u batch b t e (d, rs, es) = (d1, rs1, es1)"
    by (cases "markOne u batch b t e (d, rs, es)") auto
  from Cons.prems m have "foldl (\<lambda>acc att. markOne u batch b t att acc) (d1, rs1, es1) atts = (d', rs', es')"
    by simp
  from Cons.IH [OF this] markOne_acc [OF m, of rs0 es0] show ?case by simp
qed

lemma bulk_run:
  assumes "markMultipleAttendances d u (Some b) (Some t) (Some xs) = (Inr r, d1)"
  shows "\<exists>batch rs es. t \<noteq> 0 \<and> Batch_findById d b = Some batch
           \<and> \<not> (teacher batch \<noteq> uid u \<and> urole u \<noteq> Admin)
           \<and> foldl (\<lambda>acc att. markOne u batch b t att acc) (d, [], []) xs = (d1, rs, es)
           \<and> r = \<lparr>resp_success = (es = []), resp_data = rs,
                    resp_errors = (if es \<noteq> [] then Some es else None)\<rparr>"
  using assms
  by (auto simp: markMultipleAttendances_def split: if_splits option.splits prod.splits)

lemma bulk_append:
  assumes "markMultipleAttendances d u (Some b) (Some t) (Some xs) = (Inr r1, d1)"
    and "markMultipleAttendances d1 u (Some b) (Some t) (Some ys) = (Inr r2, d2)"
  shows "markMultipleAttendances d u (Some b) (Some t) (Some (xs @ ys))
       = (Inr \<lparr>resp_success = (errorsOf r1 @ errorsOf r2 = []),
                resp_data = resp_data r1 @ resp_data r2,
                resp_errors = (if errorsOf r1 @ errorsOf r2 \<noteq> []
                               then Some (errorsOf r1 @ errorsOf r2) else None)\<rparr>, d2)"
proof -
  from bulk_run [OF assms(1)] obtain batch rs1 es1 where a: "t \<noteq> 0"
    "Batch_findById d b = Some batch" "\<not> (teacher batch \<noteq> uid u \<and> urole u \<noteq> Admin)"
    "foldl (\<lambda>acc att. markOne u batch b t att acc) (d, [], []) xs = (d1, rs1, es1)"
    "r1 = \<lparr>resp_success = (es1 = []), resp_data = rs1,
            resp_errors = (if es1 \<noteq> [] then Some es1 else None)\<rparr>"
    by blast
  from bulk_run [OF assms(2)] obtain batch2 rs2 es2 where b:
    "Batch_findById d1 b = Some batch2"
    "foldl (\<lambda>acc att. markOne u batch2 b t att acc) (d1, [], []) ys = (d2, rs2, es2)"
    "r2 = \<lparr>resp_success = (es2 = []), resp_data = rs2,
            resp_errors = (if es2 \<noteq> [] then Some es2 else None)\<rparr>"
    by blast
  from bulk_fold [of u batch b t d "[]" "[]" xs] a(4) have "batches d1 = batches d" by auto
  with a(2) b(1) have same: "batch2 = batch" by (simp add: Batch_findById_def)
  from bulk_fold_acc [OF b(2) [unfolded same], of rs1 es1]
  have "foldl (\<lambda>acc att. markOne u batch b t att acc) (d1, rs1, es1) ys = (d2, rs1 @ rs2, es1 @ es2)"
    by simp
  with a(4) have f: "foldl (\<lambda>acc att. markOne u batch b t att acc) (d, [], []) (xs @ ys)
      = (d2, rs1 @ rs2, es1 @ es2)" by simp
  have e1: "errorsOf r1 = es1" and e2: "errorsOf r2 = es2"
    by (simp_all add: a(5) b(3) errorsOf_def)
  have d1: "resp_data r1 = rs1" and d2: "resp_data r2 = rs2" by (simp_all add: a(5) b(3))
  show ?thesis
    unfolding e1 e2 d1 d2 using a(1,2,3) f by (simp add: markMultipleAttendances_def)
qed

lemma bulk_single_not_enrolled:
  assumes "Batch_findById d b = Some batch" and "teacher batch = uid u \<or> urole u = Admin"
    and "t \<noteq> 0" and "entry_student e \<notin> set (students batch)"
  shows "markMultipleAttendances d u (Some b) (Some t) (Some [e])
       = (Inr \<lparr>resp_success = False, resp_data = [],
               resp_errors = Some [NotInBatch (entry_student e)]\<rparr>, d)"
  using assms by (auto simp: markMultipleAttendances_def markOne_not_enrolled)

lemma bulk_single_valid:
  assumes "Batch_findById d b = Some batch" and "teacher batch = uid u \<or> urole u = Admin"
    and "t \<noteq> 0" and "entry_student e \<in> set (students batch)"
    and "validEntry e" and "t < setHours t 23 59 59"
  shows "\<exists>r. upsert_of_entry d u b t e r
          \<and> markMultipleAttendances d u (Some b) (Some t) (Some [e])
              = (Inr \<lparr>resp_success = True, resp_data = [r], resp_errors = None\<rparr>,
                 d\<lparr>attendances :=
                     (case Attendance_findOne d (entry_student e) b t of
                        Some existing \<Rightarrow> map (\<lambda>x. if aid x = aid existing then r else x) (attendances d)
                      | None \<Rightarrow> attendances d @ [r])\<rparr>)"
proof -
  let ?s = "entry_student e"
  let ?n = "(case entry_notes e of None \<Rightarrow> [] | Some n \<Rightarrow> n)"
  from markOne_valid_upsert [OF assms(1,4,5,6), of u "[]" "[]"] obtain d1 r
    where m: "markOne u batch b t e (d, [], []) = (d1, [r], [])"
      and up: "upsert_of_entry d u b t e r" by auto
  from markOne_cases [OF assms(4), of u b t d "[]" "[]"]
  have "d1 = d\<lparr>attendances :=
                     (case Attendance_findOne d ?s b t of
                        Some existing \<Rightarrow> map (\<lambda>x. if aid x = aid existing then r else x) (attendances d)
                      | None \<Rightarrow> attendances d @ [r])\<rparr>"
  proof (elim disjE exE conjE)
    fix err
    assume "markOne u batch b t e (d, [], []) = (d, [], [] @ [ProcessingError ?s err])"
    with m show ?thesis by simp
  next
    fix ex :: attendance
    assume "Attendance_findOne d ?s b t = Some ex"
      "markOne u batch b t e (d, [], [])
           = (d\<lparr>attendances := map (\<lambda>x. if aid x = aid ex
                    then ex\<lparr>att_status := entry_status e, att_notes := ?n, markedBy := uid u\<rparr>
                    else x) (attendances d)\<rparr>,
              [] @ [ex\<lparr>att_status := entry_status e, att_notes := ?n, markedBy := uid u\<rparr>], [])"
    with m show ?thesis by auto
  next
    assume "Attendance_findOne d ?s b t = None"
        "markOne u batch b t e (d, [], [])
           = (d\<lparr>attendances := attendances d @
                 [\<lparr>aid = fresh_aid (attendances d), att_student = ?s,
                         att_batch = b, att_date = t,
                         att_status = (case entry_status e of None \<Rightarrow> Some ''present'' | Some s \<Rightarrow> Some s),
                         att_notes = ?n, markedBy = uid u\<rparr>]\<rparr>,
              [] @ [\<lparr>aid = fresh_aid (attendances d), att_student = ?s,
                         att_batch = b, att_date = t,
                         att_status = (case entry_status e of None \<Rightarrow> Some ''present'' | Some s \<Rightarrow> Some s),
                         att_notes = ?n, markedBy = uid u\<rparr>], [])"
    with m show ?thesis by auto
  qed
  with m assms(1,2,3) have "markMultipleAttendances d u (Some b) (Some t) (Some [e])
              = (Inr \<lparr>resp_success = True, resp_data = [r], resp_errors = None\<rparr>,
                 d\<lparr>attendances :=
                     (case Attendance_findOne d ?s b t of
                        Some existing \<Rightarrow> map (\<lambda>x. if aid x = aid existing then r else x) (attendances d)
                      | None \<Rightarrow> attendances d @ [r])\<rparr>)"
    by (auto simp: markMultipleAttendances_def)
  with up show ?thesis by blast
qed

text \<open>
  C5 (amended). A bulk request with a date other than 0 and N entries, on a batch that exists,
  sent by its teacher or an admin; K of the entries reference students who are not enrolled in
  the batch. The handler answers with a results list and an errors list that together have N
  members, at least K of them in the errors list. The success flag is true exactly when the
  errors list is empty. Nothing is rolled back: the
  store left behind is the one that processing the entries of the enrolled students alone
  leaves, with the batches as they were; every record id of the store before is still the id
  of a stored record, the id of every result is the id of a stored record, and, when the
  record ids of the store are unique and no student is listed twice, every record of the
  results list is in the store.

  When the date is before 23:59:59 of its day and every entry of an enrolled student carries a
  status of the enum (or none) and notes of at most 500 characters, the N - K entries of
  enrolled students are upserted and nothing else fails: there are exactly N - K results, one
  for each such entry, in the order of the entries, and each records its entry (student, batch,
  day, notes, caller as marker, status); the errors list has length K and consists of the
  not-in-batch messages of the other entries; and, when the record ids of the store are unique
  and no student is listed twice, each result is the upsert of its entry against the store
  before the request, that is, the student's record of that day updated, or a new record
  created when there was none.

  The entries are processed one at a time, in the order of the list. A request of one entry
  of a student who is not enrolled answers with no result and the error for that student, and
  leaves the store as it was. A request of one entry of an enrolled student, with a status of
  the enum (or none), notes of at most 500 characters and a date before 23:59:59 of its day,
  answers with success and one result, the upsert of the entry against the store, and leaves
  the store with the found record replaced by the result, or with the result appended when
  no record was found. The answer to a request made of the entries \<open>xs\<close> followed by the
  entries \<open>ys\<close> is made of the answer to \<open>xs\<close> and of the answer to \<open>ys\<close> on the store that
  \<open>xs\<close> leaves: the results and the errors appended in that order, success when there is
  no error, and the store that \<open>ys\<close> leaves.
\<close>

theorem bulk_mark_partial_success:
  assumes "Batch_findById d b = Some batch" and "teacher batch = uid u \<or> urole u = Admin"
    and "t \<noteq> 0"
  shows "(\<exists>resp d'. markMultipleAttendances d u (Some b) (Some t) (Some atts) = (Inr resp, d')
     \<and> batches d' = batches d
     \<and> length (resp_data resp) + length (errorsOf resp) = length atts
     \<and> length (filter (\<lambda>e. entry_student e \<notin> set (students batch)) atts) \<le> length (errorsOf resp)
     \<and> resp_success resp = (errorsOf resp = [])
     \<and> d' = snd (markMultipleAttendances d u (Some b) (Some t)
                   (Some (filter (\<lambda>e. entry_student e \<in> set (students batch)) atts)))
     \<and> aid ` set (attendances d) \<subseteq> aid ` set (attendances d')
     \<and> aid ` set (resp_data resp) \<subseteq> aid ` set (attendances d')
     \<and> (distinct (map aid (attendances d)) \<and> distinct (map entry_student atts)
          \<longrightarrow> set (resp_data resp) \<subseteq> set (attendances d'))
     \<and> (t < setHours t 23 59 59
          \<and> (\<forall>e \<in> set atts. entry_student e \<in> set (students batch) \<longrightarrow> validEntry e)
        \<longrightarrow> length (resp_data resp)
              = length atts - length (filter (\<lambda>e. entry_student e \<notin> set (students batch)) atts)
            \<and> length (errorsOf resp)
              = length (filter (\<lambda>e. entry_student e \<notin> set (students batch)) atts)
            \<and> errorsOf resp
              = map (\<lambda>e. NotInBatch (entry_student e))
                  (filter (\<lambda>e. entry_student e \<notin> set (students batch)) atts)
            \<and> list_all2 (entry_recorded u b t)
                (filter (\<lambda>e. entry_student e \<in> set (students batch)) atts) (resp_data resp)
            \<and> (distinct (map aid (attendances d)) \<and> distinct (map entry_student atts)
                 \<longrightarrow> list_all2 (upsert_of_entry d u b t)
                       (filter (\<lambda>e. entry_student e \<in> set (students batch)) atts)
                       (resp_data resp))))
   \<and> (\<forall>e. entry_student e \<notin> set (students batch)
         \<longrightarrow> markMultipleAttendances d u (Some b) (Some t) (Some [e])
               = (Inr \<lparr>resp_success = False, resp_data = [],
                       resp_errors = Some [NotInBatch (entry_student e)]\<rparr>, d))
   \<and> (\<forall>e. entry_student e \<in> set (students batch) \<and> validEntry e \<and> t < setHours t 23 59 59
         \<longrightarrow> (\<exists>r. upsert_of_entry d u b t e r
                \<and> markMultipleAttendances d u (Some b) (Some t) (Some [e])
                    = (Inr \<lparr>resp_success = True, resp_data = [r], resp_errors = None\<rparr>,
                       d\<lparr>attendances :=
                           (case Attendance_findOne d (entry_student e) b t of
                              Some existing \<Rightarrow>
                                map (\<lambda>x. if aid x = aid existing then r else x) (attendances d)
                            | None \<Rightarrow> attendances d @ [r])\<rparr>)))
   \<and> (\<forall>xs ys r1 d1 r2 d2.
          markMultipleAttendances d u (Some b) (Some t) (Some xs) = (Inr r1, d1)
          \<and> markMultipleAttendances d1 u (Some b) (Some t) (Some ys) = (Inr r2, d2)
         \<longrightarrow> markMultipleAttendances d u (Some b) (Some t) (Some (xs @ ys))
               = (Inr \<lparr>resp_success = (errorsOf r1 @ errorsOf r2 = []),
                       resp_data = resp_data r1 @ resp_data r2,
                       resp_errors = (if errorsOf r1 @ errorsOf r2 \<noteq> []
                                      then Some (errorsOf r1 @ errorsOf r2) else None)\<rparr>, d2))"
    (is "?M \<and> ?A1 \<and> ?A2 \<and> ?B")
proof -
  have m: ?M
  proof -
    let ?F = "\<lambda>acc att. markOne u batch b t att acc"
    let ?en = "\<lambda>e. entry_student e \<in> set (students batch)"
    let ?ne = "\<lambda>e. entry_student e \<notin> set (students batch)"
    let ?K = "length (filter ?ne atts)"
    from bulk_fold [of u batch b t d "[]" "[]" atts]
    obtain d' rs es where f: "foldl ?F (d, [], []) atts = (d', rs, es)"
      and n: "length rs + length es = length atts" and k: "?K \<le> length es"
      and bs: "batches d' = batches d"
      and ids: "aid ` set (attendances d) \<subseteq> aid ` set (attendances d')"
        "aid ` set rs \<subseteq> aid ` set (attendances d')"
      by auto
    let ?resp = "\<lparr>resp_success = (es = []), resp_data = rs,
                  resp_errors = (if es \<noteq> [] then Some es else None)\<rparr>"
    have run: "markMultipleAttendances d u (Some b) (Some t) (Some atts) = (Inr ?resp, d')"
      using assms f by (auto simp: markMultipleAttendances_def)
    have eo: "errorsOf ?resp = es" by (simp add: errorsOf_def)
    have rd: "resp_data ?resp = rs" by simp
    have sc: "resp_success ?resp = (es = [])" by simp
    have kept: "set rs \<subseteq> set (attendances d')"
      if "distinct (map aid (attendances d)) \<and> distinct (map entry_student atts)"
    proof -
      from that bulk_fold_kept [of d atts u batch b t "[]" "[]"] f show ?thesis by auto
    qed
    have valid: "length rs = length atts - ?K \<and> length es = ?K
          \<and> es = map (\<lambda>e. NotInBatch (entry_student e)) (filter ?ne atts)
          \<and> list_all2 (entry_recorded u b t) (filter ?en atts) rs
          \<and> (distinct (map aid (attendances d)) \<and> distinct (map entry_student atts)
               \<longrightarrow> list_all2 (upsert_of_entry d u b t) (filter ?en atts) rs)"
      if v: "t < setHours t 23 59 59 \<and> (\<forall>e \<in> set atts. ?en e \<longrightarrow> validEntry e)"
    proof -
      from v have v1: "t < setHours t 23 59 59" and v2: "\<forall>e \<in> set atts. ?en e \<longrightarrow> validEntry e"
        by simp_all
      from bulk_fold_recorded [OF assms(1) v1 v2, of u "[]" "[]"] f
      have es: "es = map (\<lambda>e. NotInBatch (entry_student e)) (filter ?ne atts)"
        and rec: "list_all2 (entry_recorded u b t) (filter ?en atts) rs" by auto
      from es have le: "length es = ?K" by simp
      with n have lr: "length rs = length atts - ?K" by simp
      have up: "list_all2 (upsert_of_entry d u b t) (filter ?en atts) rs"
        if "distinct (map aid (attendances d)) \<and> distinct (map entry_student atts)"
      proof -
        from that have d1: "distinct (map aid (attendances d))" and d2: "distinct (map entry_student atts)"
          by simp_all
        from bulk_fold_upsert [OF assms(1) v1 v2 d1 d2, of u "[]" "[]"] f show ?thesis by auto
      qed
      from lr le es rec up show ?thesis by simp
    qed
    obtain d2 rs2 es2 where g: "foldl ?F (d, [], []) (filter ?en atts) = (d2, rs2, es2)"
      by (cases "foldl ?F (d, [], []) (filter ?en atts)") auto
    from bulk_fold_filter [of u batch b t d "[]" "[]" atts] f g have "d' = d2" by simp
    moreover have "snd (markMultipleAttendances d u (Some b) (Some t) (Some (filter ?en atts))) = d2"
      using assms g by (auto simp: markMultipleAttendances_def)
    ultimately have same: "d' = snd (markMultipleAttendances d u (Some b) (Some t) (Some (filter ?en atts)))"
      by simp
    show ?thesis
      apply (rule exI [of _ ?resp], rule exI [of _ d'])
      unfolding eo rd sc
      using run bs n k valid same ids kept by (intro conjI impI) simp_all
  qed
  have a1: ?A1
    using bulk_single_not_enrolled [OF assms] by blast
  have a2: ?A2
    using bulk_single_valid [OF assms] by blast
  have b: ?B
    using bulk_append by blast
  from m a1 a2 b show ?thesis by (intro conjI)
qed


lemma find_distinct_key:
  "distinct (map k xs) \<Longrightarrow> x \<in> set xs \<Longrightarrow> find (\<lambda>y. k y = k x) xs = Some x"
  by (induction xs) (auto simp: image_iff)

text \<open>
  C10. When the entry of a bulk request finds the student's record of that day and the save
  succeeds, the stored record is the old one with status and notes of the entry and with
  \<open>markedBy\<close> set to the caller's id. From then on a user who is not an admin gets 403 from
  updateAttendance and deleteAttendance on that record unless that user is the bulk caller,
  and the bulk caller is let through by both; before the bulk call the original marker was
  let through. (Record ids are unique in the store.)
\<close>

theorem bulk_update_takes_over_record:
  assumes "Attendance_findOne d (entry_student att) b t = Some existing"
    and "markOne u batch b t att (d, rs, es) = (d', rs @ [r], es)"
    and "distinct (map aid (attendances d))"
  shows "r = existing\<lparr>att_status := entry_status att,
                       att_notes := (case entry_notes att of None \<Rightarrow> [] | Some n \<Rightarrow> n),
                       markedBy := uid u\<rparr>
     \<and> Attendance_findById d (aid existing) = Some existing
     \<and> Attendance_findById d' (aid existing) = Some r
     \<and> markedBy r = uid u
     \<and> (\<forall>v upd. urole v \<noteq> Admin \<and> uid v \<noteq> uid u \<longrightarrow>
           updateAttendance d' v (aid existing) upd
             = (Inl (ErrorResponse ''Not authorized to update this attendance record'' 403), d')
         \<and> deleteAttendance d' v (aid existing)
             = (Inl (ErrorResponse ''Not authorized to delete this attendance record'' 403), d'))
     \<and> (\<forall>v upd. uid v = uid u \<longrightarrow>
           fst (deleteAttendance d' v (aid existing)) = Inr ()
         \<and> (fst (updateAttendance d' v (aid existing) upd) = Inl ValidationError
              \<or> (\<exists>a. fst (updateAttendance d' v (aid existing) upd) = Inr a)))
     \<and> (\<forall>v. uid v = markedBy existing \<longrightarrow> fst (deleteAttendance d v (aid existing)) = Inr ())"
proof -
  let ?n = "(case entry_notes att of None \<Rightarrow> [] | Some n \<Rightarrow> n)"
  let ?a = "existing\<lparr>att_status := entry_status att, att_notes := ?n, markedBy := uid u\<rparr>"
  from assms(1) have mem: "existing \<in> set (attendances d)"
    unfolding Attendance_findOne_def by (auto simp: find_Some_iff)
  have before: "Attendance_findById d (aid existing) = Some existing"
    unfolding Attendance_findById_def using assms(3) mem by (rule find_distinct_key)
  have enr: "entry_student att \<in> set (students batch)"
    using assms(2) by (auto simp: markOne_def split: if_splits)
  from Attendance_save_cases [of d ?a] assms(1,2) enr
  have r: "r = ?a"
    and d': "d' = d\<lparr>attendances := map (\<lambda>x. if aid x = aid ?a then ?a else x) (attendances d)\<rparr>"
    by (auto simp: markOne_def Let_def)
  have after: "Attendance_findById d' (aid existing) = Some r"
    unfolding Attendance_findById_def d' r
    using find_map_replace [of aid "aid existing" "attendances d" existing ?a] before
    by (simp add: Attendance_findById_def)
  have mb: "markedBy r = uid u" by (simp add: r)
  have c5: "\<forall>v upd. urole v \<noteq> Admin \<and> uid v \<noteq> uid u \<longrightarrow>
           updateAttendance d' v (aid existing) upd
             = (Inl (ErrorResponse ''Not authorized to update this attendance record'' 403), d')
         \<and> deleteAttendance d' v (aid existing)
             = (Inl (ErrorResponse ''Not authorized to delete this attendance record'' 403), d')"
    using after mb by (auto simp: updateAttendance_def deleteAttendance_def)
  have c6: "\<forall>v upd. uid v = uid u \<longrightarrow>
           fst (deleteAttendance d' v (aid existing)) = Inr ()
         \<and> (fst (updateAttendance d' v (aid existing) upd) = Inl ValidationError
              \<or> (\<exists>a. fst (updateAttendance d' v (aid existing) upd) = Inr a))"
    using after mb by (auto simp: updateAttendance_def deleteAttendance_def Let_def)
  have c7: "\<forall>v. uid v = markedBy existing \<longrightarrow> fst (deleteAttendance d v (aid existing)) = Inr ()"
    using before by (auto simp: deleteAttendance_def)
  from r before after mb c5 c6 c7 show ?thesis by (intro conjI)
qed


lemmas attendance_eval =
  attendance_example_def example_admin_def example_teacher_def example_batch_def
  example_record_def example_entries_def markMultipleAttendances_def markOne_def
  Attendance_findOne_def Attendance_findById_def Attendance_save_def Attendance_create_def
  validAttendance_def attendance_status_enum_def enrolledInBatch_def fresh_aid_def
  setHours_def Batch_findById_def errorsOf_def validEntry_def deleteAttendance_def
  updateAttendance_def Let_def

text \<open>
  Teacher 9 marks three entries on batch 7 for a date on the day of record 1: student 1, who
  has record 1 on that day, student 5, who is not enrolled, and student 2, who has no record.
  Two results, one error for student 5, success false; record 1 is updated and a record is
  created for student 2, and both results are in the store. The entry of student 5 alone
  gives that error and leaves the store as it was, the entry of student 2 alone appends the
  new record, and the entry of student 5 twice gives the error twice.
\<close>

theorem bulk_mark_partial_success_witness:
  "Batch_findById attendance_example 7 = Some example_batch
   \<and> teacher example_batch = uid example_teacher
   \<and> (3600000 :: date) \<noteq> 0
   \<and> 3600000 < setHours 3600000 23 59 59
   \<and> list_all validEntry
        (filter (\<lambda>e. entry_student e \<in> set (students example_batch)) example_entries)
   \<and> distinct (map aid (attendances attendance_example))
   \<and> distinct (map entry_student example_entries)
   \<and> length example_entries = 3
   \<and> length (filter (\<lambda>e. entry_student e \<notin> set (students example_batch)) example_entries) = 1
   \<and> (\<exists>resp d'. markMultipleAttendances attendance_example example_teacher (Some 7) (Some 3600000)
                    (Some example_entries) = (Inr resp, d')
          \<and> length (resp_data resp) = 2 \<and> errorsOf resp = [NotInBatch 5] \<and> \<not> resp_success resp
          \<and> list_all2 (entry_recorded example_teacher 7 3600000)
               (filter (\<lambda>e. entry_student e \<in> set (students example_batch)) example_entries)
               (resp_data resp)
          \<and> list_all2 (upsert_of_entry attendance_example example_teacher 7 3600000)
               (filter (\<lambda>e. entry_student e \<in> set (students example_batch)) example_entries)
               (resp_data resp)
          \<and> set (resp_data resp) \<subseteq> set (attendances d'))
   \<and> 5 \<notin> set (students example_batch)
   \<and> markMultipleAttendances attendance_example example_teacher (Some 7) (Some 3600000)
        (Some [\<lparr>entry_student = 5, entry_status = Some ''present'', entry_notes = None\<rparr>])
      = (Inr \<lparr>resp_success = False, resp_data = [], resp_errors = Some [NotInBatch 5]\<rparr>,
         attendance_example)
   \<and> 2 \<in> set (students example_batch)
   \<and> validEntry \<lparr>entry_student = 2, entry_status = None, entry_notes = None\<rparr>
   \<and> (\<exists>r. upsert_of_entry attendance_example example_teacher 7 3600000
              \<lparr>entry_student = 2, entry_status = None, entry_notes = None\<rparr> r
         \<and> markMultipleAttendances attendance_example example_teacher (Some 7) (Some 3600000)
              (Some [\<lparr>entry_student = 2, entry_status = None, entry_notes = None\<rparr>])
            = (Inr \<lparr>resp_success = True, resp_data = [r], resp_errors = None\<rparr>,
               attendance_example\<lparr>attendances := attendances attendance_example @ [r]\<rparr>))
   \<and> markMultipleAttendances attendance_example example_teacher (Some 7) (Some 3600000)
        (Some ([\<lparr>entry_student = 5, entry_status = Some ''present'', entry_notes = None\<rparr>]
               @ [\<lparr>entry_student = 5, entry_status = Some ''present'', entry_notes = None\<rparr>]))
      = (Inr \<lparr>resp_success = False, resp_data = [],
              resp_errors = Some [NotInBatch 5, NotInBatch 5]\<rparr>, attendance_example)"
proof -
  let ?en = "\<lambda>e. entry_student e \<in> set (students example_batch)"
  let ?ne = "\<lambda>e. entry_student e \<notin> set (students example_batch)"
  have h1: "Batch_findById attendance_example 7 = Some example_batch"
    by (simp add: attendance_eval)
  have h2: "teacher example_batch = uid example_teacher \<or> urole example_teacher = Admin"
    by (simp add: attendance_eval)
  have h0: "(3600000 :: date) \<noteq> 0" by simp
  have h3: "3600000 < setHours 3600000 23 59 59"
    by (simp add: setHours_def)
  have h4: "\<forall>e \<in> set example_entries. ?en e \<longrightarrow> validEntry e"
    by (simp add: attendance_eval)
  have h5: "distinct (map aid (attendances attendance_example))"
    by (simp add: attendance_eval)
  have h6: "distinct (map entry_student example_entries)"
    by (simp add: attendance_eval)
  have n: "length example_entries = 3"
    and k: "length (filter ?ne example_entries) = 1"
    and ks: "map (\<lambda>e. NotInBatch (entry_student e)) (filter ?ne example_entries) = [NotInBatch 5]"
    by (simp_all add: attendance_eval)
  from bulk_mark_partial_success [OF h1 h2 h0, of example_entries, THEN conjunct1]
  obtain resp d' where r:
    "markMultipleAttendances attendance_example example_teacher (Some 7) (Some 3600000)
        (Some example_entries) = (Inr resp, d')"
    "resp_success resp = (errorsOf resp = [])"
    "distinct (map aid (attendances attendance_example)) \<and> distinct (map entry_student example_entries)
          \<longrightarrow> set (resp_data resp) \<subseteq> set (attendances d')"
    "3600000 < setHours 3600000 23 59 59 \<and> (\<forall>e \<in> set example_entries. ?en e \<longrightarrow> validEntry e)
        \<longrightarrow> length (resp_data resp) = length example_entries - length (filter ?ne example_entries)
            \<and> length (errorsOf resp) = length (filter ?ne example_entries)
            \<and> errorsOf resp = map (\<lambda>e. NotInBatch (entry_student e)) (filter ?ne example_entries)
            \<and> list_all2 (entry_recorded example_teacher 7 3600000) (filter ?en example_entries)
                (resp_data resp)
            \<and> (distinct (map aid (attendances attendance_example))
                  \<and> distinct (map entry_student example_entries)
                 \<longrightarrow> list_all2 (upsert_of_entry attendance_example example_teacher 7 3600000)
                       (filter ?en example_entries) (resp_data resp))"
    by blast
  from r(3) h5 h6 have c1: "set (resp_data resp) \<subseteq> set (attendances d')" by simp
  from r(4) h3 h4 h5 h6 n k ks
  have c2: "length (resp_data resp) = 2" and c3: "errorsOf resp = [NotInBatch 5]"
    and c4: "list_all2 (entry_recorded example_teacher 7 3600000) (filter ?en example_entries)
                (resp_data resp)"
    and c5: "list_all2 (upsert_of_entry attendance_example example_teacher 7 3600000)
                       (filter ?en example_entries) (resp_data resp)"
    by simp_all
  from r(2) c3 have c6: "\<not> resp_success resp" by simp
  have ex: "\<exists>resp d'. markMultipleAttendances attendance_example example_teacher (Some 7) (Some 3600000)
                    (Some example_entries) = (Inr resp, d')
          \<and> length (resp_data resp) = 2 \<and> errorsOf resp = [NotInBatch 5] \<and> \<not> resp_success resp
          \<and> list_all2 (entry_recorded example_teacher 7 3600000)
               (filter ?en example_entries) (resp_data resp)
          \<and> list_all2 (upsert_of_entry attendance_example example_teacher 7 3600000)
               (filter ?en example_entries) (resp_data resp)
          \<and> set (resp_data resp) \<subseteq> set (attendances d')"
    using r(1) c1 c2 c3 c4 c5 c6 by (intro exI [of _ resp] exI [of _ d'] conjI)
  have l: "list_all validEntry (filter ?en example_entries)"
    using h4 by (simp add: list_all_iff)
  have tt: "teacher example_batch = uid example_teacher"
    by (simp add: example_teacher_def example_batch_def)
  let ?e5 = "\<lparr>entry_student = 5, entry_status = Some ''present'', entry_notes = None\<rparr>"
  let ?e2 = "\<lparr>entry_student = 2, entry_status = None, entry_notes = None\<rparr>"
  note T = bulk_mark_partial_success [OF h1 h2 h0, of example_entries]
  have n5: "entry_student ?e5 \<notin> set (students example_batch)" by (simp add: example_batch_def)
  have i2: "entry_student ?e2 \<in> set (students example_batch)" by (simp add: example_batch_def)
  have v2: "validEntry ?e2" by (simp add: validEntry_def)
  have f2: "Attendance_findOne attendance_example (entry_student ?e2) 7 3600000 = None"
    by (simp add: attendance_eval)
  note A1 = T [THEN conjunct2, THEN conjunct1, rule_format]
  note A2 = T [THEN conjunct2, THEN conjunct2, THEN conjunct1, rule_format]
  note B = T [THEN conjunct2, THEN conjunct2, THEN conjunct2, rule_format]
  from A1 [OF n5] have s1: "markMultipleAttendances attendance_example example_teacher (Some 7) (Some 3600000)
        (Some [?e5])
      = (Inr \<lparr>resp_success = False, resp_data = [], resp_errors = Some [NotInBatch 5]\<rparr>,
         attendance_example)"
    by simp
  from A2 [OF conjI [OF i2 conjI [OF v2 h3]]] have "\<exists>r. upsert_of_entry attendance_example example_teacher 7 3600000 ?e2 r
         \<and> markMultipleAttendances attendance_example example_teacher (Some 7) (Some 3600000)
              (Some [?e2])
            = (Inr \<lparr>resp_success = True, resp_data = [r], resp_errors = None\<rparr>,
               attendance_example\<lparr>attendances :=
                  (case Attendance_findOne attendance_example (entry_student ?e2) 7 3600000 of
                              Some existing \<Rightarrow>
                                map (\<lambda>x. if aid x = aid existing then r else x) (attendances attendance_example)
                            | None \<Rightarrow> attendances attendance_example @ [r])\<rparr>)"
    by simp
  with f2 have s2: "\<exists>r. upsert_of_entry attendance_example example_teacher 7 3600000 ?e2 r
         \<and> markMultipleAttendances attendance_example example_teacher (Some 7) (Some 3600000)
              (Some [?e2])
            = (Inr \<lparr>resp_success = True, resp_data = [r], resp_errors = None\<rparr>,
               attendance_example\<lparr>attendances := attendances attendance_example @ [r]\<rparr>)"
    by simp
  from B [OF conjI [OF s1 s1]] have s3: "markMultipleAttendances attendance_example example_teacher (Some 7) (Some 3600000)
        (Some ([?e5] @ [?e5]))
      = (Inr \<lparr>resp_success = False, resp_data = [],
              resp_errors = Some [NotInBatch 5, NotInBatch 5]\<rparr>, attendance_example)"
    by (simp add: errorsOf_def)
  from n5 have n5': "5 \<notin> set (students example_batch)" by simp
  from i2 have i2': "2 \<in> set (students example_batch)" by simp
  from h1 tt h0 h3 l h5 h6 n k ex n5' s1 i2' v2 s2 s3 show ?thesis by (intro conjI)
qed

text \<open>
  One entry (N = 1) for the enrolled student 2 (K = 0) with the status tardy, which is not in
  the enum: the create throws a validation error, the results list is empty and the errors
  list has one member.
\<close>

theorem bulk_invalid_status_counterexample:
  "2 \<in> set (students example_batch)
   \<and> markMultipleAttendances attendance_example example_teacher (Some 7) (Some 3600000)
        (Some [\<lparr>entry_student = 2, entry_status = Some ''tardy'', entry_notes = None\<rparr>])
      = (Inr \<lparr>resp_success = False, resp_data = [],
              resp_errors = Some [ProcessingError 2 ValidationError]\<rparr>, attendance_example)"
  by (simp add: attendance_eval)

text \<open>
  Admin 50 bulk-marks student 1 late on the day of record 1, which teacher 9 had marked:
  the record now carries \<open>markedBy = 50\<close>, and teacher 9, who could delete it before, gets 403.
\<close>

theorem bulk_update_takes_over_record_witness:
  "Attendance_findOne attendance_example 1 7 3600000 = Some example_record
   \<and> distinct (map aid (attendances attendance_example))
   \<and> snd (markOne example_admin example_batch 7 3600000
            \<lparr>entry_student = 1, entry_status = Some ''late'', entry_notes = None\<rparr>
            (attendance_example, [], []))
       = ([example_record\<lparr>att_status := Some ''late'', markedBy := 50\<rparr>], [])
   \<and> fst (deleteAttendance attendance_example example_teacher 1) = Inr ()
   \<and> fst (deleteAttendance
            (fst (markOne example_admin example_batch 7 3600000
               \<lparr>entry_student = 1, entry_status = Some ''late'', entry_notes = None\<rparr>
               (attendance_example, [], [])))
            example_teacher 1)
       = Inl (ErrorResponse ''Not authorized to delete this attendance record'' 403)"
proof -
  let ?att = "\<lparr>entry_student = 1, entry_status = Some ''late'', entry_notes = None\<rparr>"
  let ?m = "markOne example_admin example_batch 7 3600000 ?att (attendance_example, [], [])"
  let ?r = "example_record\<lparr>att_status := Some ''late'', markedBy := 50\<rparr>"
  have h1: "Attendance_findOne attendance_example (entry_student ?att) 7 3600000 = Some example_record"
    by (simp add: attendance_eval)
  have h3: "distinct (map aid (attendances attendance_example))"
    by (simp add: attendance_eval)
  have s: "snd ?m = ([?r], [])"
    by (simp add: attendance_eval)
  then have h2: "?m = (fst ?m, [] @ [?r], [])"
    by (metis append_Nil prod.collapse)
  from bulk_update_takes_over_record [OF h1 h2 h3]
  have a: "fst (deleteAttendance attendance_example example_teacher 1) = Inr ()"
    and b: "deleteAttendance (fst ?m) example_teacher 1
       = (Inl (ErrorResponse ''Not authorized to delete this attendance record'' 403), fst ?m)"
    by (simp_all add: example_teacher_def example_admin_def example_record_def)
  from h1 h3 s a b show ?thesis by simp
qed

section \<open>Attendance summary\<close>

text \<open>
  C7 (what the code does). Student 1 has three present records and one absent record in
  batch 7. The summary request of the batch's teacher passes the lookup and the access check
  and then throws the ReferenceError, answered with status 500: no percentage is returned.
\<close>

theorem summary_throws_ReferenceError:
  "length (filter (\<lambda>a. att_student a = 1 \<and> att_batch a = 7 \<and> att_status a = Some ''present'')
             (attendances attendance_example)) = 3
   \<and> length (filter (\<lambda>a. att_student a = 1 \<and> att_batch a = 7 \<and> att_status a = Some ''absent'')
             (attendances attendance_example)) = 1
   \<and> length (filter (\<lambda>a. att_student a = 1 \<and> att_batch a = 7) (attendances attendance_example)) = 4
   \<and> getStudentAttendanceSummary attendance_example example_teacher 1 7
       = Inl (ReferenceError ''mongoose is not defined'')
   \<and> statusCode (ReferenceError ''mongoose is not defined'') = 500"
  by (simp add: attendance_example_def example_teacher_def getStudentAttendanceSummary_def
        Batch_findById_def)

lemma summary_never_answers:
  "getStudentAttendanceSummary d u s b \<noteq> Inr r"
  by (simp add: getStudentAttendanceSummary_def split: option.splits)

section \<open>The mark ceiling at grading\<close>

text \<open>
  gradeSubmission compares nothing with \<open>totalMarks\<close>; whether a mark above it is stored
  rests on the verdict of the \<open>max\<close> validator alone. On assignment 1 (total marks 10) with
  a submission of student 1, a mark of 11 is stored with status graded when the validator
  passes it, and the request is answered with a validation error, the store unchanged, when
  it does not.
\<close>

lemma mark_above_total_stored_when_max_passes:
  "totalMarks (the (Assignment_findById assignment_example 1)) = 10
   \<and> (\<exists>d'. gradeSubmission max_passes
               (asg_step max_passes assignment_example (Submit \<lparr>uid = 1, urole = Student\<rparr> 1 [] None 500))
               \<lparr>uid = 9, urole = Teacher\<rparr> 1 1 (Some 11) None 600
            = (Inr \<lparr>sub_student = 1, submittedAt = 500, files = [], sub_notes = [],
                    marksObtained = Some 11, feedback = None, gradedBy = Some 9,
                    gradedAt = Some 600, sub_status = Graded\<rparr>, d'))"
  by (simp add: assignment_example_def submitAssignment_def gradeSubmission_def
        Assignment_findById_def Batch_findById_def allowLateSubmission_def
        Assignment_save_def validSubmission_def max_passes_def Let_def)

lemma mark_above_total_rejected_when_max_fails:
  "gradeSubmission max_fails
      (asg_step max_fails assignment_example (Submit \<lparr>uid = 1, urole = Student\<rparr> 1 [] None 500))
      \<lparr>uid = 9, urole = Teacher\<rparr> 1 1 (Some 11) None 600
    = (Inl ValidationError,
       asg_step max_fails assignment_example (Submit \<lparr>uid = 1, urole = Student\<rparr> 1 [] None 500))"
  by (simp add: assignment_example_def submitAssignment_def gradeSubmission_def
        Assignment_findById_def Batch_findById_def allowLateSubmission_def
        Assignment_save_def validSubmission_def max_fails_def Let_def)

end
